theory Spec2Isabelle
  imports Complex_Main "HOL-Library.Char_ord" "HOL-Library.List_Lexorder"
    "HOL-Library.Product_Lexorder"
begin

section \<open>vTAXI: the waypoint router (pathfinder.py) and the airport indexer (airport\_process.py)\<close>

text \<open>
  Python values are modelled as follows.  Strings are \<open>string\<close>; their order is the
  lexicographic order on characters, as Python's is.  Segment lengths (JSON numbers, Python
  floats) are real numbers: addition and comparison are exact, and the only non-finite value the
  router creates itself, \<open>float('inf')\<close>, is the constructor \<open>PInf\<close> of \<open>pydist\<close>.
  A dictionary that is only looked up is a map; a dictionary or list that is iterated is a
  list in insertion order.  An exception is a value \<open>Inl e\<close>; a loop that may run forever
  returns \<open>None\<close> when it does.
\<close>

datatype py_error = ValueError | KeyError | IndexError | StopIteration

subsection \<open>Data model of the router\<close>

datatype MovementType = ARRIVAL | DEPARTURE

record TaxiSegment =
  segment_id :: string
  name :: string
  start_node :: string
  end_node :: string
  length' :: real
  segment_type :: string

record TaxiPath =
  segments :: "string list"
  total_distance :: real
  waypoints :: "string list"

definition TaxiPath_init :: TaxiPath where
  "TaxiPath_init = \<lparr>segments = [], total_distance = 0, waypoints = []\<rparr>"

definition add_segment :: "TaxiPath \<Rightarrow> string \<Rightarrow> real \<Rightarrow> TaxiPath" where
  "add_segment p sid distance =
     p\<lparr>segments := segments p @ [sid], total_distance := total_distance p + distance\<rparr>"

text \<open>
  The configuration file.  A gate object carries \<open>gate_id\<close> and \<open>node_id\<close> (its other
  keys are not read by the router).  An element of an \<open>entrances\<close> or \<open>exits\<close> array is
  either a JSON string or a JSON array of strings: the router unpacks it into two names, the
  indexer writes it as a string.
\<close>

record Gate =
  gate_id :: string
  node_id :: string

datatype rw_entry = Bare string | Listed "string list"

record RunwayConfig =
  entrances :: "rw_entry list"
  exits :: "rw_entry list"

record Config =
  terminals :: "(string \<times> Gate list) list"
  runway_configurations :: "string \<rightharpoonup> RunwayConfig"

type_synonym adjacency = "(string \<times> string \<times> real) list"

record Airport =
  config :: Config
  segments_by_name :: "string \<rightharpoonup> TaxiSegment list"
  all_segments :: "TaxiSegment list"
  graph :: "string \<rightharpoonup> adjacency"
  airport_config :: string

subsection \<open>Loading the network (\<open>Airport._load_data\<close>)\<close>

text \<open>
  A feature of the GeoJSON file: a \<open>LineString\<close> with its properties, or any other
  geometry.  The key \<open>name\<close> may be missing (\<open>None\<close>), as may \<open>segment_type\<close>.
\<close>

record LineProps =
  p_segment_id :: string
  p_name :: "string option"
  p_start_node :: string
  p_end_node :: string
  p_length :: real
  p_segment_type :: "string option"

datatype Feature = LineString LineProps | OtherGeometry

fun named :: "LineProps \<Rightarrow> bool" where
  "named props = (case p_name props of None \<Rightarrow> False | Some n \<Rightarrow> n \<noteq> [])"

definition make_segment :: "LineProps \<Rightarrow> TaxiSegment" where
  "make_segment props =
     \<lparr>segment_id = p_segment_id props,
      name = (case p_name props of None \<Rightarrow> [] | Some n \<Rightarrow> n),
      start_node = p_start_node props,
      end_node = p_end_node props,
      length' = p_length props,
      segment_type = (case p_segment_type props of None \<Rightarrow> ''taxiway'' | Some t \<Rightarrow> t)\<rparr>"

definition by_name_append ::
  "(string \<rightharpoonup> TaxiSegment list) \<Rightarrow> TaxiSegment \<Rightarrow> (string \<rightharpoonup> TaxiSegment list)" where
  "by_name_append m s =
     (case m (name s) of None \<Rightarrow> m(name s \<mapsto> [s]) | Some ss \<Rightarrow> m(name s \<mapsto> ss @ [s]))"

fun process_features ::
  "Feature list \<Rightarrow> (string \<rightharpoonup> TaxiSegment list) \<times> TaxiSegment list \<Rightarrow>
   (string \<rightharpoonup> TaxiSegment list) \<times> TaxiSegment list" where
  "process_features [] acc = acc"
| "process_features (OtherGeometry # fs) acc = process_features fs acc"
| "process_features (LineString props # fs) (by_name, segs) =
     (if named props
      then process_features fs
             (by_name_append by_name (make_segment props), segs @ [make_segment props])
      else process_features fs (by_name, segs))"

definition adj_of :: "(string \<rightharpoonup> adjacency) \<Rightarrow> string \<Rightarrow> adjacency" where
  "adj_of g n = (case g n of None \<Rightarrow> [] | Some es \<Rightarrow> es)"

definition graph_add :: "(string \<rightharpoonup> adjacency) \<Rightarrow> TaxiSegment \<Rightarrow> (string \<rightharpoonup> adjacency)" where
  "graph_add g s =
     (let g1 = (if start_node s \<in> dom g then g else g(start_node s \<mapsto> []));
          g2 = (if end_node s \<in> dom g1 then g1 else g1(end_node s \<mapsto> []));
          g3 = g2(start_node s \<mapsto> adj_of g2 (start_node s) @ [(end_node s, segment_id s, length' s)])
      in g3(end_node s \<mapsto> adj_of g3 (end_node s) @ [(start_node s, segment_id s, length' s)]))"

definition build_graph :: "TaxiSegment list \<Rightarrow> (string \<rightharpoonup> adjacency)" where
  "build_graph segs = fold (\<lambda>s g. graph_add g s) segs Map.empty"

definition load_data :: "Config \<Rightarrow> Feature list \<Rightarrow> string \<Rightarrow> Airport" where
  "load_data cfg features active =
     (case process_features features (Map.empty, []) of
        (by_name, segs) \<Rightarrow>
          \<lparr>config = cfg, segments_by_name = by_name, all_segments = segs,
           graph = build_graph segs, airport_config = active\<rparr>)"

subsection \<open>Validation (\<open>Airport.validate_movement\<close>)\<close>

text \<open>
  \<open>for name, node in entries\<close> unpacks each element into exactly two values: a string of
  two characters unpacks into its characters, a two-element array into its elements, and
  anything else raises \<open>ValueError\<close>.  Every loop of the router over \<open>entrances\<close> or
  \<open>exits\<close> stops at the first element whose name is the waypoint.
\<close>

fun unpack2 :: "rw_entry \<Rightarrow> py_error + string \<times> string" where
  "unpack2 (Bare [c1, c2]) = Inr ([c1], [c2])"
| "unpack2 (Bare _) = Inl ValueError"
| "unpack2 (Listed [n, v]) = Inr (n, v)"
| "unpack2 (Listed _) = Inl ValueError"

fun find_entry :: "string \<Rightarrow> rw_entry list \<Rightarrow> py_error + string option" where
  "find_entry w [] = Inr None"
| "find_entry w (e # es) =
     (case unpack2 e of
        Inl err \<Rightarrow> Inl err
      | Inr (nm, node) \<Rightarrow> if w = nm then Inr (Some node) else find_entry w es)"

definition runway_config :: "Airport \<Rightarrow> py_error + RunwayConfig" where
  "runway_config a =
     (case runway_configurations (config a) (airport_config a) of
        None \<Rightarrow> Inl KeyError
      | Some rc \<Rightarrow> Inr rc)"

definition gate_found :: "Airport \<Rightarrow> string \<Rightarrow> bool" where
  "gate_found a gid =
     list_ex (\<lambda>t. list_ex (\<lambda>g. gate_id g = gid) (snd t)) (terminals (config a))"

definition validate_movement :: "Airport \<Rightarrow> MovementType \<Rightarrow> string list \<Rightarrow> py_error + bool" where
  "validate_movement a movement_type points =
     (if length points < 2 then Inr False
      else case movement_type of
        ARRIVAL \<Rightarrow>
          (case runway_config a of
             Inl e \<Rightarrow> Inl e
           | Inr rc \<Rightarrow>
               (case find_entry (hd points) (exits rc) of
                  Inl e \<Rightarrow> Inl e
                | Inr None \<Rightarrow> Inr False
                | Inr (Some _) \<Rightarrow> Inr (gate_found a (last points))))
      | DEPARTURE \<Rightarrow>
          (if \<not> gate_found a (hd points) then Inr False
           else case runway_config a of
             Inl e \<Rightarrow> Inl e
           | Inr rc \<Rightarrow>
               (case find_entry (last points) (entrances rc) of
                  Inl e \<Rightarrow> Inl e
                | Inr None \<Rightarrow> Inr False
                | Inr (Some _) \<Rightarrow> Inr True)))"

subsection \<open>The per-leg search (\<open>dijkstra_multi_target\<close>)\<close>

text \<open>
  A distance is a finite number or \<open>float('inf')\<close>.  The three comparisons the router
  makes: a finite candidate against a stored distance (\<open>new_dist < distances[n][0]\<close>), a
  popped finite distance against a stored one (\<open>dist > distances[n][0]\<close>), and a stored one
  against the best so far (\<open>dist < best_dist\<close>).
\<close>

datatype pydist = Fin real | PInf

fun lt_stored :: "real \<Rightarrow> pydist \<Rightarrow> bool" where
  "lt_stored x (Fin y) = (x < y)"
| "lt_stored x PInf = True"

fun gt_stored :: "real \<Rightarrow> pydist \<Rightarrow> bool" where
  "gt_stored x (Fin y) = (x > y)"
| "gt_stored x PInf = False"

fun pydist_less :: "pydist \<Rightarrow> pydist \<Rightarrow> bool" where
  "pydist_less (Fin x) (Fin y) = (x < y)"
| "pydist_less (Fin x) PInf = True"
| "pydist_less PInf _ = False"

type_synonym distances = "string \<rightharpoonup> pydist \<times> string list"
type_synonym pq_entry = "real \<times> string \<times> string list"

text \<open>
  \<open>next(s for s in self.all_segments if s.segment_id == segment_id)\<close>: the first segment
  with that id; \<open>StopIteration\<close> when there is none.
\<close>

definition find_segment :: "Airport \<Rightarrow> string \<Rightarrow> TaxiSegment option" where
  "find_segment a sid = find (\<lambda>s. segment_id s = sid) (all_segments a)"

text \<open>
  The priority queue holds tuples \<open>(dist, node, path)\<close>, compared as Python compares tuples:
  by distance, then by node id, then by path.  \<open>heappop\<close> on a heap returns a least entry, and
  two entries that compare equal are the same value, so the queue is modelled by its contents:
  push appends, pop removes the least entry.  (The initial list is a heap whenever it has at
  most one entry; the router always starts from the one node \<open>last_node\<close>.)
\<close>

definition heappop :: "pq_entry list \<Rightarrow> (pq_entry \<times> pq_entry list) option" where
  "heappop pq =
     (case pq of
        [] \<Rightarrow> None
      | e # es \<Rightarrow> Some (fold min es e, remove1 (fold min es e) pq))"

fun relax ::
  "Airport \<Rightarrow> string set \<Rightarrow> string set \<Rightarrow> real \<Rightarrow> string list \<Rightarrow> adjacency \<Rightarrow>
   distances \<times> pq_entry list \<Rightarrow> py_error + distances \<times> pq_entry list" where
  "relax a forbidden allowed cur_dist path [] st = Inr st"
| "relax a forbidden allowed cur_dist path ((next_node, sid, len) # es) (distances, pq) =
     (if sid \<in> forbidden then relax a forbidden allowed cur_dist path es (distances, pq)
      else case find_segment a sid of
        None \<Rightarrow> Inl StopIteration
      | Some segment \<Rightarrow>
          if allowed \<noteq> {} \<and> name segment \<notin> allowed
          then relax a forbidden allowed cur_dist path es (distances, pq)
          else (case distances next_node of
                  None \<Rightarrow> Inl KeyError
                | Some (d, _) \<Rightarrow>
                    if lt_stored (cur_dist + len) d
                    then relax a forbidden allowed cur_dist path es
                           (distances(next_node \<mapsto> (Fin (cur_dist + len), path @ [sid])),
                            pq @ [(cur_dist + len, next_node, path @ [sid])])
                    else relax a forbidden allowed cur_dist path es (distances, pq)))"

partial_function (option) dijkstra_loop ::
  "Airport \<Rightarrow> string list \<Rightarrow> string set \<Rightarrow> string set \<Rightarrow>
   distances \<times> pq_entry list \<times> string list \<Rightarrow> (py_error + distances) option" where
  "dijkstra_loop a target_nodes forbidden allowed st =
     (case st of (distances, pq, found_targets) \<Rightarrow>
        if pq \<noteq> [] \<and> length found_targets < length target_nodes
        then (case heappop pq of
                None \<Rightarrow> Some (Inl IndexError)
              | Some ((cur_dist, current, path), pq') \<Rightarrow>
                  (case distances current of
                     None \<Rightarrow> Some (Inl KeyError)
                   | Some (d, _) \<Rightarrow>
                       if gt_stored cur_dist d
                       then dijkstra_loop a target_nodes forbidden allowed
                              (distances, pq',
                               if current \<in> set target_nodes
                               then List.insert current found_targets else found_targets)
                       else (case graph a current of
                               None \<Rightarrow> Some (Inl KeyError)
                             | Some nbrs \<Rightarrow>
                                 (case relax a forbidden allowed cur_dist path nbrs (distances, pq') of
                                    Inl e \<Rightarrow> Some (Inl e)
                                  | Inr (distances', pq'') \<Rightarrow>
                                      dijkstra_loop a target_nodes forbidden allowed
                                        (distances', pq'',
                                         if current \<in> set target_nodes
                                         then List.insert current found_targets
                                         else found_targets)))))
        else Some (Inr distances))"

definition init_distances :: "Airport \<Rightarrow> string list \<Rightarrow> distances" where
  "init_distances a start_nodes =
     fold (\<lambda>start d. if start \<in> dom (graph a) then d(start \<mapsto> (Fin 0, [])) else d)
       start_nodes
       (\<lambda>node. case graph a node of None \<Rightarrow> None | Some _ \<Rightarrow> Some (PInf, []))"

definition init_pq :: "Airport \<Rightarrow> string list \<Rightarrow> pq_entry list" where
  "init_pq a start_nodes =
     map (\<lambda>start. (0, start, [])) (filter (\<lambda>start. start \<in> dom (graph a)) start_nodes)"

definition dijkstra_multi_target ::
  "Airport \<Rightarrow> string list \<Rightarrow> string list \<Rightarrow> string set \<Rightarrow> string set \<Rightarrow>
   (py_error + distances) option" where
  "dijkstra_multi_target a start_nodes target_nodes forbidden_segments allowed_segment_names =
     dijkstra_loop a target_nodes forbidden_segments allowed_segment_names
       (init_distances a start_nodes, init_pq a start_nodes, [])"

subsection \<open>Routing (\<open>Airport.find_path\<close>)\<close>

text \<open>
  \<open>get_segment_nodes\<close> returns a Python set of node ids, and the router later iterates
  over it.  The order in which a set of strings is iterated is fixed by the interpreter (the
  hash of each string, seeded per process), not by the program: it is the parameter
  \<open>set_order\<close>, which maps the elements in insertion order to the order of iteration.
  A set is modelled by the list of its elements in iteration order.
\<close>

definition set_add :: "string list \<Rightarrow> string \<Rightarrow> string list" where
  "set_add xs x = (if x \<in> set xs then xs else xs @ [x])"

definition segs_named :: "Airport \<Rightarrow> string \<Rightarrow> TaxiSegment list" where
  "segs_named a w = (case segments_by_name a w of None \<Rightarrow> [] | Some ss \<Rightarrow> ss)"

definition pinned_node ::
  "Airport \<Rightarrow> MovementType \<Rightarrow> string list \<Rightarrow> string \<Rightarrow> py_error + string option" where
  "pinned_node a movement_type points waypoint =
     (if movement_type = ARRIVAL \<and> waypoint = hd points
      then (case runway_config a of
              Inl e \<Rightarrow> Inl e
            | Inr rc \<Rightarrow> find_entry waypoint (exits rc))
      else if movement_type = DEPARTURE \<and> waypoint = last points
      then (case runway_config a of
              Inl e \<Rightarrow> Inl e
            | Inr rc \<Rightarrow> find_entry waypoint (entrances rc))
      else Inr None)"

text \<open>The nodes of the segments named after a waypoint, in the order in which the loop
  adds them to the set.\<close>

definition waypoint_nodes :: "Airport \<Rightarrow> string \<Rightarrow> string list" where
  "waypoint_nodes a waypoint =
     fold (\<lambda>segment nodes. set_add (set_add nodes (start_node segment)) (end_node segment))
       (segs_named a waypoint) []"

definition get_segment_nodes ::
  "(string list \<Rightarrow> string list) \<Rightarrow> Airport \<Rightarrow> MovementType \<Rightarrow> string list \<Rightarrow> string \<Rightarrow>
   string option \<Rightarrow> py_error + string list" where
  "get_segment_nodes set_order a movement_type points waypoint enforce_node =
     (case enforce_node of
        Some n \<Rightarrow> Inr [n]
      | None \<Rightarrow>
          (case pinned_node a movement_type points waypoint of
             Inl e \<Rightarrow> Inl e
           | Inr (Some n) \<Rightarrow> Inr [n]
           | Inr None \<Rightarrow>
               Inr (set_order (waypoint_nodes a waypoint))))"

text \<open>The search for the gate's node: the first matching gate of each terminal, until one
  has a non-empty \<open>node_id\<close>.\<close>

fun find_gate_node :: "(string \<times> Gate list) list \<Rightarrow> string \<Rightarrow> string option \<Rightarrow> string option" where
  "find_gate_node [] gid gate_node = gate_node"
| "find_gate_node (terminal # ts) gid gate_node =
     (case (case find (\<lambda>gate. gate_id gate = gid) (snd terminal) of
              None \<Rightarrow> gate_node
            | Some gate \<Rightarrow> Some (node_id gate)) of
        None \<Rightarrow> find_gate_node ts gid None
      | Some n \<Rightarrow> if n \<noteq> [] then Some n else find_gate_node ts gid (Some n))"

definition touches :: "string \<Rightarrow> TaxiSegment \<Rightarrow> bool" where
  "touches n seg = (n = start_node seg \<or> n = end_node seg)"

text \<open>The first segment, its anchor node and the departure's gate node.\<close>

definition first_leg ::
  "Airport \<Rightarrow> MovementType \<Rightarrow> string list \<Rightarrow> TaxiSegment \<Rightarrow> TaxiSegment list \<Rightarrow>
   TaxiSegment \<times> string \<times> string option" where
  "first_leg a movement_type points seg0 rest =
     (case movement_type of
        DEPARTURE \<Rightarrow>
          (case find_gate_node (terminals (config a)) (hd points) None of
             None \<Rightarrow> (seg0, end_node seg0, None)
           | Some gate_node \<Rightarrow>
               (if gate_node \<noteq> []
                then (case find (touches gate_node) (seg0 # rest) of
                        Some seg \<Rightarrow> (seg, gate_node, Some gate_node)
                      | None \<Rightarrow> (seg0, end_node seg0, Some gate_node))
                else (seg0, end_node seg0, Some gate_node)))
      | ARRIVAL \<Rightarrow>
          (case find (\<lambda>seg. segment_type seg = ''runway'') (seg0 # rest) of
             Some seg \<Rightarrow> (seg, end_node seg, None)
           | None \<Rightarrow> (seg0, end_node seg0, None)))"

text \<open>The defensive re-check of a found path, and the choice of the best target.\<close>

fun valid_path :: "Airport \<Rightarrow> string set \<Rightarrow> string list \<Rightarrow> py_error + bool" where
  "valid_path a allowed [] = Inr True"
| "valid_path a allowed (sid # sids) =
     (case find_segment a sid of
        None \<Rightarrow> Inl StopIteration
      | Some segment \<Rightarrow>
          if name segment \<notin> allowed then Inr False else valid_path a allowed sids)"

fun select_best ::
  "Airport \<Rightarrow> string set \<Rightarrow> distances \<Rightarrow> string list \<Rightarrow>
   pydist \<times> (string \<times> string list) option \<Rightarrow>
   py_error + pydist \<times> (string \<times> string list) option" where
  "select_best a allowed distances [] best = Inr best"
| "select_best a allowed distances (target_node # ts) (best_dist, best) =
     (case distances target_node of
        None \<Rightarrow> Inl KeyError
      | Some (d, segment_path) \<Rightarrow>
          if pydist_less d best_dist
          then (case valid_path a allowed segment_path of
                  Inl e \<Rightarrow> Inl e
                | Inr True \<Rightarrow>
                    select_best a allowed distances ts (d, Some (target_node, segment_path))
                | Inr False \<Rightarrow> select_best a allowed distances ts (best_dist, best))
          else select_best a allowed distances ts (best_dist, best))"

fun add_path_segments ::
  "Airport \<Rightarrow> string list \<Rightarrow> TaxiPath \<times> string set \<Rightarrow> py_error + TaxiPath \<times> string set" where
  "add_path_segments a [] st = Inr st"
| "add_path_segments a (sid # sids) (path, used_segments) =
     (case find_segment a sid of
        None \<Rightarrow> Inl StopIteration
      | Some segment \<Rightarrow>
          add_path_segments a sids
            (add_segment path sid (length' segment), insert sid used_segments))"

text \<open>
  One leg: from \<open>last_node\<close> to the waypoint \<open>points[i + 1]\<close>.  The result is the best
  target and its path, \<open>Inr None\<close> when no target qualifies.
\<close>

definition find_leg ::
  "(string list \<Rightarrow> string list) \<Rightarrow> Airport \<Rightarrow> MovementType \<Rightarrow> string list \<Rightarrow> nat \<Rightarrow>
   string set \<Rightarrow> string \<Rightarrow> (py_error + (string \<times> string list) option) option" where
  "find_leg set_order a movement_type points i used_segments last_node =
     (case (if movement_type = DEPARTURE \<and> points ! (i + 1) = last points
            then (case runway_config a of
                    Inl e \<Rightarrow> Inl e
                  | Inr rc \<Rightarrow> find_entry (points ! (i + 1)) (entrances rc))
            else Inr None) of
        Inl e \<Rightarrow> Some (Inl e)
      | Inr enforce_node \<Rightarrow>
          (case get_segment_nodes set_order a movement_type points (points ! (i + 1))
                  enforce_node of
             Inl e \<Rightarrow> Some (Inl e)
           | Inr target_nodes \<Rightarrow>
               (case dijkstra_multi_target a [last_node] target_nodes used_segments
                       {points ! i, points ! (i + 1)} of
                  None \<Rightarrow> None
                | Some (Inl e) \<Rightarrow> Some (Inl e)
                | Some (Inr distances) \<Rightarrow>
                    (case select_best a {points ! i, points ! (i + 1)} distances target_nodes
                            (PInf, None) of
                       Inl e \<Rightarrow> Some (Inl e)
                     | Inr (_, best) \<Rightarrow> Some (Inr best)))))"

function route_loop ::
  "(string list \<Rightarrow> string list) \<Rightarrow> Airport \<Rightarrow> MovementType \<Rightarrow> string list \<Rightarrow> nat \<Rightarrow>
   TaxiPath \<times> string set \<times> string \<Rightarrow>
   (py_error + (TaxiPath \<times> string set \<times> string) option) option" where
  "route_loop set_order a movement_type points i (path, used_segments, last_node) =
     (if i < length points - 1
      then (case find_leg set_order a movement_type points i used_segments last_node of
              None \<Rightarrow> None
            | Some (Inl e) \<Rightarrow> Some (Inl e)
            | Some (Inr None) \<Rightarrow> Some (Inr None)
            | Some (Inr (Some (best_target, best_path))) \<Rightarrow>
                (case add_path_segments a best_path (path, used_segments) of
                   Inl e \<Rightarrow> Some (Inl e)
                 | Inr (path', used') \<Rightarrow>
                     route_loop set_order a movement_type points (i + 1)
                       (path', used', best_target)))
      else Some (Inr (Some (path, used_segments, last_node))))"
  by pat_completeness auto
termination
  by (relation "measure (\<lambda>(so, a, mt, points, i, st). length points - 1 - i)") auto

text \<open>The closing segment: the first segment named after the last waypoint that touches
  both the pinned node and the last node reached.\<close>

definition closing_node :: "Airport \<Rightarrow> MovementType \<Rightarrow> string list \<Rightarrow> py_error + string option" where
  "closing_node a movement_type points =
     (case movement_type of
        DEPARTURE \<Rightarrow>
          (case runway_config a of
             Inl e \<Rightarrow> Inl e
           | Inr rc \<Rightarrow> find_entry (last points) (entrances rc))
      | ARRIVAL \<Rightarrow> Inr (find_gate_node (terminals (config a)) (last points) None))"

definition closing_segment ::
  "Airport \<Rightarrow> string list \<Rightarrow> string option \<Rightarrow> string \<Rightarrow> TaxiSegment option" where
  "closing_segment a points pinned last_node =
     (case pinned of
        None \<Rightarrow> None
      | Some n \<Rightarrow>
          if n \<noteq> []
          then find (\<lambda>seg. touches n seg \<and> touches last_node seg) (segs_named a (last points))
          else None)"

definition add_closing ::
  "Airport \<Rightarrow> MovementType \<Rightarrow> string list \<Rightarrow> TaxiPath \<Rightarrow> string \<Rightarrow> py_error + TaxiPath" where
  "add_closing a movement_type points path last_node =
     (case closing_node a movement_type points of
        Inl e \<Rightarrow> Inl e
      | Inr pinned \<Rightarrow>
          (case closing_segment a points pinned last_node of
             None \<Rightarrow> Inr path
           | Some seg \<Rightarrow> Inr (add_segment path (segment_id seg) (length' seg))))"

text \<open>The route up to the end of the main loop: validation, the first segment, the legs.\<close>

definition route_legs ::
  "(string list \<Rightarrow> string list) \<Rightarrow> Airport \<Rightarrow> string list \<Rightarrow> MovementType \<Rightarrow>
   (py_error + (TaxiPath \<times> string set \<times> string) option) option" where
  "route_legs set_order a points movement_type =
     (case validate_movement a movement_type points of
        Inl e \<Rightarrow> Some (Inl e)
      | Inr False \<Rightarrow> Some (Inr None)
      | Inr True \<Rightarrow>
          (case segs_named a (hd points) of
             [] \<Rightarrow> Some (Inr None)
           | seg0 # rest \<Rightarrow>
               (case first_leg a movement_type points seg0 rest of
                  (first_segment, first_node, gate_node) \<Rightarrow>
                    route_loop set_order a movement_type points 0
                      (add_segment TaxiPath_init (segment_id first_segment)
                         (length' first_segment),
                       (if movement_type = DEPARTURE \<and> Some first_node = gate_node
                        then {} else {segment_id first_segment}),
                       first_node))))"

definition find_path ::
  "(string list \<Rightarrow> string list) \<Rightarrow> Airport \<Rightarrow> string list \<Rightarrow> MovementType \<Rightarrow>
   (py_error + TaxiPath option) option" where
  "find_path set_order a points movement_type =
     (case route_legs set_order a points movement_type of
        None \<Rightarrow> None
      | Some (Inl e) \<Rightarrow> Some (Inl e)
      | Some (Inr None) \<Rightarrow> Some (Inr None)
      | Some (Inr (Some (path, used_segments, last_node))) \<Rightarrow>
          (case add_closing a movement_type points path last_node of
             Inl e \<Rightarrow> Some (Inl e)
           | Inr path' \<Rightarrow> Some (Inr (Some path'))))"

subsection \<open>The method on the heap (\<open>Airport.find_path\<close> and the objects it touches)\<close>

text \<open>
  The functions above take the \<open>Airport\<close> as a value, so they cannot say what a call does
  to the object.  Here the same method runs on a heap.  The heap is the list of the objects
  created so far and an address is a position in it; \<open>self\<close> is an address; reading
  \<open>self.graph\<close> loads the \<open>Airport\<close> object and then the object its field refers to;
  creating a container appends a new object; and every statement of the method that mutates
  an object (\<open>distances[n] = ...\<close>, \<open>heappush\<close>, \<open>heappop\<close>, \<open>found_targets.add\<close>,
  \<open>nodes.add\<close>, \<open>path.add_segment\<close>, \<open>used_segments.add\<close>) is an assignment to the
  address of that object.  What the method never mutates once it is built (tuples, the path
  lists held by \<open>distances\<close> and by the queue, the set of allowed names, the segments) is a
  value inside the object that holds it.
\<close>

type_synonym addr = nat

datatype obj =
    AirportObj addr addr addr addr string
  | ConfigObj Config
  | IndexObj "string \<rightharpoonup> TaxiSegment list"
  | SegmentsObj "TaxiSegment list"
  | GraphObj "string \<rightharpoonup> adjacency"
  | PathObj TaxiPath
  | SetObj "string list"
  | DistancesObj distances
  | QueueObj "pq_entry list"

type_synonym heap_state = "obj list"

text \<open>
  A computation takes a heap and returns its outcome and the heap it leaves, or \<open>None\<close> when
  it does not return.  The outcome is a value, a Python exception, or \<open>BadReference\<close> when
  an address does not hold an object of the kind the statement needs.
\<close>

datatype fault = Raised py_error | BadReference

type_synonym 'a action = "heap_state \<Rightarrow> ((fault + 'a) \<times> heap_state) option"

definition ret :: "'a \<Rightarrow> 'a action" where
  "ret x s = Some (Inr x, s)"

definition throw :: "py_error \<Rightarrow> 'a action" where
  "throw e s = Some (Inl (Raised e), s)"

definition bad_reference :: "'a action" where
  "bad_reference s = Some (Inl BadReference, s)"

definition bnd :: "'a action \<Rightarrow> ('a \<Rightarrow> 'b action) \<Rightarrow> 'b action" where
  "bnd m f s =
     (case m s of
        None \<Rightarrow> None
      | Some (Inl e, s') \<Rightarrow> Some (Inl e, s')
      | Some (Inr x, s') \<Rightarrow> f x s')"

definition alloc :: "obj \<Rightarrow> addr action" where
  "alloc ob s = Some (Inr (length s), s @ [ob])"

definition load :: "addr \<Rightarrow> obj action" where
  "load p s = (if p < length s then Some (Inr (s ! p), s) else Some (Inl BadReference, s))"

definition assign :: "addr \<Rightarrow> obj \<Rightarrow> unit action" where
  "assign p ob s =
     (if p < length s then Some (Inr (), s[p := ob]) else Some (Inl BadReference, s))"

text \<open>\<open>for x in xs: body\<close>, for a body without \<open>break\<close>.\<close>

fun for_each :: "'a list \<Rightarrow> ('a \<Rightarrow> unit action) \<Rightarrow> unit action" where
  "for_each [] body s = Some (Inr (), s)"
| "for_each (x # xs) body s =
     (case body x s of
        None \<Rightarrow> None
      | Some (Inl e, s') \<Rightarrow> Some (Inl e, s')
      | Some (Inr _, s') \<Rightarrow> for_each xs body s')"

text \<open>
  Loading an object of a given kind.  \<open>read_self\<close> reads the four containers and the
  active configuration name through the fields of \<open>self\<close>, as the heap holds them at that
  moment; \<open>lift\<close> runs a computation of the value model, which only reads.
\<close>

definition load_set :: "addr \<Rightarrow> string list action" where
  "load_set p = bnd (load p) (\<lambda>ob. case ob of SetObj xs \<Rightarrow> ret xs | _ \<Rightarrow> bad_reference)"

definition load_path :: "addr \<Rightarrow> TaxiPath action" where
  "load_path p = bnd (load p) (\<lambda>ob. case ob of PathObj path \<Rightarrow> ret path | _ \<Rightarrow> bad_reference)"

definition load_distances :: "addr \<Rightarrow> distances action" where
  "load_distances p =
     bnd (load p) (\<lambda>ob. case ob of DistancesObj d \<Rightarrow> ret d | _ \<Rightarrow> bad_reference)"

definition load_queue :: "addr \<Rightarrow> pq_entry list action" where
  "load_queue p = bnd (load p) (\<lambda>ob. case ob of QueueObj pq \<Rightarrow> ret pq | _ \<Rightarrow> bad_reference)"

definition load_config :: "addr \<Rightarrow> Config action" where
  "load_config p = bnd (load p) (\<lambda>ob. case ob of ConfigObj cfg \<Rightarrow> ret cfg | _ \<Rightarrow> bad_reference)"

definition load_index :: "addr \<Rightarrow> (string \<rightharpoonup> TaxiSegment list) action" where
  "load_index p = bnd (load p) (\<lambda>ob. case ob of IndexObj m \<Rightarrow> ret m | _ \<Rightarrow> bad_reference)"

definition load_segments :: "addr \<Rightarrow> TaxiSegment list action" where
  "load_segments p =
     bnd (load p) (\<lambda>ob. case ob of SegmentsObj segs \<Rightarrow> ret segs | _ \<Rightarrow> bad_reference)"

definition load_graph :: "addr \<Rightarrow> (string \<rightharpoonup> adjacency) action" where
  "load_graph p = bnd (load p) (\<lambda>ob. case ob of GraphObj g \<Rightarrow> ret g | _ \<Rightarrow> bad_reference)"

definition read_self :: "addr \<Rightarrow> Airport action" where
  "read_self self =
     bnd (load self) (\<lambda>ob. case ob of
        AirportObj c b l g active \<Rightarrow>
          bnd (load_config c) (\<lambda>cfg.
          bnd (load_index b) (\<lambda>by_name.
          bnd (load_segments l) (\<lambda>segs.
          bnd (load_graph g) (\<lambda>gr.
          ret \<lparr>config = cfg, segments_by_name = by_name, all_segments = segs,
               graph = gr, airport_config = active\<rparr>))))
      | _ \<Rightarrow> bad_reference)"

definition lift :: "py_error + 'a \<Rightarrow> 'a action" where
  "lift r = (case r of Inl e \<Rightarrow> throw e | Inr x \<Rightarrow> ret x)"

text \<open>\<open>s.add(x)\<close> on a set, and \<open>TaxiPath.add_segment\<close>, its two statements in turn.\<close>

definition set_add_st :: "addr \<Rightarrow> string \<Rightarrow> unit action" where
  "set_add_st p x = bnd (load_set p) (\<lambda>xs. assign p (SetObj (set_add xs x)))"

definition add_segment_st :: "addr \<Rightarrow> string \<Rightarrow> real \<Rightarrow> unit action" where
  "add_segment_st path sid distance =
     bnd (load_path path) (\<lambda>p.
     bnd (assign path (PathObj (p\<lparr>segments := segments p @ [sid]\<rparr>))) (\<lambda>_.
     bnd (load_path path) (\<lambda>p.
     assign path (PathObj (p\<lparr>total_distance := total_distance p + distance\<rparr>)))))"

text \<open>\<open>get_segment_nodes\<close>: the set it returns is a new object.\<close>

definition get_segment_nodes_st ::
  "addr \<Rightarrow> MovementType \<Rightarrow> string list \<Rightarrow> string \<Rightarrow> string option \<Rightarrow> addr action" where
  "get_segment_nodes_st self movement_type points waypoint enforce_node =
     (case enforce_node of
        Some n \<Rightarrow> alloc (SetObj [n])
      | None \<Rightarrow>
          bnd (read_self self) (\<lambda>a.
          bnd (lift (pinned_node a movement_type points waypoint)) (\<lambda>pinned.
            case pinned of
              Some n \<Rightarrow> alloc (SetObj [n])
            | None \<Rightarrow>
                bnd (alloc (SetObj [])) (\<lambda>nodes.
                bnd (read_self self) (\<lambda>a.
                bnd (for_each (segs_named a waypoint) (\<lambda>segment.
                       bnd (set_add_st nodes (start_node segment)) (\<lambda>_.
                       set_add_st nodes (end_node segment)))) (\<lambda>_.
                ret nodes))))))"

text \<open>
  \<open>dijkstra_multi_target\<close>.  \<open>relax_st\<close> is the body of the loop over the neighbours of
  the popped node, \<open>dijkstra_step\<close> one turn of the \<open>while\<close> loop (it returns whether the
  loop condition held), \<open>dijkstra_loop_st\<close> the loop.  \<open>forbidden\<close> is the address of
  \<open>used_segments\<close>, \<open>target_nodes\<close> that of the set of target nodes.
\<close>

definition relax_st ::
  "addr \<Rightarrow> addr \<Rightarrow> string set \<Rightarrow> real \<Rightarrow> string list \<Rightarrow> addr \<Rightarrow> addr \<Rightarrow>
   string \<times> string \<times> real \<Rightarrow> unit action" where
  "relax_st self forbidden allowed cur_dist path distances pq edge =
     (case edge of (next_node, sid, len) \<Rightarrow>
        bnd (load_set forbidden) (\<lambda>forbidden_segments.
          if sid \<in> set forbidden_segments then ret ()
          else
            bnd (read_self self) (\<lambda>a.
              case find_segment a sid of
                None \<Rightarrow> throw StopIteration
              | Some segment \<Rightarrow>
                  if allowed \<noteq> {} \<and> name segment \<notin> allowed then ret ()
                  else
                    bnd (load_distances distances) (\<lambda>d.
                      case d next_node of
                        None \<Rightarrow> throw KeyError
                      | Some (stored, _) \<Rightarrow>
                          if lt_stored (cur_dist + len) stored
                          then
                            bnd (assign distances
                                   (DistancesObj
                                      (d(next_node \<mapsto> (Fin (cur_dist + len), path @ [sid])))))
                              (\<lambda>_.
                            bnd (load_queue pq) (\<lambda>q.
                            assign pq (QueueObj (q @ [(cur_dist + len, next_node, path @ [sid])]))))
                          else ret ()))))"

definition dijkstra_step ::
  "addr \<Rightarrow> addr \<Rightarrow> addr \<Rightarrow> string set \<Rightarrow> addr \<Rightarrow> addr \<Rightarrow> addr \<Rightarrow> bool action" where
  "dijkstra_step self target_nodes forbidden allowed distances pq found_targets =
     bnd (load_queue pq) (\<lambda>q.
     bnd (load_set found_targets) (\<lambda>found.
     bnd (load_set target_nodes) (\<lambda>targets.
       if q \<noteq> [] \<and> length found < length targets
       then
         (case heappop q of
            None \<Rightarrow> throw IndexError
          | Some ((cur_dist, current, path), q') \<Rightarrow>
              bnd (assign pq (QueueObj q')) (\<lambda>_.
              bnd (if current \<in> set targets then set_add_st found_targets current else ret ())
                (\<lambda>_.
              bnd (load_distances distances) (\<lambda>d.
                case d current of
                  None \<Rightarrow> throw KeyError
                | Some (stored, _) \<Rightarrow>
                    if gt_stored cur_dist stored then ret True
                    else
                      bnd (read_self self) (\<lambda>a.
                        case graph a current of
                          None \<Rightarrow> throw KeyError
                        | Some nbrs \<Rightarrow>
                            bnd (for_each nbrs
                                   (relax_st self forbidden allowed cur_dist path distances pq))
                              (\<lambda>_. ret True))))))
       else ret False)))"

partial_function (option) dijkstra_loop_st ::
  "addr \<Rightarrow> addr \<Rightarrow> addr \<Rightarrow> string set \<Rightarrow> addr \<Rightarrow> addr \<Rightarrow> addr \<Rightarrow> heap_state \<Rightarrow>
   ((fault + unit) \<times> heap_state) option" where
  "dijkstra_loop_st self target_nodes forbidden allowed distances pq found_targets s =
     (case dijkstra_step self target_nodes forbidden allowed distances pq found_targets s of
        None \<Rightarrow> None
      | Some (Inl e, s') \<Rightarrow> Some (Inl e, s')
      | Some (Inr again, s') \<Rightarrow>
          if again
          then dijkstra_loop_st self target_nodes forbidden allowed distances pq found_targets s'
          else Some (Inr (), s'))"

definition dijkstra_multi_target_st ::
  "addr \<Rightarrow> string list \<Rightarrow> addr \<Rightarrow> addr \<Rightarrow> string set \<Rightarrow> addr action" where
  "dijkstra_multi_target_st self start_nodes target_nodes forbidden_segments
       allowed_segment_names =
     bnd (read_self self) (\<lambda>a.
     bnd (alloc (DistancesObj
                   (\<lambda>node. case graph a node of None \<Rightarrow> None | Some _ \<Rightarrow> Some (PInf, []))))
       (\<lambda>distances.
     bnd (for_each start_nodes (\<lambda>start.
            bnd (read_self self) (\<lambda>a.
              if start \<notin> dom (graph a) then ret ()
              else bnd (load_distances distances) (\<lambda>d.
                     assign distances (DistancesObj (d(start \<mapsto> (Fin 0, []))))))))
       (\<lambda>_.
     bnd (read_self self) (\<lambda>a.
     bnd (alloc (QueueObj (init_pq a start_nodes))) (\<lambda>pq.
     bnd (alloc (SetObj [])) (\<lambda>found_targets.
     bnd (dijkstra_loop_st self target_nodes forbidden_segments allowed_segment_names
            distances pq found_targets) (\<lambda>_.
     ret distances)))))))"

text \<open>
  One leg.  A set of at most one element is iterated in one way; any other in the order
  \<open>set_order\<close> gives its elements.  The loop that picks the best target only reads.
\<close>

definition set_iter :: "(string list \<Rightarrow> string list) \<Rightarrow> string list \<Rightarrow> string list" where
  "set_iter set_order xs = (if length xs \<le> 1 then xs else set_order xs)"

definition find_leg_st ::
  "(string list \<Rightarrow> string list) \<Rightarrow> addr \<Rightarrow> MovementType \<Rightarrow> string list \<Rightarrow> nat \<Rightarrow>
   addr \<Rightarrow> string \<Rightarrow> (string \<times> string list) option action" where
  "find_leg_st set_order self movement_type points i used_segments last_node =
     bnd (read_self self) (\<lambda>a.
     bnd (lift (if movement_type = DEPARTURE \<and> points ! (i + 1) = last points
                then (case runway_config a of
                        Inl e \<Rightarrow> Inl e
                      | Inr rc \<Rightarrow> find_entry (points ! (i + 1)) (entrances rc))
                else Inr None)) (\<lambda>enforce_node.
     bnd (get_segment_nodes_st self movement_type points (points ! (i + 1)) enforce_node)
       (\<lambda>target_nodes.
     bnd (dijkstra_multi_target_st self [last_node] target_nodes used_segments
            {points ! i, points ! (i + 1)}) (\<lambda>distances.
     bnd (read_self self) (\<lambda>a.
     bnd (load_distances distances) (\<lambda>d.
     bnd (load_set target_nodes) (\<lambda>targets.
     bnd (lift (select_best a {points ! i, points ! (i + 1)} d (set_iter set_order targets)
                  (PInf, None))) (\<lambda>best.
     ret (snd best)))))))))"

text \<open>
  The loop that appends the segments of a leg, the main loop, the closing segment, and the
  method: its result is the address of the new \<open>TaxiPath\<close>, or \<open>None\<close>.
\<close>

definition add_path_segments_st :: "addr \<Rightarrow> string list \<Rightarrow> addr \<Rightarrow> addr \<Rightarrow> unit action" where
  "add_path_segments_st self best_path path used_segments =
     for_each best_path (\<lambda>sid.
       bnd (read_self self) (\<lambda>a.
         case find_segment a sid of
           None \<Rightarrow> throw StopIteration
         | Some segment \<Rightarrow>
             bnd (add_segment_st path sid (length' segment)) (\<lambda>_.
             set_add_st used_segments sid)))"

function route_loop_st ::
  "(string list \<Rightarrow> string list) \<Rightarrow> addr \<Rightarrow> MovementType \<Rightarrow> string list \<Rightarrow> nat \<Rightarrow>
   addr \<Rightarrow> addr \<Rightarrow> string \<Rightarrow> string option action" where
  "route_loop_st set_order self movement_type points i path used_segments last_node s =
     (if i < length points - 1
      then (case find_leg_st set_order self movement_type points i used_segments last_node s of
              None \<Rightarrow> None
            | Some (Inl e, s') \<Rightarrow> Some (Inl e, s')
            | Some (Inr None, s') \<Rightarrow> Some (Inr None, s')
            | Some (Inr (Some (best_target, best_path)), s') \<Rightarrow>
                (case add_path_segments_st self best_path path used_segments s' of
                   None \<Rightarrow> None
                 | Some (Inl e, s'') \<Rightarrow> Some (Inl e, s'')
                 | Some (Inr _, s'') \<Rightarrow>
                     route_loop_st set_order self movement_type points (i + 1) path
                       used_segments best_target s''))
      else Some (Inr (Some last_node), s))"
  by pat_completeness auto
termination
  by (relation "measure (\<lambda>(so, self, mt, points, i, rest). length points - 1 - i)") auto

definition add_closing_st ::
  "addr \<Rightarrow> MovementType \<Rightarrow> string list \<Rightarrow> addr \<Rightarrow> string \<Rightarrow> unit action" where
  "add_closing_st self movement_type points path last_node =
     bnd (read_self self) (\<lambda>a.
     bnd (lift (closing_node a movement_type points)) (\<lambda>pinned.
     bnd (read_self self) (\<lambda>a.
       case closing_segment a points pinned last_node of
         None \<Rightarrow> ret ()
       | Some last_seg \<Rightarrow>
           add_segment_st path (segment_id last_seg) (length' last_seg))))"

definition find_path_st ::
  "(string list \<Rightarrow> string list) \<Rightarrow> addr \<Rightarrow> string list \<Rightarrow> MovementType \<Rightarrow>
   addr option action" where
  "find_path_st set_order self points movement_type =
     bnd (read_self self) (\<lambda>a.
     bnd (lift (validate_movement a movement_type points)) (\<lambda>valid.
       if \<not> valid then ret None
       else
         bnd (alloc (PathObj TaxiPath_init)) (\<lambda>path.
         bnd (alloc (SetObj [])) (\<lambda>used_segments.
         bnd (read_self self) (\<lambda>a.
           case segs_named a (hd points) of
             [] \<Rightarrow> ret None
           | seg0 # rest \<Rightarrow>
               (case first_leg a movement_type points seg0 rest of
                  (first_segment, first_node, gate_node) \<Rightarrow>
                    bnd (add_segment_st path (segment_id first_segment)
                           (length' first_segment)) (\<lambda>_.
                    bnd (if movement_type = DEPARTURE \<and> Some first_node = gate_node
                         then ret ()
                         else set_add_st used_segments (segment_id first_segment)) (\<lambda>_.
                    bnd (route_loop_st set_order self movement_type points 0 path
                           used_segments first_node) (\<lambda>reached.
                      case reached of
                        None \<Rightarrow> ret None
                      | Some last_node \<Rightarrow>
                          bnd (add_closing_st self movement_type points path last_node)
                            (\<lambda>_. ret (Some path)))))))))))"

section \<open>The indexer (\<open>AirportProcessor\<close>)\<close>

subsection \<open>Data model of the indexer\<close>

text \<open>
  Coordinates are pairs of real numbers.  The dictionaries \<open>self.nodes\<close>, \<open>self.segments\<close>,
  \<open>self.gates\<close> and \<open>unique_points\<close> are iterated, so they are lists of (key, value) in
  insertion order; assigning to a key that is present replaces its value in place.
\<close>

type_synonym point = "real \<times> real"

record GateInfo =
  gi_gate_id :: string
  gi_heading :: real
  gi_segment_id :: string

record Node =
  n_node_id :: string
  n_coordinates :: point
  n_connected_segments :: "string list"
  n_node_type :: string
  n_gate_info :: "GateInfo option"

record Segment =
  s_segment_id :: string
  s_start_node :: string
  s_end_node :: string
  s_geometry :: "point list"
  s_segment_type :: string
  s_name :: string
  s_length :: real
  s_heading :: real

record GateEntry =
  ge_node_id :: string
  ge_coordinates :: point
  ge_heading :: real
  ge_segment_id :: string

fun dict_get :: "('k \<times> 'v) list \<Rightarrow> 'k \<Rightarrow> 'v option" where
  "dict_get [] k = None"
| "dict_get ((k', v) # d) k = (if k' = k then Some v else dict_get d k)"

fun dict_set :: "('k \<times> 'v) list \<Rightarrow> 'k \<Rightarrow> 'v \<Rightarrow> ('k \<times> 'v) list" where
  "dict_set [] k v = [(k, v)]"
| "dict_set ((k', v') # d) k v = (if k' = k then (k, v) # d else (k', v') # dict_set d k v)"

subsection \<open>Node creation (\<open>_create_network\<close>, \<open>_round_point\<close>)\<close>

text \<open>
  \<open>round(x, 7)\<close> rounds to the nearest multiple of \<open>10\<^sup>-\<^sup>7\<close>, a tie to the even one.
\<close>

definition round_half_even :: "real \<Rightarrow> int" where
  "round_half_even x =
     (if x - of_int \<lfloor>x\<rfloor> < 1 / 2 then \<lfloor>x\<rfloor>
      else if x - of_int \<lfloor>x\<rfloor> > 1 / 2 then \<lfloor>x\<rfloor> + 1
      else if even \<lfloor>x\<rfloor> then \<lfloor>x\<rfloor> else \<lfloor>x\<rfloor> + 1)"

definition py_round :: "real \<Rightarrow> nat \<Rightarrow> real" where
  "py_round x precision = of_int (round_half_even (x * 10 ^ precision)) / 10 ^ precision"

definition round_point :: "point \<Rightarrow> point" where
  "round_point pt = (py_round (fst pt) 7, py_round (snd pt) 7)"

text \<open>The format \<open>f"N{k:05d}"\<close>: the decimal digits of \<open>k\<close>, padded with zeros to five.\<close>

definition digit_char :: "nat \<Rightarrow> char" where
  "digit_char d = ''0123456789'' ! d"

fun decimal :: "nat \<Rightarrow> string" where
  "decimal n = (if n < 10 then [digit_char n] else decimal (n div 10) @ [digit_char (n mod 10)])"

declare decimal.simps [simp del]

definition fmt05 :: "nat \<Rightarrow> string" where
  "fmt05 k = replicate (5 - length (decimal k)) CHR ''0'' @ decimal k"

definition new_node :: "nat \<Rightarrow> point \<Rightarrow> Node" where
  "new_node k key =
     \<lparr>n_node_id = ''N'' @ fmt05 k, n_coordinates = key, n_connected_segments = [],
      n_node_type = ''intersection'', n_gate_info = None\<rparr>"

text \<open>The loop over the candidate points; the state is \<open>(unique_points, self.nodes)\<close>.\<close>

fun create_nodes ::
  "point list \<Rightarrow> (point \<times> Node) list \<times> (string \<times> Node) list \<Rightarrow>
   (point \<times> Node) list \<times> (string \<times> Node) list" where
  "create_nodes [] st = st"
| "create_nodes (pt # pts) (unique_points, nodes) =
     (if dict_get unique_points (round_point pt) = None
      then create_nodes pts
             (dict_set unique_points (round_point pt)
                (new_node (length unique_points) (round_point pt)),
              dict_set nodes (''N'' @ fmt05 (length unique_points))
                (new_node (length unique_points) (round_point pt)))
      else create_nodes pts (unique_points, nodes))"

text \<open>
  The candidate points of \<open>_create_network\<close>: the two endpoints of every line, in the order
  of the lines, then the point crossings of the pairs of lines.  The crossings are computed by
  the geometry library and are a parameter here.  A line is the non-empty list of its
  coordinates.
\<close>

definition candidate_points :: "point list list \<Rightarrow> point list \<Rightarrow> point list" where
  "candidate_points lines crossings = concat (map (\<lambda>l. [hd l, last l]) lines) @ crossings"

definition create_network_nodes ::
  "point list list \<Rightarrow> point list \<Rightarrow> (point \<times> Node) list \<times> (string \<times> Node) list" where
  "create_network_nodes lines crossings =
     create_nodes (candidate_points lines crossings) ([], [])"

subsection \<open>Classification (\<open>_identify_special_nodes\<close>)\<close>

record Processor =
  nodes :: "(string \<times> Node) list"
  segments_d :: "(string \<times> Segment) list"
  gates :: "(string \<times> GateEntry) list"
  parking_exit_names :: "string option list"

definition runway_points :: "string set" where
  "runway_points =
     {''W34'', ''W35'', ''W36'', ''W37'', ''W4'', ''W41'', ''W42'', ''W43'', ''W44''}"

text \<open>\<open>self.nodes[node_id].node_type = t\<close>, when \<open>ok\<close> holds of the node's current type;
  \<open>KeyError\<close> when the node is missing.\<close>

definition set_node_type ::
  "(string \<times> Node) list \<Rightarrow> string \<Rightarrow> (string \<Rightarrow> bool) \<Rightarrow> string \<Rightarrow>
   py_error + (string \<times> Node) list" where
  "set_node_type ns nid ok t =
     (case dict_get ns nid of
        None \<Rightarrow> Inl KeyError
      | Some n \<Rightarrow>
          if ok (n_node_type n) then Inr (dict_set ns nid (n\<lparr>n_node_type := t\<rparr>)) else Inr ns)"

fun mark_nodes ::
  "(string \<Rightarrow> bool) \<Rightarrow> (string \<Rightarrow> bool) \<Rightarrow> string \<Rightarrow> Segment list \<Rightarrow> (string \<times> Node) list \<Rightarrow>
   py_error + (string \<times> Node) list" where
  "mark_nodes sel ok t [] ns = Inr ns"
| "mark_nodes sel ok t (segment # segs) ns =
     (if sel (s_name segment)
      then (case set_node_type ns (s_start_node segment) ok t of
              Inl e \<Rightarrow> Inl e
            | Inr ns1 \<Rightarrow>
                (case set_node_type ns1 (s_end_node segment) ok t of
                   Inl e \<Rightarrow> Inl e
                 | Inr ns2 \<Rightarrow> mark_nodes sel ok t segs ns2))
      else mark_nodes sel ok t segs ns)"

text \<open>The names collected from \<open>parking_positions\<close>: every \<open>exit_taxiway\<close> that is present
  and not empty.\<close>

definition parking_exits :: "string option list \<Rightarrow> string set" where
  "parking_exits xs = {n. Some n \<in> set xs \<and> n \<noteq> []}"

definition gate_info_of :: "Segment \<Rightarrow> GateInfo" where
  "gate_info_of segment =
     \<lparr>gi_gate_id = s_name segment, gi_heading = s_heading segment,
      gi_segment_id = s_segment_id segment\<rparr>"

definition gate_entry_of :: "Node \<Rightarrow> Segment \<Rightarrow> GateEntry" where
  "gate_entry_of node segment =
     \<lparr>ge_node_id = n_node_id node, ge_coordinates = n_coordinates node,
      ge_heading = s_heading segment, ge_segment_id = s_segment_id segment\<rparr>"

text \<open>The third pass, over \<open>self.nodes.values()\<close>: the nodes already visited (updated) and
  the gate index are the state.\<close>

fun find_gates ::
  "(string \<times> Segment) list \<Rightarrow> (string \<times> Node) list \<Rightarrow>
   (string \<times> Node) list \<times> (string \<times> GateEntry) list \<Rightarrow>
   py_error + (string \<times> Node) list \<times> (string \<times> GateEntry) list" where
  "find_gates segs [] st = Inr st"
| "find_gates segs ((k, node) # rest) (done, gs) =
     (case n_connected_segments node of
        [sid] \<Rightarrow>
          (case dict_get segs sid of
             None \<Rightarrow> Inl KeyError
           | Some segment \<Rightarrow>
               if s_segment_type segment = ''parking_position''
               then find_gates segs rest
                      (done @ [(k, node\<lparr>n_node_type := ''gate'',
                                       n_gate_info := Some (gate_info_of segment)\<rparr>)],
                       dict_set gs (s_name segment) (gate_entry_of node segment))
               else find_gates segs rest (done @ [(k, node)], gs))
      | _ \<Rightarrow> find_gates segs rest (done @ [(k, node)], gs))"

definition identify_special_nodes :: "Processor \<Rightarrow> py_error + Processor" where
  "identify_special_nodes st =
     (case mark_nodes (\<lambda>n. n \<in> runway_points) (\<lambda>_. True) ''runway_exit''
             (map snd (segments_d st)) (nodes st) of
        Inl e \<Rightarrow> Inl e
      | Inr ns1 \<Rightarrow>
          (case mark_nodes (\<lambda>n. n \<in> parking_exits (parking_exit_names st))
                  (\<lambda>t. t = ''intersection'') ''parking_exit'' (map snd (segments_d st)) ns1 of
             Inl e \<Rightarrow> Inl e
           | Inr ns2 \<Rightarrow>
               (case find_gates (segments_d st) ns2 ([], gates st) of
                  Inl e \<Rightarrow> Inl e
                | Inr (ns3, gs) \<Rightarrow> Inr (st\<lparr>nodes := ns3, gates := gs\<rparr>))))"

subsection \<open>Export (\<open>_create_segments\<close>' names, \<open>export_network\<close>, \<open>export_config\<close>)\<close>

text \<open>The name and type \<open>_create_segments\<close> gives a segment: the feature's \<open>ref\<close> and
  \<open>aeroway\<close> tags, with defaults when a tag is missing.\<close>

definition segment_name_of :: "string option \<Rightarrow> string" where
  "segment_name_of ref = (case ref of None \<Rightarrow> [] | Some r \<Rightarrow> r)"

definition segment_type_of :: "string option \<Rightarrow> string" where
  "segment_type_of aeroway = (case aeroway of None \<Rightarrow> ''unknown'' | Some t \<Rightarrow> t)"

text \<open>The \<open>LineString\<close> feature \<open>export_network\<close> writes for a segment, and the whole file:
  the segments' features, then one \<open>Point\<close> feature per node.\<close>

definition export_segment :: "Segment \<Rightarrow> Feature" where
  "export_segment segment =
     LineString \<lparr>p_segment_id = s_segment_id segment, p_name = Some (s_name segment),
                 p_start_node = s_start_node segment, p_end_node = s_end_node segment,
                 p_length = s_length segment,
                 p_segment_type = Some (s_segment_type segment)\<rparr>"

definition export_network :: "Processor \<Rightarrow> Feature list" where
  "export_network st =
     map (\<lambda>kv. export_segment (snd kv)) (segments_d st) @ map (\<lambda>_. OtherGeometry) (nodes st)"

text \<open>
  \<open>export_config\<close>: the gates grouped by terminal (the gate id without its digits), each
  group sorted by gate id, and the two hand-written runway configurations, whose
  \<open>entrances\<close> and \<open>exits\<close> are lists of names.
\<close>

definition is_digit :: "char \<Rightarrow> bool" where
  "is_digit c = (CHR ''0'' \<le> c \<and> c \<le> CHR ''9'')"

definition terminal_of :: "string \<Rightarrow> string" where
  "terminal_of gid = filter (\<lambda>c. \<not> is_digit c) gid"

definition exported_gate :: "string \<Rightarrow> GateEntry \<Rightarrow> Gate" where
  "exported_gate gid info = \<lparr>gate_id = gid, node_id = ge_node_id info\<rparr>"

fun group_terminals ::
  "(string \<times> GateEntry) list \<Rightarrow> (string \<times> Gate list) list \<Rightarrow> (string \<times> Gate list) list" where
  "group_terminals [] ts = ts"
| "group_terminals ((gid, info) # gs) ts =
     group_terminals gs
       (dict_set ts (terminal_of gid)
          ((case dict_get ts (terminal_of gid) of None \<Rightarrow> [] | Some l \<Rightarrow> l)
           @ [exported_gate gid info]))"

definition runway_configs :: "string \<rightharpoonup> RunwayConfig" where
  "runway_configs =
     [''WEST'' \<mapsto> \<lparr>entrances = [Bare ''W41'', Bare ''W42''],
                   exits = [Bare ''W34'', Bare ''W35'', Bare ''W4'', Bare ''W36'', Bare ''W37'']\<rparr>,
      ''EAST'' \<mapsto> \<lparr>entrances = [Bare ''W37'', Bare ''W36''],
                   exits = [Bare ''W44'', Bare ''W43'', Bare ''W42'', Bare ''W41'']\<rparr>]"

definition export_config :: "Processor \<Rightarrow> Config" where
  "export_config st =
     \<lparr>terminals = map (\<lambda>t. (fst t, sort_key gate_id (snd t))) (group_terminals (gates st) []),
      runway_configurations = runway_configs\<rparr>"

section \<open>Properties\<close>

subsection \<open>Vocabulary of the claims about the router\<close>

text \<open>A configuration in the shape the router reads: every element of \<open>entrances\<close> and
  \<open>exits\<close> is a pair \<open>[name, node_id]\<close>.\<close>

definition pair_entry :: "string \<times> string \<Rightarrow> rw_entry" where
  "pair_entry p = Listed [fst p, snd p]"

text \<open>The waypoint that has to be a gate: the last one of an arrival, the first one of a
  departure.\<close>

definition gate_waypoint :: "MovementType \<Rightarrow> string list \<Rightarrow> string" where
  "gate_waypoint movement_type points =
     (case movement_type of ARRIVAL \<Rightarrow> last points | DEPARTURE \<Rightarrow> hd points)"

subsection \<open>Example networks\<close>

text \<open>
  A gate stub \<open>K24\<close> (\<open>G0\<close> -- \<open>A0\<close>), a taxiway \<open>W2\<close> (\<open>A0\<close> -- \<open>B0\<close>) and the
  runway entry \<open>W37\<close> (\<open>B0\<close> -- \<open>E0\<close>), as three \<open>LineString\<close> features.  The
  configuration \<open>EAST\<close> lists the entrances \<open>W37\<close> with node \<open>E0\<close> and \<open>W36\<close> with
  node \<open>B0\<close> (no segment is named \<open>W36\<close>), and the exit \<open>W42\<close>.
\<close>

definition line ::
  "string \<Rightarrow> string \<Rightarrow> string \<Rightarrow> string \<Rightarrow> real \<Rightarrow> string \<Rightarrow> Feature" where
  "line sid n s e l t =
     LineString \<lparr>p_segment_id = sid, p_name = Some n, p_start_node = s, p_end_node = e,
                 p_length = l, p_segment_type = Some t\<rparr>"

definition stub_features :: "Feature list" where
  "stub_features =
     [line ''S0'' ''K24'' ''G0'' ''A0'' 10 ''parking_position'',
      line ''S1'' ''W2'' ''A0'' ''B0'' 100 ''taxiway'',
      line ''S2'' ''W37'' ''B0'' ''E0'' 50 ''taxiway'']"

definition stub_runways :: RunwayConfig where
  "stub_runways =
     \<lparr>entrances = [Listed [''W37'', ''E0''], Listed [''W36'', ''B0'']],
      exits = [Listed [''W42'', ''B0'']]\<rparr>"

definition stub_config :: Config where
  "stub_config =
     \<lparr>terminals = [(''K'', [\<lparr>gate_id = ''K24'', node_id = ''G0''\<rparr>])],
      runway_configurations = [''EAST'' \<mapsto> stub_runways]\<rparr>"

definition stub_airport :: Airport where
  "stub_airport = load_data stub_config stub_features ''EAST''"

definition seg ::
  "string \<Rightarrow> string \<Rightarrow> string \<Rightarrow> string \<Rightarrow> real \<Rightarrow> string \<Rightarrow> TaxiSegment" where
  "seg sid n s e l t =
     \<lparr>segment_id = sid, name = n, start_node = s, end_node = e, length' = l,
      segment_type = t\<rparr>"

text \<open>
  A fork: from the gate stub \<open>K1\<close> (\<open>G\<close> -- \<open>A\<close>) the taxiway \<open>W1\<close> leaves \<open>A\<close> in two
  branches of equal length, to \<open>C\<close> and to \<open>D\<close>; the taxiway \<open>W2\<close> joins both to \<open>E\<close>,
  where the runway entry \<open>W9\<close> starts.
\<close>

definition fork_features :: "Feature list" where
  "fork_features =
     [line ''S0'' ''K1'' ''G'' ''A'' 10 ''parking_position'',
      line ''S1'' ''W1'' ''A'' ''C'' 5 ''taxiway'',
      line ''S2'' ''W1'' ''A'' ''D'' 5 ''taxiway'',
      line ''S3'' ''W2'' ''C'' ''E'' 7 ''taxiway'',
      line ''S4'' ''W2'' ''D'' ''E'' 7 ''taxiway'',
      line ''S5'' ''W9'' ''E'' ''R'' 3 ''taxiway'']"

definition fork_config :: Config where
  "fork_config =
     \<lparr>terminals = [(''K'', [\<lparr>gate_id = ''K1'', node_id = ''G''\<rparr>])],
      runway_configurations =
        [''EAST'' \<mapsto> \<lparr>entrances = [Listed [''W9'', ''E'']], exits = []\<rparr>]\<rparr>"

definition fork_airport :: Airport where
  "fork_airport = load_data fork_config fork_features ''EAST''"

definition fork_points :: "string list" where
  "fork_points = [''K1'', ''W1'', ''W2'', ''W9'']"

text \<open>
  A segment the indexer made from a feature without a \<open>ref\<close> tag, so with the empty name;
  the feature \<open>export_network\<close> writes for it; and the stub network's file with that feature
  added.
\<close>

definition unnamed_link :: Segment where
  "unnamed_link =
     \<lparr>s_segment_id = ''S3'', s_start_node = ''B0'', s_end_node = ''X0'', s_geometry = [],
      s_segment_type = segment_type_of (Some ''taxiway''), s_name = segment_name_of None,
      s_length = 30, s_heading = 0\<rparr>"

definition unnamed_props :: LineProps where
  "unnamed_props =
     \<lparr>p_segment_id = ''S3'', p_name = Some [], p_start_node = ''B0'', p_end_node = ''X0'',
      p_length = 30, p_segment_type = Some ''taxiway''\<rparr>"

definition stub_features_unnamed :: "Feature list" where
  "stub_features_unnamed = stub_features @ [export_segment unnamed_link]"

text \<open>
  Three lines.  The first ends at \<open>(1, 0)\<close>; the second starts at \<open>(1.00000004, 0)\<close>,
  another point with the same coordinates after rounding; the third starts at
  \<open>(1.0000001, 1/256)\<close>, one unit of the seventh digit away.  \<open>1/256\<close> and \<open>3/256\<close>
  are ties: \<open>39062.5\<close> and \<open>117187.5\<close> units of the seventh digit.
\<close>

definition near_one :: point where
  "near_one = (1 + 4 / 10 ^ 8, 0)"

definition next_to_one :: point where
  "next_to_one = (1 + 1 / 10 ^ 7, 1 / 256)"

definition far_end :: point where
  "far_end = (3, 3 / 256)"

definition near_lines :: "point list list" where
  "near_lines = [[(0, 0), (1, 0)], [near_one, (2, 0)], [next_to_one, far_end]]"

text \<open>
  A parking-position line that touches no other line: one segment \<open>S00000\<close> named
  \<open>K24\<close> between the nodes \<open>N00000\<close> and \<open>N00001\<close>, each of which has it as its only
  segment; and the state after classification.
\<close>

definition stand_segment :: Segment where
  "stand_segment =
     \<lparr>s_segment_id = ''S00000'', s_start_node = ''N00000'', s_end_node = ''N00001'',
      s_geometry = [(0, 0), (1, 0)], s_segment_type = ''parking_position'', s_name = ''K24'',
      s_length = 40, s_heading = 0\<rparr>"

definition stand_node :: "nat \<Rightarrow> point \<Rightarrow> Node" where
  "stand_node k pt = (new_node k pt)\<lparr>n_connected_segments := [''S00000'']\<rparr>"

definition lone_stand :: Processor where
  "lone_stand =
     \<lparr>nodes = [(''N00000'', stand_node 0 (0, 0)), (''N00001'', stand_node 1 (1, 0))],
      segments_d = [(''S00000'', stand_segment)],
      gates = [], parking_exit_names = []\<rparr>"

definition lone_stand_classified :: Processor where
  "lone_stand_classified =
     lone_stand
       \<lparr>nodes := [(''N00000'', (stand_node 0 (0, 0))
                       \<lparr>n_node_type := ''gate'', n_gate_info := Some (gate_info_of stand_segment)\<rparr>),
                  (''N00001'', (stand_node 1 (1, 0))
                       \<lparr>n_node_type := ''gate'', n_gate_info := Some (gate_info_of stand_segment)\<rparr>)],
        gates := [(''K24'', gate_entry_of (stand_node 1 (1, 0)) stand_segment)]\<rparr>"

subsection \<open>Vocabulary of the claim about the heap\<close>

text \<open>
  A heap that holds one \<open>Airport\<close> object (at address 4) and its four containers and
  nothing else; the \<open>Airport\<close> a heap holds at an address, if it holds one;
  \<open>unchanged_below w\<close>: every address below \<open>w\<close> holds after what it held before;
  \<open>local_only w\<close>: a computation that, started on a heap of at least \<open>w\<close> objects, leaves
  the first \<open>w\<close> as they were.
\<close>

definition airport_heap :: "Airport \<Rightarrow> heap_state" where
  "airport_heap a =
     [ConfigObj (config a), IndexObj (segments_by_name a), SegmentsObj (all_segments a),
      GraphObj (graph a), AirportObj 0 1 2 3 (airport_config a)]"

definition airport_at :: "heap_state \<Rightarrow> addr \<Rightarrow> Airport option" where
  "airport_at s self = (case read_self self s of Some (Inr a, _) \<Rightarrow> Some a | _ \<Rightarrow> None)"

definition unchanged_below :: "nat \<Rightarrow> heap_state \<Rightarrow> heap_state \<Rightarrow> bool" where
  "unchanged_below w s s' \<longleftrightarrow> length s \<le> length s' \<and> (\<forall>p<w. s' ! p = s ! p)"

definition local_only :: "nat \<Rightarrow> 'a action \<Rightarrow> bool" where
  "local_only w m \<longleftrightarrow>
     (\<forall>s r s'. w \<le> length s \<longrightarrow> m s = Some (r, s') \<longrightarrow> unchanged_below w s s')"

subsection \<open>Vocabulary of the claims about loading and indexing\<close>

text \<open>What \<open>_load_data\<close> keeps of a feature list: the segments of the \<open>LineString\<close>
  features that have a non-empty name; the name index and the adjacency they induce.\<close>

fun line_props :: "Feature \<Rightarrow> LineProps list" where
  "line_props (LineString props) = [props]"
| "line_props OtherGeometry = []"

definition named_segments :: "Feature list \<Rightarrow> TaxiSegment list" where
  "named_segments fs = map make_segment (filter named (concat (map line_props fs)))"

definition index_by_name :: "TaxiSegment list \<Rightarrow> string \<Rightarrow> TaxiSegment list option" where
  "index_by_name segs n =
     (if filter (\<lambda>s. name s = n) segs = [] then None else Some (filter (\<lambda>s. name s = n) segs))"

definition edges_at :: "TaxiSegment list \<Rightarrow> string \<Rightarrow> adjacency" where
  "edges_at segs n =
     concat (map (\<lambda>s. (if start_node s = n then [(end_node s, segment_id s, length' s)] else []) @
                      (if end_node s = n then [(start_node s, segment_id s, length' s)] else []))
               segs)"

definition adjacency_of :: "TaxiSegment list \<Rightarrow> string \<Rightarrow> adjacency option" where
  "adjacency_of segs n =
     (if list_ex (touches n) segs then Some (edges_at segs n) else None)"

text \<open>
  Rounding to seven decimal digits, said without the code: \<open>k\<close> is an integer nearest to
  \<open>x\<close>, the even one of the two when \<open>x\<close> lies half-way between two integers; \<open>r\<close> is
  \<open>x\<close> rounded to seven digits when \<open>r\<close> is \<open>k\<close> units of the seventh digit for such a
  \<open>k\<close> of \<open>x\<close> times \<open>10\<^sup>7\<close>.
\<close>

definition nearest_even :: "real \<Rightarrow> int \<Rightarrow> bool" where
  "nearest_even x k \<longleftrightarrow> \<bar>of_int k - x\<bar> \<le> 1 / 2 \<and> (\<bar>of_int k - x\<bar> = 1 / 2 \<longrightarrow> even k)"

definition rounded_to_7_digits :: "real \<Rightarrow> real \<Rightarrow> bool" where
  "rounded_to_7_digits x r \<longleftrightarrow> (\<exists>k. nearest_even (x * 10 ^ 7) k \<and> r = of_int k / 10 ^ 7)"

text \<open>The value of a string of decimal digits; the candidate keys in the order of their
  first occurrence; the nodes numbered in that order, and their dictionary by id.\<close>

definition digit_val :: "char \<Rightarrow> nat" where
  "digit_val c = of_char c - 48"

definition decimal_value :: "string \<Rightarrow> nat" where
  "decimal_value ds = foldl (\<lambda>acc c. 10 * acc + digit_val c) 0 ds"

definition first_occurrences :: "'a list \<Rightarrow> 'a list \<Rightarrow> 'a list" where
  "first_occurrences seen xs = fold (\<lambda>x acc. if x \<in> set acc then acc else acc @ [x]) xs seen"

definition node_ids :: "nat \<Rightarrow> string list" where
  "node_ids n = map (\<lambda>i. ''N'' @ fmt05 i) [0..<n]"

definition numbered :: "point list \<Rightarrow> (point \<times> Node) list" where
  "numbered keys = map (\<lambda>i. (keys ! i, new_node i (keys ! i))) [0..<length keys]"

definition by_id :: "(point \<times> Node) list \<Rightarrow> (string \<times> Node) list" where
  "by_id up = map (\<lambda>kn. (n_node_id (snd kn), snd kn)) up"

text \<open>
  The segment that makes a node a gate: the node has exactly one incident segment and that
  segment is a parking position.  \<open>retyped\<close> relates a dictionary entry to the same entry
  with another role; \<open>as_gate\<close> and \<open>register\<close> are the two effects of the third pass on
  one node.
\<close>

definition gate_segment :: "(string \<times> Segment) list \<Rightarrow> Node \<Rightarrow> Segment option" where
  "gate_segment segs node =
     (case n_connected_segments node of
        [sid] \<Rightarrow>
          (case dict_get segs sid of
             None \<Rightarrow> None
           | Some segment \<Rightarrow>
               if s_segment_type segment = ''parking_position'' then Some segment else None)
      | _ \<Rightarrow> None)"

definition retyped :: "string \<times> Node \<Rightarrow> string \<times> Node \<Rightarrow> bool" where
  "retyped kn kn' = (fst kn' = fst kn \<and> (\<exists>ty. snd kn' = (snd kn)\<lparr>n_node_type := ty\<rparr>))"

definition as_gate :: "(string \<times> Segment) list \<Rightarrow> string \<times> Node \<Rightarrow> string \<times> Node" where
  "as_gate segs kn =
     (case gate_segment segs (snd kn) of
        None \<Rightarrow> kn
      | Some segment \<Rightarrow>
          (fst kn, (snd kn)\<lparr>n_node_type := ''gate'',
                            n_gate_info := Some (gate_info_of segment)\<rparr>))"

definition register :: "(string \<times> Segment) list \<Rightarrow> string \<times> Node \<Rightarrow>
    (string \<times> GateEntry) list \<Rightarrow> (string \<times> GateEntry) list" where
  "register segs kn gs =
     (case gate_segment segs (snd kn) of
        None \<Rightarrow> gs
      | Some segment \<Rightarrow> dict_set gs (s_name segment) (gate_entry_of (snd kn) segment))"

subsection \<open>Validation: lemmas\<close>

lemma find_entry_pairs: "find_entry w (map pair_entry xs) = Inr (map_of xs w)"
  by (induction xs) (auto simp: pair_entry_def)

lemma find_entry_pairs_None:
  "w \<notin> fst ` set xs \<Longrightarrow> find_entry w (map pair_entry xs) = Inr None"
  by (simp add: find_entry_pairs map_of_eq_None_iff)

lemma gate_found_iff:
  "gate_found a w \<longleftrightarrow> (\<exists>t \<in> set (terminals (config a)). \<exists>g \<in> set (snd t). gate_id g = w)"
  by (simp add: gate_found_def list_ex_iff)

lemma find_path_invalid:
  "validate_movement a mt points = Inr False \<Longrightarrow> find_path so a points mt = Some (Inr None)"
  by (simp add: find_path_def route_legs_def)

lemma validate_short: "length points < 2 \<Longrightarrow> validate_movement a mt points = Inr False"
  by (simp add: validate_movement_def)

lemma validate_departure_gate:
  "\<not> gate_found a (hd points) \<Longrightarrow> validate_movement a DEPARTURE points = Inr False"
  by (simp add: validate_movement_def)

lemma validate_arrival_exit:
  assumes "runway_configurations (config a) (airport_config a) = Some rc"
    and "exits rc = map pair_entry xs" and "hd points \<notin> fst ` set xs"
  shows "validate_movement a ARRIVAL points = Inr False"
  using assms by (simp add: validate_movement_def runway_config_def find_entry_pairs_None)

lemma validate_arrival_gate:
  assumes "runway_configurations (config a) (airport_config a) = Some rc"
    and "exits rc = map pair_entry xs" and "\<not> gate_found a (last points)"
  shows "validate_movement a ARRIVAL points = Inr False"
  using assms
  by (simp add: validate_movement_def runway_config_def find_entry_pairs split: option.splits)

lemma validate_departure_entrance:
  assumes "runway_configurations (config a) (airport_config a) = Some rc"
    and "entrances rc = map pair_entry es" and "last points \<notin> fst ` set es"
  shows "validate_movement a DEPARTURE points = Inr False"
  using assms by (simp add: validate_movement_def runway_config_def find_entry_pairs_None)

lemma stub_config_simps:
  "config stub_airport = stub_config" "airport_config stub_airport = ''EAST''"
  "runway_configurations stub_config ''EAST'' = Some stub_runways"
  "exits stub_runways = map pair_entry [(''W42'', ''B0'')]"
  "entrances stub_runways = map pair_entry [(''W37'', ''E0''), (''W36'', ''B0'')]"
  "terminals stub_config = [(''K'', [\<lparr>gate_id = ''K24'', node_id = ''G0''\<rparr>])]"
  by (simp_all add: stub_airport_def load_data_def stub_config_def stub_runways_def
      pair_entry_def split: prod.splits)

lemma decimal_digit: "n < 10 \<Longrightarrow> decimal n = [digit_char n]"
  by (subst decimal.simps) simp

lemma fmt05_small:
  "fmt05 0 = ''00000''" "fmt05 (Suc 0) = ''00001''" "fmt05 (Suc (Suc 0)) = ''00002''"
  "fmt05 (Suc (Suc (Suc 0))) = ''00003''" "fmt05 (Suc (Suc (Suc (Suc 0)))) = ''00004''"
  by (simp_all add: fmt05_def decimal_digit digit_char_def numeral_eq_Suc)

subsection \<open>C2: the validation gate\<close>

text \<open>
  The gate on a configuration that lists pairs.  \<open>find_path\<close> returns no result, at
  validation and so before any search, when the waypoint sequence has fewer than two names;
  when the gate waypoint of a departure (its first waypoint) is no gate id of any terminal;
  and, for a configuration whose active runway configuration exists and lists its exits and
  entrances as (name, node id) pairs, when the first waypoint of an arrival is not a listed
  exit name, when the gate waypoint of an arrival (its last waypoint) is no gate id of any
  terminal, or when the last waypoint of a departure is not a listed entrance name.
\<close>

lemma gate_on_pairs:
  fixes a :: Airport and set_order :: "string list \<Rightarrow> string list"
  defines "no_gate w \<equiv>
    \<not> (\<exists>t \<in> set (terminals (config a)). \<exists>g \<in> set (snd t). gate_id g = w)"
  defines "rejected points mt \<equiv>
    validate_movement a mt points = Inr False \<and>
    find_path set_order a points mt = Some (Inr None)"
  shows "(length points < 2 \<longrightarrow> rejected points mt) \<and>
    (no_gate (gate_waypoint DEPARTURE points) \<longrightarrow> rejected points DEPARTURE) \<and>
    (runway_configurations (config a) (airport_config a) = Some rc \<longrightarrow>
       exits rc = map pair_entry xs \<longrightarrow>
       hd points \<notin> fst ` set xs \<or> no_gate (gate_waypoint ARRIVAL points) \<longrightarrow>
       rejected points ARRIVAL) \<and>
    (runway_configurations (config a) (airport_config a) = Some rc \<longrightarrow>
       entrances rc = map pair_entry es \<longrightarrow>
       last points \<notin> fst ` set es \<longrightarrow>
       rejected points DEPARTURE)"
proof -
  have short: "length points < 2 \<Longrightarrow> rejected points mt"
    unfolding rejected_def by (simp add: validate_short find_path_invalid)
  have dep_gate: "no_gate (gate_waypoint DEPARTURE points) \<Longrightarrow> rejected points DEPARTURE"
    unfolding rejected_def no_gate_def gate_waypoint_def
    by (simp add: gate_found_iff [symmetric] validate_departure_gate find_path_invalid)
  have arr: "rejected points ARRIVAL"
    if "runway_configurations (config a) (airport_config a) = Some rc"
      and "exits rc = map pair_entry xs"
      and "hd points \<notin> fst ` set xs \<or> no_gate (gate_waypoint ARRIVAL points)"
  proof -
    from that(3) have "validate_movement a ARRIVAL points = Inr False"
    proof
      assume "hd points \<notin> fst ` set xs"
      then show ?thesis by (rule validate_arrival_exit [OF that(1,2)])
    next
      assume "no_gate (gate_waypoint ARRIVAL points)"
      then have "\<not> gate_found a (last points)"
        by (simp add: no_gate_def gate_waypoint_def gate_found_iff)
      then show ?thesis by (rule validate_arrival_gate [OF that(1,2)])
    qed
    then show ?thesis unfolding rejected_def by (simp add: find_path_invalid)
  qed
  have dep: "rejected points DEPARTURE"
    if "runway_configurations (config a) (airport_config a) = Some rc"
      and "entrances rc = map pair_entry es" and "last points \<notin> fst ` set es"
    unfolding rejected_def
    using validate_departure_entrance [OF that] by (simp add: find_path_invalid)
  from short dep_gate arr dep show ?thesis by blast
qed

lemma gate_on_pairs_stub:
  "find_path id stub_airport [''K24''] DEPARTURE = Some (Inr None) \<and>
   find_path id stub_airport [''K99'', ''W37''] DEPARTURE = Some (Inr None) \<and>
   find_path id stub_airport [''W2'', ''K24''] ARRIVAL = Some (Inr None) \<and>
   find_path id stub_airport [''W42'', ''K99''] ARRIVAL = Some (Inr None) \<and>
   find_path id stub_airport [''K24'', ''W2''] DEPARTURE = Some (Inr None)"
proof -
  note vg = gate_on_pairs [where a = stub_airport and set_order = id and rc = stub_runways
      and xs = "[(''W42'', ''B0'')]" and es = "[(''W37'', ''E0''), (''W36'', ''B0'')]"]
  have 1: "find_path id stub_airport [''K24''] DEPARTURE = Some (Inr None)"
    using vg [of "[''K24'']" DEPARTURE] by simp
  have 2: "find_path id stub_airport [''K99'', ''W37''] DEPARTURE = Some (Inr None)"
    using vg [of "[''K99'', ''W37'']" DEPARTURE] by (simp add: stub_config_simps gate_waypoint_def)
  have 3: "find_path id stub_airport [''W2'', ''K24''] ARRIVAL = Some (Inr None)"
    using vg [of "[''W2'', ''K24'']" ARRIVAL] by (simp add: stub_config_simps)
  have 4: "find_path id stub_airport [''W42'', ''K99''] ARRIVAL = Some (Inr None)"
    using vg [of "[''W42'', ''K99'']" ARRIVAL] by (simp add: stub_config_simps gate_waypoint_def)
  have 5: "find_path id stub_airport [''K24'', ''W2''] DEPARTURE = Some (Inr None)"
    using vg [of "[''K24'', ''W2'']" DEPARTURE] by (simp add: stub_config_simps)
  from 1 2 3 4 5 show ?thesis by simp
qed

lemma exported_terminals:
  "terminals (export_config lone_stand_classified) =
     [(''K'', [\<lparr>gate_id = ''K24'', node_id = ''N00001''\<rparr>])]"
  by (simp add: export_config_def lone_stand_classified_def lone_stand_def terminal_of_def
      is_digit_def exported_gate_def gate_entry_of_def stand_node_def new_node_def fmt05_small
      stand_segment_def)

text \<open>
  C2, on the configuration the indexer writes.  Take the \<open>Airport\<close> loaded from what
  \<open>export_config\<close> writes for the one-stand state, with any network and \<open>WEST\<close> active:
  its exits are the names \<open>W34, W35, W4, W36, W37\<close>, its entrances \<open>W41, W42\<close>, its only
  gate \<open>K24\<close>.  An arrival whose first waypoint \<open>W2\<close> is not a listed exit, an arrival
  whose last waypoint \<open>K99\<close> is not a gate, and a departure from the gate \<open>K24\<close> whose
  last waypoint \<open>W2\<close> is not a listed entrance do not return \<open>None\<close>: each ends with
  \<open>ValueError\<close>, raised when the loop over the listed names unpacks \<open>W34\<close> or \<open>W41\<close>
  into a pair.  The two cases that are decided before that loop do return \<open>None\<close>: fewer
  than two waypoints, and a departure whose first waypoint is not a gate.
\<close>

theorem validation_gate_on_exported_config:
  fixes fs :: "Feature list" and set_order :: "string list \<Rightarrow> string list"
  defines "a \<equiv> load_data (export_config lone_stand_classified) fs ''WEST''"
  shows "map_option exits (runway_configurations (config a) (airport_config a)) =
       Some [Bare ''W34'', Bare ''W35'', Bare ''W4'', Bare ''W36'', Bare ''W37''] \<and>
     map_option entrances (runway_configurations (config a) (airport_config a)) =
       Some [Bare ''W41'', Bare ''W42''] \<and>
     terminals (config a) = [(''K'', [\<lparr>gate_id = ''K24'', node_id = ''N00001''\<rparr>])] \<and>
     find_path set_order a [''W2'', ''K24''] ARRIVAL = Some (Inl ValueError) \<and>
     find_path set_order a [''W4'', ''K99''] ARRIVAL = Some (Inl ValueError) \<and>
     find_path set_order a [''K24'', ''W2''] DEPARTURE = Some (Inl ValueError) \<and>
     find_path set_order a [''K24''] DEPARTURE = Some (Inr None) \<and>
     find_path set_order a [''K99'', ''W41''] DEPARTURE = Some (Inr None)"
proof -
  have cfg: "config a = export_config lone_stand_classified" "airport_config a = ''WEST''"
    by (simp_all add: a_def load_data_def split: prod.splits)
  have rc: "runway_configurations (export_config lone_stand_classified) ''WEST'' =
      Some \<lparr>entrances = [Bare ''W41'', Bare ''W42''],
            exits = [Bare ''W34'', Bare ''W35'', Bare ''W4'', Bare ''W36'', Bare ''W37'']\<rparr>"
    by (simp add: export_config_def runway_configs_def)
  have 1: "map_option exits (runway_configurations (config a) (airport_config a)) =
       Some [Bare ''W34'', Bare ''W35'', Bare ''W4'', Bare ''W36'', Bare ''W37'']"
    by (simp add: cfg rc)
  have 2: "map_option entrances (runway_configurations (config a) (airport_config a)) =
       Some [Bare ''W41'', Bare ''W42'']"
    by (simp add: cfg rc)
  have 3: "terminals (config a) = [(''K'', [\<lparr>gate_id = ''K24'', node_id = ''N00001''\<rparr>])]"
    by (simp add: cfg exported_terminals)
  have 4: "find_path set_order a [''W2'', ''K24''] ARRIVAL = Some (Inl ValueError)"
    by (simp add: find_path_def route_legs_def validate_movement_def runway_config_def cfg rc)
  have 5: "find_path set_order a [''W4'', ''K99''] ARRIVAL = Some (Inl ValueError)"
    by (simp add: find_path_def route_legs_def validate_movement_def runway_config_def cfg rc)
  have 6: "find_path set_order a [''K24'', ''W2''] DEPARTURE = Some (Inl ValueError)"
    by (simp add: find_path_def route_legs_def validate_movement_def runway_config_def cfg rc
        gate_found_def exported_terminals)
  have 7: "find_path set_order a [''K24''] DEPARTURE = Some (Inr None)"
    by (simp add: find_path_def route_legs_def validate_movement_def)
  have 8: "find_path set_order a [''K99'', ''W41''] DEPARTURE = Some (Inr None)"
    by (simp add: find_path_def route_legs_def validate_movement_def cfg
        gate_found_def exported_terminals)
  show ?thesis using 1 2 3 4 5 6 7 8 by (intro conjI) assumption+
qed

subsection \<open>Evaluation of the search on concrete networks\<close>

lemma dijkstra_loop_done:
  "pq = [] \<or> \<not> length found < length ts \<Longrightarrow>
   dijkstra_loop a ts fb al (d, pq, found) = Some (Inr d)"
  by (subst dijkstra_loop.simps) auto

lemma dijkstra_loop_step:
  "pq \<noteq> [] \<Longrightarrow> length found < length ts \<Longrightarrow>
   dijkstra_loop a ts fb al (d, pq, found) =
     (case heappop pq of
        None \<Rightarrow> Some (Inl IndexError)
      | Some ((cur_dist, current, path), pq') \<Rightarrow>
          (case d current of
             None \<Rightarrow> Some (Inl KeyError)
           | Some (dd, _) \<Rightarrow>
               if gt_stored cur_dist dd
               then dijkstra_loop a ts fb al
                      (d, pq', if current \<in> set ts then List.insert current found else found)
               else (case graph a current of
                       None \<Rightarrow> Some (Inl KeyError)
                     | Some nbrs \<Rightarrow>
                         (case relax a fb al cur_dist path nbrs (d, pq') of
                            Inl e \<Rightarrow> Some (Inl e)
                          | Inr (distances', pq'') \<Rightarrow>
                              dijkstra_loop a ts fb al
                                (distances', pq'',
                                 if current \<in> set ts then List.insert current found
                                 else found)))))"
  by (subst dijkstra_loop.simps) simp

lemmas leg_eval = find_leg_def get_segment_nodes_def waypoint_nodes_def pinned_node_def
  segs_named_def set_add_def
  dijkstra_multi_target_def init_distances_def init_pq_def dijkstra_loop_step
  dijkstra_loop_done heappop_def find_segment_def runway_config_def seg_def

lemmas route_eval = route_legs_def validate_movement_def gate_found_def runway_config_def
  first_leg_def touches_def segs_named_def find_segment_def add_segment_def TaxiPath_init_def
  insert_commute seg_def

lemmas closing_eval = find_path_def add_closing_def closing_node_def closing_segment_def
  runway_config_def touches_def segs_named_def add_segment_def seg_def

lemma stub_segs:
  "all_segments stub_airport =
     [seg ''S0'' ''K24'' ''G0'' ''A0'' 10 ''parking_position'',
      seg ''S1'' ''W2'' ''A0'' ''B0'' 100 ''taxiway'',
      seg ''S2'' ''W37'' ''B0'' ''E0'' 50 ''taxiway'']"
  by (simp add: stub_airport_def stub_features_def load_data_def line_def make_segment_def
      seg_def)

lemma stub_graph:
  "graph stub_airport =
     [''G0'' \<mapsto> [(''A0'', ''S0'', 10)],
      ''A0'' \<mapsto> [(''G0'', ''S0'', 10), (''B0'', ''S1'', 100)],
      ''B0'' \<mapsto> [(''A0'', ''S1'', 100), (''E0'', ''S2'', 50)],
      ''E0'' \<mapsto> [(''B0'', ''S2'', 50)]]"
  by (simp add: stub_airport_def stub_features_def load_data_def line_def make_segment_def
      build_graph_def graph_add_def adj_of_def fun_upd_twist)

lemma stub_by_name:
  "segments_by_name stub_airport =
     [''K24'' \<mapsto> [seg ''S0'' ''K24'' ''G0'' ''A0'' 10 ''parking_position''],
      ''W2'' \<mapsto> [seg ''S1'' ''W2'' ''A0'' ''B0'' 100 ''taxiway''],
      ''W37'' \<mapsto> [seg ''S2'' ''W37'' ''B0'' ''E0'' 50 ''taxiway'']]"
  by (simp add: stub_airport_def stub_features_def load_data_def line_def make_segment_def
      by_name_append_def seg_def)

lemmas stub_simps = stub_segs stub_graph stub_by_name stub_config_simps(1,2,3,6)
  stub_runways_def

lemma stub_W37_leg0:
  "find_leg id stub_airport DEPARTURE [''K24'', ''W2'', ''W37''] 0 {} ''G0''
     = Some (Inr (Some (''A0'', [''S0''])))"
  by (simp add: leg_eval stub_simps)

lemma stub_W37_leg1:
  "find_leg id stub_airport DEPARTURE [''K24'', ''W2'', ''W37''] (Suc 0) {''S0''} ''A0''
     = Some (Inr (Some (''E0'', [''S1'', ''S2''])))"
  by (simp add: leg_eval stub_simps)

lemma stub_W37_route:
  "route_legs id stub_airport [''K24'', ''W2'', ''W37''] DEPARTURE =
     Some (Inr (Some (\<lparr>segments = [''S0'', ''S0'', ''S1'', ''S2''], total_distance = 170,
                        waypoints = []\<rparr>, {''S0'', ''S1'', ''S2''}, ''E0'')))"
  by (simp add: route_eval stub_W37_leg0 stub_W37_leg1 stub_simps)

lemma stub_W37_path:
  "find_path id stub_airport [''K24'', ''W2'', ''W37''] DEPARTURE =
     Some (Inr (Some \<lparr>segments = [''S0'', ''S0'', ''S1'', ''S2'', ''S2''],
                      total_distance = 220, waypoints = []\<rparr>))"
  by (simp add: closing_eval stub_W37_route stub_simps)

lemma stub_W36_leg0:
  "find_leg id stub_airport DEPARTURE [''K24'', ''W2'', ''W36''] 0 {} ''G0''
     = Some (Inr (Some (''A0'', [''S0''])))"
  by (simp add: leg_eval stub_simps)

lemma stub_W36_leg1:
  "find_leg id stub_airport DEPARTURE [''K24'', ''W2'', ''W36''] (Suc 0) {''S0''} ''A0''
     = Some (Inr (Some (''B0'', [''S1''])))"
  by (simp add: leg_eval stub_simps)

lemma stub_W36_route:
  "route_legs id stub_airport [''K24'', ''W2'', ''W36''] DEPARTURE =
     Some (Inr (Some (\<lparr>segments = [''S0'', ''S0'', ''S1''], total_distance = 120,
                        waypoints = []\<rparr>, {''S0'', ''S1''}, ''B0'')))"
  by (simp add: route_eval stub_W36_leg0 stub_W36_leg1 stub_simps)

lemma fork_segs:
  "all_segments fork_airport =
     [seg ''S0'' ''K1'' ''G'' ''A'' 10 ''parking_position'',
      seg ''S1'' ''W1'' ''A'' ''C'' 5 ''taxiway'',
      seg ''S2'' ''W1'' ''A'' ''D'' 5 ''taxiway'',
      seg ''S3'' ''W2'' ''C'' ''E'' 7 ''taxiway'',
      seg ''S4'' ''W2'' ''D'' ''E'' 7 ''taxiway'',
      seg ''S5'' ''W9'' ''E'' ''R'' 3 ''taxiway'']"
  by (simp add: fork_airport_def fork_features_def load_data_def line_def seg_def
      make_segment_def)

lemma fork_graph:
  "graph fork_airport =
     [''G'' \<mapsto> [(''A'', ''S0'', 10)],
      ''A'' \<mapsto> [(''G'', ''S0'', 10), (''C'', ''S1'', 5), (''D'', ''S2'', 5)],
      ''C'' \<mapsto> [(''A'', ''S1'', 5), (''E'', ''S3'', 7)],
      ''D'' \<mapsto> [(''A'', ''S2'', 5), (''E'', ''S4'', 7)],
      ''E'' \<mapsto> [(''C'', ''S3'', 7), (''D'', ''S4'', 7), (''R'', ''S5'', 3)],
      ''R'' \<mapsto> [(''E'', ''S5'', 3)]]"
  by (simp add: fork_airport_def fork_features_def load_data_def line_def make_segment_def
      build_graph_def graph_add_def adj_of_def fun_upd_twist)

lemma fork_by_name:
  "segments_by_name fork_airport =
     [''K1'' \<mapsto> [seg ''S0'' ''K1'' ''G'' ''A'' 10 ''parking_position''],
      ''W1'' \<mapsto> [seg ''S1'' ''W1'' ''A'' ''C'' 5 ''taxiway'',
                  seg ''S2'' ''W1'' ''A'' ''D'' 5 ''taxiway''],
      ''W2'' \<mapsto> [seg ''S3'' ''W2'' ''C'' ''E'' 7 ''taxiway'',
                  seg ''S4'' ''W2'' ''D'' ''E'' 7 ''taxiway''],
      ''W9'' \<mapsto> [seg ''S5'' ''W9'' ''E'' ''R'' 3 ''taxiway'']]"
  by (simp add: fork_airport_def fork_features_def load_data_def line_def seg_def
      by_name_append_def make_segment_def)

lemma fork_cfg: "config fork_airport = fork_config" "airport_config fork_airport = ''EAST''"
  by (simp_all add: fork_airport_def load_data_def split: prod.splits)

lemmas fork_simps = fork_segs fork_graph fork_by_name fork_cfg fork_config_def

lemma fork_leg0_id:
  "find_leg id fork_airport DEPARTURE [''K1'', ''W1'', ''W2'', ''W9''] 0 {} ''G''
     = Some (Inr (Some (''A'', [''S0''])))"
  by (simp add: leg_eval fork_simps)

lemma fork_leg0_rev:
  "find_leg rev fork_airport DEPARTURE [''K1'', ''W1'', ''W2'', ''W9''] 0 {} ''G''
     = Some (Inr (Some (''A'', [''S0''])))"
  by (simp add: leg_eval fork_simps)

lemma fork_leg1_id:
  "find_leg id fork_airport DEPARTURE [''K1'', ''W1'', ''W2'', ''W9''] (Suc 0) {''S0''} ''A''
     = Some (Inr (Some (''C'', [''S1''])))"
  by (simp add: leg_eval fork_simps)

lemma fork_leg1_rev:
  "find_leg rev fork_airport DEPARTURE [''K1'', ''W1'', ''W2'', ''W9''] (Suc 0) {''S0''} ''A''
     = Some (Inr (Some (''D'', [''S2''])))"
  by (simp add: leg_eval fork_simps)

lemma fork_leg2_C:
  "find_leg so fork_airport DEPARTURE [''K1'', ''W1'', ''W2'', ''W9''] (Suc (Suc 0))
     {''S0'', ''S1''} ''C'' = Some (Inr (Some (''E'', [''S3''])))"
  by (simp add: leg_eval fork_simps)

lemma fork_leg2_D:
  "find_leg so fork_airport DEPARTURE [''K1'', ''W1'', ''W2'', ''W9''] (Suc (Suc 0))
     {''S0'', ''S2''} ''D'' = Some (Inr (Some (''E'', [''S4''])))"
  by (simp add: leg_eval fork_simps)

lemma fork_path_id:
  "find_path id fork_airport fork_points DEPARTURE =
     Some (Inr (Some \<lparr>segments = [''S0'', ''S0'', ''S1'', ''S3'', ''S5''],
                      total_distance = 35, waypoints = []\<rparr>))"
  by (simp add: fork_points_def closing_eval route_eval fork_leg0_id fork_leg1_id fork_leg2_C
      fork_simps)

lemma fork_path_rev:
  "find_path rev fork_airport fork_points DEPARTURE =
     Some (Inr (Some \<lparr>segments = [''S0'', ''S0'', ''S2'', ''S4'', ''S5''],
                      total_distance = 35, waypoints = []\<rparr>))"
  by (simp add: fork_points_def closing_eval route_eval fork_leg0_rev fork_leg1_rev fork_leg2_D
      fork_simps)

subsection \<open>The legs of a route: lemmas\<close>

lemma valid_path_names:
  "valid_path a allowed sp = Inr True \<Longrightarrow> sid \<in> set sp \<Longrightarrow>
   \<exists>s. find_segment a sid = Some s \<and> name s \<in> allowed"
  by (induction sp) (auto split: option.splits if_splits)

lemma select_best_valid:
  "select_best a allowed d ts (bd, best) = Inr (bd', Some (t, sp)) \<Longrightarrow>
   (\<And>t' sp'. best = Some (t', sp') \<Longrightarrow> valid_path a allowed sp' = Inr True) \<Longrightarrow>
   valid_path a allowed sp = Inr True"
proof (induction ts arbitrary: bd best)
  case Nil
  then show ?case by simp
next
  case (Cons x ts)
  show ?case
  proof (cases "d x")
    case None
    with Cons.prems show ?thesis by simp
  next
    case (Some v)
    obtain dx px where v: "v = (dx, px)" by (cases v)
    show ?thesis
    proof (cases "pydist_less dx bd")
      case False
      with Cons.prems Some v
      have "select_best a allowed d ts (bd, best) = Inr (bd', Some (t, sp))"
        by simp
      then show ?thesis using Cons.prems(2) by (rule Cons.IH)
    next
      case True
      show ?thesis
      proof (cases "valid_path a allowed px")
        case (Inl e)
        with Cons.prems Some v True show ?thesis by simp
      next
        case (Inr ok)
        show ?thesis
        proof (cases ok)
          case True
          with Cons.prems(1) Some v \<open>pydist_less dx bd\<close> Inr
          have "select_best a allowed d ts (dx, Some (x, px)) = Inr (bd', Some (t, sp))"
            by simp
          then show ?thesis
            by (rule Cons.IH) (use Inr True in auto)
        next
          case False
          with Cons.prems(1) Some v \<open>pydist_less dx bd\<close> Inr
          have "select_best a allowed d ts (bd, best) = Inr (bd', Some (t, sp))" by simp
          then show ?thesis using Cons.prems(2) by (rule Cons.IH)
        qed
      qed
    qed
  qed
qed

lemma find_leg_names:
  assumes "find_leg so a mt points i used last_node = Some (Inr (Some (t, sp)))"
    and "sid \<in> set sp"
  shows "\<exists>s. find_segment a sid = Some s \<and> (name s = points ! i \<or> name s = points ! (i + 1))"
proof -
  from assms(1) obtain d ts bd where
    "select_best a {points ! i, points ! (i + 1)} d ts (PInf, None) = Inr (bd, Some (t, sp))"
    by (auto simp: find_leg_def split: sum.splits option.splits if_splits)
  then have "valid_path a {points ! i, points ! (i + 1)} sp = Inr True"
    by (rule select_best_valid) simp
  from valid_path_names [OF this assms(2)] show ?thesis by auto
qed

lemma add_path_segments_segments:
  "add_path_segments a bp (path, used) = Inr (path', used') \<Longrightarrow>
   segments path' = segments path @ bp"
  by (induction bp arbitrary: path used) (auto simp: add_segment_def split: option.splits)

lemma route_loop_legs:
  "route_loop so a mt points i (path, used, last_node) = Some (Inr (Some (path', used', last')))
   \<Longrightarrow> \<exists>legs. segments path' = segments path @ concat legs \<and>
         length legs = length points - 1 - i \<and>
         (\<forall>j < length legs. \<exists>u l t.
            find_leg so a mt points (i + j) u l = Some (Inr (Some (t, legs ! j))))"
proof (induction so a mt points i "(path, used, last_node)" arbitrary: path used last_node
    rule: route_loop.induct)
  case (1 so a mt points i path used last_node)
  show ?case
  proof (cases "i < length points - 1")
    case False
    with "1.prems" have "path' = path" by simp
    with False show ?thesis by simp
  next
    case True
    with "1.prems" obtain t bp p1 u1 where
      leg: "find_leg so a mt points i used last_node = Some (Inr (Some (t, bp)))"
      and add: "add_path_segments a bp (path, used) = Inr (p1, u1)"
      and rest: "route_loop so a mt points (i + 1) (p1, u1, t)
                   = Some (Inr (Some (path', used', last')))"
      by (auto split: option.splits sum.splits)
    from "1.hyps" [OF True leg refl refl refl add refl rest]
    obtain legs where legs: "segments path' = segments p1 @ concat legs"
      "length legs = length points - 1 - (i + 1)"
      "\<forall>j < length legs. \<exists>u l t.
         find_leg so a mt points (i + 1 + j) u l = Some (Inr (Some (t, legs ! j)))"
      by blast
    have seg: "segments path' = segments path @ concat (bp # legs)"
      using legs(1) add_path_segments_segments [OF add] by simp
    have len: "length (bp # legs) = length points - 1 - i"
      using legs(2) True by simp
    have all: "\<exists>u l t. find_leg so a mt points (i + j) u l
                 = Some (Inr (Some (t, (bp # legs) ! j)))"
      if "j < length (bp # legs)" for j
    proof (cases j)
      case 0
      with leg show ?thesis by auto
    next
      case (Suc k)
      with that legs(3) show ?thesis by auto
    qed
    from seg len all show ?thesis by blast
  qed
qed

lemma add_closing_segments:
  "add_closing a mt points path last_node = Inr p \<Longrightarrow>
   \<exists>closing. segments p = segments path @ closing \<and> length closing \<le> 1"
  by (auto simp: add_closing_def add_segment_def split: sum.splits option.splits)

lemma route_legs_first:
  assumes "route_legs so a points mt = Some (Inr (Some (path, used, last_node)))"
  shows "\<exists>first legs. segments path = first # concat legs \<and>
         length legs = length points - 1 \<and>
         (\<forall>j < length legs. \<exists>u l t.
            find_leg so a mt points j u l = Some (Inr (Some (t, legs ! j))))"
proof -
  define p0 where "p0 fs = add_segment TaxiPath_init (segment_id fs) (length' fs)"
    for fs :: TaxiSegment
  from assms obtain u0 n0 fs where
    loop: "route_loop so a mt points 0 (p0 fs, u0, n0)
             = Some (Inr (Some (path, used, last_node)))"
    unfolding p0_def
    by (auto simp: route_legs_def simp del: route_loop.simps
        split: sum.splits bool.splits list.splits prod.splits)
  from route_loop_legs [OF loop] obtain legs where
    "segments path = segments (p0 fs) @ concat legs" "length legs = length points - 1 - 0"
    "\<forall>j < length legs. \<exists>u l t.
       find_leg so a mt points (0 + j) u l = Some (Inr (Some (t, legs ! j)))"
    by blast
  moreover have "segments (p0 fs) = [segment_id fs]"
    by (simp add: p0_def add_segment_def TaxiPath_init_def)
  ultimately show ?thesis by auto
qed

subsection \<open>C3: name containment per leg\<close>

text \<open>
  C3.  The segment list of every successful \<open>find_path\<close> result is the first segment, then
  the segments of one leg per pair of consecutive waypoints (each the path that the leg's
  search \<open>find_leg\<close> returned), then at most one closing segment; and every segment of the
  leg between the waypoints \<open>points ! i\<close> and \<open>points ! (i + 1)\<close> is a segment of the
  network whose name is one of these two waypoints.
\<close>

theorem name_containment_per_leg:
  assumes "find_path set_order a points movement_type = Some (Inr (Some p))"
  shows "\<exists>first legs closing.
    segments p = first # concat legs @ closing \<and> length closing \<le> 1 \<and>
    length legs = length points - 1 \<and>
    (\<forall>i < length legs.
       (\<exists>used last_node target.
          find_leg set_order a movement_type points i used last_node
            = Some (Inr (Some (target, legs ! i)))) \<and>
       (\<forall>sid \<in> set (legs ! i).
          \<exists>s. find_segment a sid = Some s \<and>
              (name s = points ! i \<or> name s = points ! (i + 1))))"
proof -
  from assms obtain path used last_node where
    legs: "route_legs set_order a points movement_type
             = Some (Inr (Some (path, used, last_node)))"
    and closing: "add_closing a movement_type points path last_node = Inr p"
    by (auto simp: find_path_def split: option.splits sum.splits)
  from route_legs_first [OF legs] obtain first legs where
    1: "segments path = first # concat legs" "length legs = length points - 1"
    and 2: "\<forall>j < length legs. \<exists>u l t.
            find_leg set_order a movement_type points j u l = Some (Inr (Some (t, legs ! j)))"
    by blast
  from add_closing_segments [OF closing] obtain cl where
    3: "segments p = segments path @ cl" "length cl \<le> 1" by blast
  have 4: "\<forall>sid \<in> set (legs ! i).
          \<exists>s. find_segment a sid = Some s \<and>
              (name s = points ! i \<or> name s = points ! (i + 1))" if "i < length legs" for i
    using 2 that find_leg_names by blast
  have 5: "segments p = first # concat legs @ cl"
    using 1(1) 3(1) by simp
  show ?thesis
    by (rule exI [of _ first], rule exI [of _ legs], rule exI [of _ cl])
      (use 5 3(2) 1(2) 2 4 in blast)
qed

theorem name_containment_per_leg_witness:
  "find_path id stub_airport [''K24'', ''W2'', ''W37''] DEPARTURE =
     Some (Inr (Some \<lparr>segments = [''S0'', ''S0'', ''S1'', ''S2'', ''S2''],
                      total_distance = 220, waypoints = []\<rparr>)) \<and>
   (\<exists>first legs closing.
      segments \<lparr>segments = [''S0'', ''S0'', ''S1'', ''S2'', ''S2''],
                total_distance = 220, waypoints = []\<rparr> = first # concat legs @ closing \<and>
      length closing \<le> 1 \<and> length legs = length [''K24'', ''W2'', ''W37''] - 1 \<and>
      (\<forall>i < length legs.
         (\<exists>used last_node target.
            find_leg id stub_airport DEPARTURE [''K24'', ''W2'', ''W37''] i used last_node
              = Some (Inr (Some (target, legs ! i)))) \<and>
         (\<forall>sid \<in> set (legs ! i).
            \<exists>s. find_segment stub_airport sid = Some s \<and>
                (name s = [''K24'', ''W2'', ''W37''] ! i \<or>
                 name s = [''K24'', ''W2'', ''W37''] ! (i + 1)))))"
proof (rule conjI)
  show "find_path id stub_airport [''K24'', ''W2'', ''W37''] DEPARTURE =
     Some (Inr (Some \<lparr>segments = [''S0'', ''S0'', ''S1'', ''S2'', ''S2''],
                      total_distance = 220, waypoints = []\<rparr>))"
    by (rule stub_W37_path)
next
  show "\<exists>first legs closing.
      segments \<lparr>segments = [''S0'', ''S0'', ''S1'', ''S2'', ''S2''],
                total_distance = 220, waypoints = []\<rparr> = first # concat legs @ closing \<and>
      length closing \<le> 1 \<and> length legs = length [''K24'', ''W2'', ''W37''] - 1 \<and>
      (\<forall>i < length legs.
         (\<exists>used last_node target.
            find_leg id stub_airport DEPARTURE [''K24'', ''W2'', ''W37''] i used last_node
              = Some (Inr (Some (target, legs ! i)))) \<and>
         (\<forall>sid \<in> set (legs ! i).
            \<exists>s. find_segment stub_airport sid = Some s \<and>
                (name s = [''K24'', ''W2'', ''W37''] ! i \<or>
                 name s = [''K24'', ''W2'', ''W37''] ! (i + 1))))"
    by (rule name_containment_per_leg [OF stub_W37_path])
qed

subsection \<open>C9: the closing segment may be left out\<close>

text \<open>
  C9.  When the main loop has ended with the path \<open>path\<close> at the node \<open>last_node\<close>, and
  no segment named after the last waypoint touches both the configured node (the entrance
  node of a departure, the gate node of an arrival) and \<open>last_node\<close>, \<open>find_path\<close> appends
  nothing and returns \<open>path\<close> as a success.
\<close>

theorem closing_segment_optional:
  assumes "route_legs set_order a points movement_type
             = Some (Inr (Some (path, used, last_node)))"
    and "closing_node a movement_type points = Inr pinned"
    and "\<not> (\<exists>seg \<in> set (segs_named a (last points)). \<exists>n.
            pinned = Some n \<and> touches n seg \<and> touches last_node seg)"
  shows "find_path set_order a points movement_type = Some (Inr (Some path))"
proof -
  have "closing_segment a points pinned last_node = None"
    using assms(3) by (auto simp: closing_segment_def find_None_iff split: option.splits)
  with assms(1,2) show ?thesis
    by (simp add: find_path_def add_closing_def)
qed

theorem closing_segment_optional_witness:
  "closing_node stub_airport DEPARTURE [''K24'', ''W2'', ''W36''] = Inr (Some ''B0'') \<and>
   segs_named stub_airport ''W36'' = [] \<and>
   find_path id stub_airport [''K24'', ''W2'', ''W36''] DEPARTURE =
     Some (Inr (Some \<lparr>segments = [''S0'', ''S0'', ''S1''], total_distance = 120,
                      waypoints = []\<rparr>))"
proof -
  have 1: "closing_node stub_airport DEPARTURE [''K24'', ''W2'', ''W36''] = Inr (Some ''B0'')"
    by (simp add: closing_node_def runway_config_def stub_simps)
  have 2: "segs_named stub_airport ''W36'' = []"
    by (simp add: segs_named_def stub_simps)
  have 3: "\<not> (\<exists>seg \<in> set (segs_named stub_airport (last [''K24'', ''W2'', ''W36''])). \<exists>n.
            Some ''B0'' = Some n \<and> touches n seg \<and> touches ''B0'' seg)"
    using 2 by simp
  from closing_segment_optional [OF stub_W36_route 1 3] 1 2 show ?thesis by simp
qed

subsection \<open>C4: a segment can be repeated by the closing segment\<close>

text \<open>
  C4.  The departure \<open>K24\<close>, \<open>W2\<close>, \<open>W37\<close> on the stub network, whose entrance node \<open>E0\<close>
  is the far end of the segment \<open>S2\<close> named \<open>W37\<close>: the last leg reaches \<open>E0\<close> over
  \<open>S2\<close>, and the closing step appends \<open>S2\<close> again, without looking at the used segments.
  The returned list holds \<open>S2\<close> twice, and \<open>S2\<close> is not the departure-gate segment \<open>S0\<close>.
\<close>

theorem closing_segment_repeated:
  "\<exists>p. find_path id stub_airport [''K24'', ''W2'', ''W37''] DEPARTURE = Some (Inr (Some p)) \<and>
       segments p = [''S0'', ''S0'', ''S1'', ''S2'', ''S2''] \<and>
       count_list (segments p) ''S2'' = 2"
  by (simp add: stub_W37_path)

subsection \<open>The iteration order of the target sets: lemmas\<close>

lemma get_segment_nodes_cong:
  "so (waypoint_nodes a w) = so' (waypoint_nodes a w) \<Longrightarrow>
   get_segment_nodes so a mt points w en = get_segment_nodes so' a mt points w en"
  by (simp add: get_segment_nodes_def split: option.splits sum.splits)

lemma find_leg_cong:
  assumes "so (waypoint_nodes a (points ! (i + 1))) = so' (waypoint_nodes a (points ! (i + 1)))"
  shows "find_leg so a mt points i used last_node = find_leg so' a mt points i used last_node"
proof -
  note cong = get_segment_nodes_cong
    [where so = so and so' = so' and a = a and w = "points ! (i + 1)" and mt = mt
       and points = points, OF assms]
  show ?thesis by (simp only: find_leg_def cong)
qed

lemma route_loop_cong:
  "(\<And>w. w \<in> set points \<Longrightarrow> so (waypoint_nodes a w) = so' (waypoint_nodes a w)) \<Longrightarrow>
   route_loop so a mt points i st = route_loop so' a mt points i st"
proof (induction so a mt points i st rule: route_loop.induct)
  case (1 so a mt points i path used last_node)
  show ?case
  proof (cases "i < length points - 1")
    case False
    then show ?thesis by simp
  next
    case True
    then have "points ! (i + 1) \<in> set points" by simp
    from "1.prems" [OF this]
    have leg: "find_leg so a mt points i used last_node = find_leg so' a mt points i used last_node"
      by (rule find_leg_cong)
    show ?thesis
    proof (cases "find_leg so a mt points i used last_node")
      case None
      with leg True show ?thesis by simp
    next
      case (Some r)
      show ?thesis
      proof (cases r)
        case (Inl e)
        with Some leg True show ?thesis by simp
      next
        case (Inr best)
        show ?thesis
        proof (cases best)
          case None
          with Some Inr leg True show ?thesis by simp
        next
          case (Some tb)
          obtain t bp where tb: "tb = (t, bp)" by (cases tb)
          note found = \<open>find_leg so a mt points i used last_node = Some r\<close> [unfolded Inr Some tb]
          show ?thesis
          proof (cases "add_path_segments a bp (path, used)")
            case (Inl e)
            with found leg True show ?thesis by simp
          next
            case (Inr pu)
            obtain p1 u1 where pu: "pu = (p1, u1)" by (cases pu)
            have "route_loop so a mt points (i + 1) (p1, u1, t)
                    = route_loop so' a mt points (i + 1) (p1, u1, t)"
              by (rule "1.IH" [OF True found refl refl refl Inr [unfolded pu] refl "1.prems"])
            with found leg True Inr pu show ?thesis by simp
          qed
        qed
      qed
    qed
  qed
qed

subsection \<open>C5: determinism\<close>

text \<open>
  C5, as stated, fails.  On the fork network the two branches of \<open>W1\<close> reach the two nodes
  \<open>C\<close> and \<open>D\<close> of \<open>W2\<close> at the same distance; the router keeps the first target of least
  distance in the order in which the set of target nodes is iterated.  Iterated as
  \<open>C, E, D\<close> the route runs over \<open>S1, S3\<close>; iterated as \<open>D, E, C\<close> it runs over
  \<open>S2, S4\<close>.  Graph, waypoints, movement type and configuration are the same in both.
\<close>

theorem determinism_counterexample:
  "find_path id fork_airport fork_points DEPARTURE =
     Some (Inr (Some \<lparr>segments = [''S0'', ''S0'', ''S1'', ''S3'', ''S5''],
                      total_distance = 35, waypoints = []\<rparr>)) \<and>
   find_path rev fork_airport fork_points DEPARTURE =
     Some (Inr (Some \<lparr>segments = [''S0'', ''S0'', ''S2'', ''S4'', ''S5''],
                      total_distance = 35, waypoints = []\<rparr>)) \<and>
   find_path id fork_airport fork_points DEPARTURE
     \<noteq> find_path rev fork_airport fork_points DEPARTURE"
  by (simp add: fork_path_id fork_path_rev)

text \<open>
  C5, amended.  The iteration order enters a route only where the router iterates the set
  of nodes of a waypoint's segments.  For a fixed graph, waypoint sequence, movement type
  and configuration, two calls whose iteration orders agree on the node set of every
  waypoint of the request have the same outcome: the same segment sequence and total
  distance, the same failure, the same exception, or both do not return.
\<close>

theorem determinism_fixed_order:
  assumes "\<forall>w \<in> set points.
             set_order (waypoint_nodes a w) = set_order' (waypoint_nodes a w)"
  shows "find_path set_order a points movement_type
           = find_path set_order' a points movement_type"
proof -
  have "route_loop set_order a movement_type points 0 st
          = route_loop set_order' a movement_type points 0 st" for st
    by (rule route_loop_cong) (use assms in blast)
  then have "route_legs set_order a points movement_type
               = route_legs set_order' a points movement_type"
    by (simp add: route_legs_def del: route_loop.simps
        split: sum.splits bool.splits list.splits prod.splits)
  then show ?thesis by (simp add: find_path_def)
qed

theorem determinism_fixed_order_witness:
  "find_path (\<lambda>xs. if 3 < length xs then rev xs else xs) fork_airport fork_points DEPARTURE
     = Some (Inr (Some \<lparr>segments = [''S0'', ''S0'', ''S1'', ''S3'', ''S5''],
                        total_distance = 35, waypoints = []\<rparr>))"
proof -
  have "\<forall>w \<in> set fork_points.
          id (waypoint_nodes fork_airport w)
            = (\<lambda>xs. if 3 < length xs then rev xs else xs) (waypoint_nodes fork_airport w)"
    by (simp add: fork_points_def waypoint_nodes_def segs_named_def set_add_def fork_by_name
        seg_def)
  then have eq: "find_path id fork_airport fork_points DEPARTURE
      = find_path (\<lambda>xs. if 3 < length xs then rev xs else xs) fork_airport fork_points
          DEPARTURE"
    by (rule determinism_fixed_order)
  show ?thesis
    unfolding eq [symmetric] by (rule fork_path_id)
qed

subsection \<open>The heap: what a computation leaves unchanged\<close>

lemma unchanged_refl: "unchanged_below w s s"
  by (simp add: unchanged_below_def)

lemma unchanged_trans:
  "unchanged_below w s s' \<Longrightarrow> unchanged_below w s' s'' \<Longrightarrow> unchanged_below w s s''"
  by (simp add: unchanged_below_def)

lemma local_ret: "local_only w (ret x)"
  by (simp add: local_only_def ret_def unchanged_refl)

lemma local_throw: "local_only w (throw e)"
  by (simp add: local_only_def throw_def unchanged_refl)

lemma local_bad: "local_only w bad_reference"
  by (simp add: local_only_def bad_reference_def unchanged_refl)

lemma local_load: "local_only w (load p)"
  by (auto simp add: local_only_def load_def unchanged_refl split: if_splits)

lemma local_assign: "w \<le> p \<Longrightarrow> local_only w (assign p ob)"
  by (auto simp add: local_only_def assign_def unchanged_below_def split: if_splits)

lemma local_alloc: "local_only w (alloc ob)"
  by (auto simp add: local_only_def alloc_def unchanged_below_def nth_append)

lemma local_lift: "local_only w (lift r)"
  by (cases r) (simp_all add: lift_def local_ret local_throw)

lemma local_bnd:
  assumes m: "local_only w m" and f: "\<And>x. local_only w (f x)"
  shows "local_only w (bnd m f)"
  unfolding local_only_def
proof (intro allI impI)
  fix s r s'
  assume w: "w \<le> length s" and run: "bnd m f s = Some (r, s')"
  show "unchanged_below w s s'"
  proof (cases "m s")
    case None
    with run show ?thesis by (simp add: bnd_def)
  next
    case (Some res)
    obtain r1 s1 where res: "res = (r1, s1)" by (cases res)
    from m w Some res have u1: "unchanged_below w s s1" by (simp add: local_only_def)
    show ?thesis
    proof (cases r1)
      case (Inl e)
      with run Some res have "s' = s1" by (simp add: bnd_def)
      with u1 show ?thesis by simp
    next
      case (Inr x)
      with run Some res have run2: "f x s1 = Some (r, s')" by (simp add: bnd_def)
      from u1 w have "w \<le> length s1" by (simp add: unchanged_below_def)
      with f [of x] run2 have "unchanged_below w s1 s'" by (simp add: local_only_def)
      with u1 show ?thesis by (rule unchanged_trans)
    qed
  qed
qed

lemma local_alloc_bnd:
  assumes f: "\<And>p. w \<le> p \<Longrightarrow> local_only w (f p)"
  shows "local_only w (bnd (alloc ob) f)"
  unfolding local_only_def
proof (intro allI impI)
  fix s r s'
  assume w: "w \<le> length s" and run: "bnd (alloc ob) f s = Some (r, s')"
  define s1 where "s1 = s @ [ob]"
  have u1: "unchanged_below w s s1" using w by (simp add: unchanged_below_def s1_def nth_append)
  from run have run2: "f (length s) s1 = Some (r, s')" by (simp add: bnd_def alloc_def s1_def)
  from w have "w \<le> length s1" by (simp add: s1_def)
  with f [OF w] run2 have "unchanged_below w s1 s'" by (simp add: local_only_def)
  with u1 show "unchanged_below w s s'" by (rule unchanged_trans)
qed

lemma local_for_each:
  assumes body: "\<And>x. local_only w (body x)"
  shows "local_only w (for_each xs body)"
  unfolding local_only_def
proof (intro allI impI)
  fix s r s'
  assume "w \<le> length s" and "for_each xs body s = Some (r, s')"
  then show "unchanged_below w s s'"
  proof (induction xs arbitrary: s)
    case Nil
    then show ?case by (simp add: unchanged_refl)
  next
    case (Cons x xs)
    show ?case
    proof (cases "body x s")
      case None
      with Cons.prems show ?thesis by simp
    next
      case (Some res)
      obtain r1 s1 where res: "res = (r1, s1)" by (cases res)
      from body [of x] Cons.prems(1) Some res have u1: "unchanged_below w s s1"
        by (simp add: local_only_def)
      show ?thesis
      proof (cases r1)
        case (Inl e)
        with Cons.prems Some res have "s' = s1" by simp
        with u1 show ?thesis by simp
      next
        case (Inr u)
        with Cons.prems Some res have run2: "for_each xs body s1 = Some (r, s')" by simp
        from u1 Cons.prems(1) have "w \<le> length s1" by (simp add: unchanged_below_def)
        from Cons.IH [OF this run2] u1 show ?thesis by (blast intro: unchanged_trans)
      qed
    qed
  qed
qed

lemma local_load_set: "local_only w (load_set p)"
  unfolding load_set_def
  by (intro local_bnd local_load) (simp add: local_ret local_bad split: obj.split)

lemma local_load_path: "local_only w (load_path p)"
  unfolding load_path_def
  by (intro local_bnd local_load) (simp add: local_ret local_bad split: obj.split)

lemma local_load_distances: "local_only w (load_distances p)"
  unfolding load_distances_def
  by (intro local_bnd local_load) (simp add: local_ret local_bad split: obj.split)

lemma local_load_queue: "local_only w (load_queue p)"
  unfolding load_queue_def
  by (intro local_bnd local_load) (simp add: local_ret local_bad split: obj.split)

lemma local_load_config: "local_only w (load_config p)"
  unfolding load_config_def
  by (intro local_bnd local_load) (simp add: local_ret local_bad split: obj.split)

lemma local_load_index: "local_only w (load_index p)"
  unfolding load_index_def
  by (intro local_bnd local_load) (simp add: local_ret local_bad split: obj.split)

lemma local_load_segments: "local_only w (load_segments p)"
  unfolding load_segments_def
  by (intro local_bnd local_load) (simp add: local_ret local_bad split: obj.split)

lemma local_load_graph: "local_only w (load_graph p)"
  unfolding load_graph_def
  by (intro local_bnd local_load) (simp add: local_ret local_bad split: obj.split)

lemma local_read_self: "local_only w (read_self self)"
  unfolding read_self_def
  by (intro local_bnd local_load)
    (auto intro!: local_bnd local_load_config local_load_index local_load_segments
       local_load_graph local_ret local_bad split: obj.split)

lemmas local_reads = local_ret local_throw local_bad local_load local_lift local_load_set
  local_load_path local_load_distances local_load_queue local_read_self

lemma local_set_add: "w \<le> p \<Longrightarrow> local_only w (set_add_st p x)"
  unfolding set_add_st_def by (intro local_bnd local_load_set local_assign)

lemma local_add_segment: "w \<le> path \<Longrightarrow> local_only w (add_segment_st path sid distance)"
  unfolding add_segment_st_def by (intro local_bnd local_load_path local_assign)

lemma local_get_segment_nodes:
  "local_only w (get_segment_nodes_st self movement_type points waypoint enforce_node)"
  unfolding get_segment_nodes_st_def
  by (auto intro!: local_bnd local_alloc_bnd local_for_each local_set_add local_alloc
      local_reads split: option.split)

lemma local_relax:
  "w \<le> distances \<Longrightarrow> w \<le> pq \<Longrightarrow>
   local_only w (relax_st self forbidden allowed cur_dist path distances pq edge)"
  unfolding relax_st_def
  by (auto intro!: local_bnd local_assign local_reads split: option.split prod.split)

lemma local_step:
  "w \<le> distances \<Longrightarrow> w \<le> pq \<Longrightarrow> w \<le> found_targets \<Longrightarrow>
   local_only w (dijkstra_step self target_nodes forbidden allowed distances pq found_targets)"
  unfolding dijkstra_step_def
  by (auto intro!: local_bnd local_assign local_reads local_for_each local_relax local_set_add
      split: option.split prod.split)

lemma loop_unchanged:
  assumes run: "dijkstra_loop_st self target_nodes forbidden allowed distances pq found_targets s
                  = Some y"
  shows "w \<le> distances \<longrightarrow> w \<le> pq \<longrightarrow> w \<le> found_targets \<longrightarrow> w \<le> length s \<longrightarrow>
         unchanged_below w s (snd y)"
proof (rule dijkstra_loop_st.raw_induct
    [where P = "\<lambda>self target_nodes forbidden allowed distances pq found_targets s y.
                  w \<le> distances \<longrightarrow> w \<le> pq \<longrightarrow> w \<le> found_targets \<longrightarrow> w \<le> length s \<longrightarrow>
                  unchanged_below w s (snd y)", OF _ run])
  fix loop :: "addr \<Rightarrow> addr \<Rightarrow> addr \<Rightarrow> string set \<Rightarrow> addr \<Rightarrow> addr \<Rightarrow> addr \<Rightarrow> heap_state \<Rightarrow>
               ((fault + unit) \<times> heap_state) option"
  fix self target_nodes forbidden allowed distances pq found_targets s y
  assume IH: "\<And>self target_nodes forbidden allowed distances pq found_targets s y.
      loop self target_nodes forbidden allowed distances pq found_targets s = Some y \<Longrightarrow>
      w \<le> distances \<longrightarrow> w \<le> pq \<longrightarrow> w \<le> found_targets \<longrightarrow> w \<le> length s \<longrightarrow>
      unchanged_below w s (snd y)"
  assume body:
    "(case dijkstra_step self target_nodes forbidden allowed distances pq found_targets s of
        None \<Rightarrow> None
      | Some (Inl e, s') \<Rightarrow> Some (Inl e, s')
      | Some (Inr again, s') \<Rightarrow>
          if again then loop self target_nodes forbidden allowed distances pq found_targets s'
          else Some (Inr (), s')) = Some y"
  show "w \<le> distances \<longrightarrow> w \<le> pq \<longrightarrow> w \<le> found_targets \<longrightarrow> w \<le> length s \<longrightarrow>
        unchanged_below w s (snd y)"
  proof (intro impI)
    assume l: "w \<le> distances" "w \<le> pq" "w \<le> found_targets" and w: "w \<le> length s"
    from body obtain r1 s1 where
      step: "dijkstra_step self target_nodes forbidden allowed distances pq found_targets s
               = Some (r1, s1)"
      by (cases "dijkstra_step self target_nodes forbidden allowed distances pq
                   found_targets s") auto
    from local_step [OF l] w step have u1: "unchanged_below w s s1"
      by (simp add: local_only_def)
    then have w1: "w \<le> length s1" using w by (simp add: unchanged_below_def)
    show "unchanged_below w s (snd y)"
    proof (cases r1)
      case (Inl e)
      with body step have "snd y = s1" by auto
      with u1 show ?thesis by simp
    next
      case (Inr again)
      show ?thesis
      proof (cases again)
        case True
        with body step Inr have
          "loop self target_nodes forbidden allowed distances pq found_targets s1 = Some y"
          by simp
        from IH [OF this] l w1 have "unchanged_below w s1 (snd y)" by simp
        with u1 show ?thesis by (rule unchanged_trans)
      next
        case False
        with body step Inr have "snd y = s1" by auto
        with u1 show ?thesis by simp
      qed
    qed
  qed
qed

lemma local_loop:
  assumes loc: "w \<le> distances" "w \<le> pq" "w \<le> found_targets"
  shows "local_only w
           (dijkstra_loop_st self target_nodes forbidden allowed distances pq found_targets)"
  unfolding local_only_def
proof (intro allI impI)
  fix s r s'
  assume w: "w \<le> length s"
    and run: "dijkstra_loop_st self target_nodes forbidden allowed distances pq found_targets s
                = Some (r, s')"
  from loop_unchanged [OF run, of w] loc w show "unchanged_below w s s'" by simp
qed

lemma local_dijkstra:
  "local_only w (dijkstra_multi_target_st self start_nodes target_nodes forbidden allowed)"
  unfolding dijkstra_multi_target_st_def
  by (auto intro!: local_bnd local_alloc_bnd local_for_each local_assign local_loop local_reads)

lemma local_find_leg:
  "local_only w (find_leg_st set_order self movement_type points i used_segments last_node)"
  unfolding find_leg_st_def
  by (intro local_bnd local_get_segment_nodes local_dijkstra local_reads)

lemma local_add_path_segments:
  "w \<le> path \<Longrightarrow> w \<le> used_segments \<Longrightarrow>
   local_only w (add_path_segments_st self best_path path used_segments)"
  unfolding add_path_segments_st_def
  by (auto intro!: local_bnd local_for_each local_add_segment local_set_add local_reads
      split: option.split)

lemma local_route_loop:
  assumes loc: "w \<le> path" "w \<le> used_segments"
  shows "local_only w
           (route_loop_st set_order self movement_type points i path used_segments last_node)"
  unfolding local_only_def
proof (intro allI impI)
  fix s r s'
  assume "w \<le> length s"
    and "route_loop_st set_order self movement_type points i path used_segments last_node s
           = Some (r, s')"
  then show "unchanged_below w s s'"
  proof (induction "length points - 1 - i" arbitrary: i last_node s)
    case 0
    then have "\<not> i < length points - 1" by simp
    with 0 show ?case by (simp add: unchanged_refl)
  next
    case (Suc n)
    from Suc(2) have guard: "i < length points - 1" by simp
    let ?leg = "find_leg_st set_order self movement_type points i used_segments last_node"
    from Suc.prems(2) guard obtain r1 s1 where leg: "?leg s = Some (r1, s1)"
      by (cases "?leg s") auto
    from local_find_leg [of w] Suc.prems(1) leg have u1: "unchanged_below w s s1"
      by (simp add: local_only_def)
    then have w1: "w \<le> length s1" using Suc.prems(1) by (simp add: unchanged_below_def)
    show ?case
    proof (cases r1)
      case (Inl e)
      with Suc.prems(2) guard leg have "s' = s1" by simp
      with u1 show ?thesis by simp
    next
      case (Inr best)
      show ?thesis
      proof (cases best)
        case None
        with Suc.prems(2) guard leg Inr have "s' = s1" by simp
        with u1 show ?thesis by simp
      next
        case (Some tp)
        obtain best_target best_path where tp: "tp = (best_target, best_path)" by (cases tp)
        let ?add = "add_path_segments_st self best_path path used_segments"
        from Suc.prems(2) guard leg Inr Some tp obtain r2 s2 where add: "?add s1 = Some (r2, s2)"
          by (cases "?add s1") auto
        from local_add_path_segments [OF loc] w1 add have u2: "unchanged_below w s1 s2"
          by (simp add: local_only_def)
        then have w2: "w \<le> length s2" using w1 by (simp add: unchanged_below_def)
        from u1 u2 have u12: "unchanged_below w s s2" by (rule unchanged_trans)
        show ?thesis
        proof (cases r2)
          case (Inl e)
          with Suc.prems(2) guard leg Inr Some tp add have "s' = s2" by simp
          with u12 show ?thesis by simp
        next
          case (Inr u)
          with Suc.prems(2) guard leg \<open>r1 = Inr best\<close> Some tp add have
            rest: "route_loop_st set_order self movement_type points (i + 1) path
                     used_segments best_target s2 = Some (r, s')" by simp
          from Suc(2) have "n = length points - 1 - (i + 1)" by simp
          from Suc(1) [OF this w2 rest] u12 show ?thesis by (blast intro: unchanged_trans)
        qed
      qed
    qed
  qed
qed

lemma local_add_closing:
  "w \<le> path \<Longrightarrow> local_only w (add_closing_st self movement_type points path last_node)"
  unfolding add_closing_st_def
  by (auto intro!: local_bnd local_add_segment local_reads split: option.split)

lemma local_find_path: "local_only w (find_path_st set_order self points movement_type)"
  unfolding find_path_st_def
  by (auto intro!: local_bnd local_alloc_bnd local_add_segment local_set_add local_route_loop
      local_add_closing local_reads split: option.split list.split prod.split)

subsection \<open>The heap: a run on the stub network, and what a call reads and returns\<close>

lemma read_self_at:
  "self < length s \<Longrightarrow> s ! self = AirportObj c b l g (airport_config a) \<Longrightarrow>
   c < length s \<Longrightarrow> s ! c = ConfigObj (config a) \<Longrightarrow>
   b < length s \<Longrightarrow> s ! b = IndexObj (segments_by_name a) \<Longrightarrow>
   l < length s \<Longrightarrow> s ! l = SegmentsObj (all_segments a) \<Longrightarrow>
   g < length s \<Longrightarrow> s ! g = GraphObj (graph a) \<Longrightarrow>
   read_self self s = Some (Inr a, s)"
  by (simp add: read_self_def load_config_def load_index_def load_segments_def
      load_graph_def bnd_def load_def ret_def)

lemma stub_read:
  "s = ConfigObj (config stub_airport) # IndexObj (segments_by_name stub_airport) #
       SegmentsObj (all_segments stub_airport) # GraphObj (graph stub_airport) #
       AirportObj 0 (Suc 0) (Suc (Suc 0)) (Suc (Suc (Suc 0))) ''EAST'' # rest \<Longrightarrow>
   read_self (Suc (Suc (Suc (Suc 0)))) s = Some (Inr stub_airport, s)"
  by (rule read_self_at [where c = 0 and b = "Suc 0" and l = "Suc (Suc 0)"
        and g = "Suc (Suc (Suc 0))"])
     (simp_all add: stub_airport_def load_data_def split: prod.split)

lemmas heap_eval = bnd_def ret_def throw_def bad_reference_def alloc_def load_def assign_def
  lift_def load_set_def load_path_def load_distances_def load_queue_def set_add_st_def
  add_segment_st_def

lemmas run_eval = find_path_st_def route_loop_st.simps add_path_segments_st_def
  add_closing_st_def find_leg_st_def get_segment_nodes_st_def dijkstra_multi_target_st_def
  dijkstra_loop_st.simps dijkstra_step_def relax_st_def set_iter_def
  heap_eval stub_read airport_heap_def
  validate_movement_def gate_found_def first_leg_def touches_def TaxiPath_init_def
  closing_node_def closing_segment_def
  pinned_node_def segs_named_def set_add_def init_pq_def heappop_def find_segment_def
  runway_config_def seg_def stub_simps numeral_eq_Suc

lemma stub_run:
  "\<exists>s'. find_path_st id 4 [''K24'', ''W2'', ''W37''] DEPARTURE (airport_heap stub_airport)
           = Some (Inr (Some 5), s') \<and>
        s' ! 5 = PathObj \<lparr>segments = [''S0'', ''S0'', ''S1'', ''S2'', ''S2''],
                          total_distance = 220, waypoints = []\<rparr>"
  by (simp add: run_eval)

lemma bndE:
  assumes "bnd m f s = Some (r, s')"
  obtains e where "m s = Some (Inl e, s')" and "r = Inl e"
  | x s1 where "m s = Some (Inr x, s1)" and "f x s1 = Some (r, s')"
  using assms by (auto simp add: bnd_def split: option.splits sum.splits)

lemmas read_defs = read_self_def load_config_def load_index_def load_segments_def
  load_graph_def bnd_def load_def ret_def bad_reference_def

lemma read_self_same: "read_self self s = Some (r, s1) \<Longrightarrow> s1 = s"
  by (auto simp add: read_defs split: obj.splits if_splits)

lemma read_self_returns: "\<exists>r. read_self self s = Some (r, s)"
  by (auto simp add: read_defs split: obj.splits)

lemma lift_same: "lift x s = Some (r, s1) \<Longrightarrow> s1 = s"
  by (cases x) (auto simp add: lift_def throw_def ret_def)

lemma read_self_unchanged:
  assumes same: "unchanged_below (length s) s s'"
    and rd: "read_self self s = Some (Inr a, s1)"
  shows "read_self self s' = Some (Inr a, s')"
proof -
  from same have len: "length s \<le> length s'" and nth: "\<And>p. p < length s \<Longrightarrow> s' ! p = s ! p"
    by (simp_all add: unchanged_below_def)
  from rd show ?thesis
    using len
    by (auto simp add: read_defs nth split: obj.splits if_splits)
qed

lemma find_path_result:
  assumes run: "find_path_st set_order self points movement_type s = Some (Inr (Some path), s')"
  shows "path = length s"
proof -
  from run [unfolded find_path_st_def] obtain a s1 where
    r1: "read_self self s = Some (Inr a, s1)" and
    k1: "bnd (lift (validate_movement a movement_type points)) (\<lambda>valid.
       if \<not> valid then ret None
       else
         bnd (alloc (PathObj TaxiPath_init)) (\<lambda>path.
         bnd (alloc (SetObj [])) (\<lambda>used_segments.
         bnd (read_self self) (\<lambda>a.
           case segs_named a (hd points) of
             [] \<Rightarrow> ret None
           | seg0 # rest \<Rightarrow>
               (case first_leg a movement_type points seg0 rest of
                  (first_segment, first_node, gate_node) \<Rightarrow>
                    bnd (add_segment_st path (segment_id first_segment)
                           (length' first_segment)) (\<lambda>_.
                    bnd (if movement_type = DEPARTURE \<and> Some first_node = gate_node
                         then ret ()
                         else set_add_st used_segments (segment_id first_segment)) (\<lambda>_.
                    bnd (route_loop_st set_order self movement_type points 0 path
                           used_segments first_node) (\<lambda>reached.
                      case reached of
                        None \<Rightarrow> ret None
                      | Some last_node \<Rightarrow>
                          bnd (add_closing_st self movement_type points path last_node)
                            (\<lambda>_. ret (Some path)))))))))) s1 = Some (Inr (Some path), s')"
    by (rule bndE) auto
  from r1 have s1: "s1 = s" by (rule read_self_same)
  from k1 obtain valid s2 where
    r2: "lift (validate_movement a movement_type points) s1 = Some (Inr valid, s2)" and
    k2: "(if \<not> valid then ret None
       else
         bnd (alloc (PathObj TaxiPath_init)) (\<lambda>path.
         bnd (alloc (SetObj [])) (\<lambda>used_segments.
         bnd (read_self self) (\<lambda>a.
           case segs_named a (hd points) of
             [] \<Rightarrow> ret None
           | seg0 # rest \<Rightarrow>
               (case first_leg a movement_type points seg0 rest of
                  (first_segment, first_node, gate_node) \<Rightarrow>
                    bnd (add_segment_st path (segment_id first_segment)
                           (length' first_segment)) (\<lambda>_.
                    bnd (if movement_type = DEPARTURE \<and> Some first_node = gate_node
                         then ret ()
                         else set_add_st used_segments (segment_id first_segment)) (\<lambda>_.
                    bnd (route_loop_st set_order self movement_type points 0 path
                           used_segments first_node) (\<lambda>reached.
                      case reached of
                        None \<Rightarrow> ret None
                      | Some last_node \<Rightarrow>
                          bnd (add_closing_st self movement_type points path last_node)
                            (\<lambda>_. ret (Some path)))))))))) s2 = Some (Inr (Some path), s')"
    by (rule bndE) auto
  from r2 have s2: "s2 = s1" by (rule lift_same)
  from k2 have valid by (auto simp add: ret_def split: if_splits)
  with k2 show ?thesis unfolding s2 s1
    by (auto simp add: ret_def alloc_def elim!: bndE split: list.splits prod.splits option.splits)
qed

subsection \<open>C8: the frame of a call\<close>

text \<open>
  C8.  When a call of \<open>find_path\<close> on the object at \<open>self\<close> returns, with a path, with no
  result or with an exception, the heap before the call is the initial part of the heap after
  it: every object that existed before the call is as it was, so every object the call
  assigned to (distances, queue, found targets, target sets, used-segment set, path) was
  created by the call.  The \<open>Airport\<close> read through \<open>self\<close> is the same after as before:
  the same adjacency, segment list, name index, configuration and active configuration
  name.  The path the call returns is an object that did not exist before it.
\<close>

theorem find_path_frame:
  assumes run: "find_path_st set_order self points movement_type s = Some (outcome, s')"
  shows "take (length s) s' = s \<and>
         airport_at s' self = airport_at s self \<and>
         (\<forall>path. outcome = Inr (Some path) \<longrightarrow> length s \<le> path)"
proof -
  from local_find_path [of "length s"] run have same: "unchanged_below (length s) s s'"
    by (simp add: local_only_def)
  then have 1: "take (length s) s' = s"
    by (auto simp add: unchanged_below_def intro: nth_equalityI)
  obtain r where rd: "read_self self s = Some (r, s)"
    using read_self_returns by blast
  have 2: "airport_at s' self = airport_at s self"
  proof (cases r)
    case (Inl e)
    with run rd have "s' = s" by (simp add: find_path_st_def bnd_def)
    then show ?thesis by simp
  next
    case (Inr a)
    with read_self_unchanged [OF same] rd show ?thesis by (simp add: airport_at_def)
  qed
  have 3: "\<forall>path. outcome = Inr (Some path) \<longrightarrow> length s \<le> path"
    using run by (auto dest: find_path_result)
  from 1 2 3 show ?thesis by (intro conjI) assumption+
qed

theorem find_path_frame_witness:
  "\<exists>s'. find_path_st id 4 [''K24'', ''W2'', ''W37''] DEPARTURE (airport_heap stub_airport)
           = Some (Inr (Some 5), s') \<and>
        s' ! 5 = PathObj \<lparr>segments = [''S0'', ''S0'', ''S1'', ''S2'', ''S2''],
                          total_distance = 220, waypoints = []\<rparr> \<and>
        take 5 s' = airport_heap stub_airport \<and>
        airport_at s' 4 = Some stub_airport \<and>
        length (airport_heap stub_airport) \<le> 5"
proof -
  from stub_run obtain s' where
    run: "find_path_st id 4 [''K24'', ''W2'', ''W37''] DEPARTURE (airport_heap stub_airport)
            = Some (Inr (Some 5), s')"
    and path: "s' ! 5 = PathObj \<lparr>segments = [''S0'', ''S0'', ''S1'', ''S2'', ''S2''],
                                 total_distance = 220, waypoints = []\<rparr>"
    by blast
  have len: "length (airport_heap stub_airport) = 5"
    by (simp add: airport_heap_def)
  have self: "airport_at (airport_heap stub_airport) 4 = Some stub_airport"
    by (simp add: airport_at_def stub_read airport_heap_def stub_simps numeral_eq_Suc)
  note inst = find_path_frame [OF run]
  from inst have t: "take 5 s' = airport_heap stub_airport" by (simp add: len)
  from inst self have a: "airport_at s' 4 = Some stub_airport" by simp
  from inst [THEN conjunct2, THEN conjunct2] have
    f: "length (airport_heap stub_airport) \<le> 5" by simp
  from run path t a f show ?thesis by blast
qed

subsection \<open>The exported configuration: lemmas\<close>

lemma exported_validate:
  "active = ''WEST'' \<or> active = ''EAST'' \<Longrightarrow>
   validate_movement (load_data (export_config st) fs active) ARRIVAL (w1 # w2 # ws) = Inl ValueError"
  by (auto simp: validate_movement_def load_data_def runway_config_def export_config_def
      runway_configs_def split: prod.splits)

subsection \<open>C1: the exported configuration and the router\<close>

text \<open>
  C1.  The configuration that \<open>export_config\<close> writes lists entrances and exits as
  names.  The router unpacks every element into a pair: \<open>W34\<close> has three characters, so
  the unpacking raises \<open>ValueError\<close>.  On the exported configuration, whatever the
  processor's state and the network, every arrival request with two or more waypoints ends
  with that exception in \<open>validate_movement\<close>, for \<open>WEST\<close> and for \<open>EAST\<close>.
\<close>

theorem exported_config_not_readable:
  "unpack2 (Bare ''W34'') = Inl ValueError \<and>
   find_path set_order (load_data (export_config st) fs ''WEST'') (w1 # w2 # ws) ARRIVAL
     = Some (Inl ValueError) \<and>
   find_path set_order (load_data (export_config st) fs ''EAST'') (w1 # w2 # ws) ARRIVAL
     = Some (Inl ValueError)"
  by (simp add: find_path_def route_legs_def exported_validate)

subsection \<open>Loading: lemmas\<close>

lemma by_name_append_index:
  "by_name_append (index_by_name segs) s = index_by_name (segs @ [s])"
  by (rule ext) (auto simp: by_name_append_def index_by_name_def split: option.splits)

lemma process_features_spec:
  "process_features fs (index_by_name segs, segs)
     = (index_by_name (segs @ named_segments fs), segs @ named_segments fs)"
proof (induction fs arbitrary: segs)
  case Nil
  then show ?case by (simp add: named_segments_def)
next
  case (Cons f fs)
  show ?case
  proof (cases f)
    case (LineString props)
    show ?thesis
    proof (cases "named props")
      case True
      have "process_features (f # fs) (index_by_name segs, segs)
              = process_features fs (index_by_name (segs @ [make_segment props]), segs @ [make_segment props])"
        using True LineString by (simp add: by_name_append_index)
      also have "\<dots> = (index_by_name ((segs @ [make_segment props]) @ named_segments fs),
                       (segs @ [make_segment props]) @ named_segments fs)"
        by (rule Cons.IH)
      finally show ?thesis using True LineString by (simp add: named_segments_def)
    next
      case False
      then show ?thesis using LineString Cons.IH [of segs] by (simp add: named_segments_def)
    qed
  next
    case OtherGeometry
    then show ?thesis using Cons.IH [of segs] by (simp add: named_segments_def)
  qed
qed

lemma graph_add_spec:
  "graph_add (adjacency_of segs) s = adjacency_of (segs @ [s])"
  by (rule ext)
    (auto simp: graph_add_def adjacency_of_def edges_at_def adj_of_def Let_def touches_def
      list_ex_iff dom_def)

lemma fold_graph_add:
  "fold (\<lambda>s g. graph_add g s) segs (adjacency_of pre) = adjacency_of (pre @ segs)"
proof (induction segs arbitrary: pre)
  case Nil
  then show ?case by simp
next
  case (Cons s segs)
  show ?case using Cons.IH [of "pre @ [s]"] by (simp add: graph_add_spec)
qed

lemma build_graph_spec: "build_graph segs = adjacency_of segs"
proof -
  have "adjacency_of [] = Map.empty"
    by (rule ext) (simp add: adjacency_of_def)
  then show ?thesis
    using fold_graph_add [of segs "[]"] by (simp add: build_graph_def)
qed

lemma load_data_spec:
  "all_segments (load_data cfg fs active) = named_segments fs"
  "segments_by_name (load_data cfg fs active) = index_by_name (named_segments fs)"
  "graph (load_data cfg fs active) = adjacency_of (named_segments fs)"
  "config (load_data cfg fs active) = cfg"
  "airport_config (load_data cfg fs active) = active"
proof -
  have e: "index_by_name [] = Map.empty"
    by (rule ext) (simp add: index_by_name_def)
  have "process_features fs (Map.empty, []) = (index_by_name (named_segments fs), named_segments fs)"
    using process_features_spec [of fs "[]"] by (simp add: e)
  then show "all_segments (load_data cfg fs active) = named_segments fs"
  "segments_by_name (load_data cfg fs active) = index_by_name (named_segments fs)"
  "graph (load_data cfg fs active) = adjacency_of (named_segments fs)"
  "config (load_data cfg fs active) = cfg"
  "airport_config (load_data cfg fs active) = active"
    by (simp_all add: load_data_def build_graph_spec)
qed

lemma named_segments_name: "s \<in> set (named_segments fs) \<Longrightarrow> name s \<noteq> []"
  by (auto simp: named_segments_def make_segment_def split: option.splits)


lemma find_segment_SomeD:
  "find_segment a sid = Some s \<Longrightarrow> s \<in> set (all_segments a) \<and> segment_id s = sid"
  by (auto simp: find_segment_def find_Some_iff)

lemma first_leg_member:
  "first_leg a mt points seg0 rest = (fs, fn, gn) \<Longrightarrow> fs \<in> set (seg0 # rest)"
  by (auto simp: first_leg_def find_Some_iff split: MovementType.splits option.splits if_splits)

lemma route_loop_known:
  assumes "route_loop so a mt points i (path, used, last_node)
             = Some (Inr (Some (path', used', last')))"
    and "sid \<in> set (segments path')"
  shows "sid \<in> set (segments path) \<or> (\<exists>s \<in> set (all_segments a). segment_id s = sid)"
proof -
  from route_loop_legs [OF assms(1)] obtain legs where
    1: "segments path' = segments path @ concat legs"
    and 2: "\<forall>j < length legs. \<exists>u l t.
         find_leg so a mt points (i + j) u l = Some (Inr (Some (t, legs ! j)))"
    by blast
  show ?thesis
  proof (cases "sid \<in> set (segments path)")
    case True
    then show ?thesis by simp
  next
    case False
    with assms(2) 1 obtain leg where "leg \<in> set legs" "sid \<in> set leg" by auto
    then obtain j where "j < length legs" "sid \<in> set (legs ! j)"
      by (auto simp: in_set_conv_nth)
    with 2 find_leg_names obtain s where "find_segment a sid = Some s" by blast
    then show ?thesis using find_segment_SomeD by blast
  qed
qed

lemma find_path_known:
  assumes sound: "\<And>n ss. segments_by_name a n = Some ss \<Longrightarrow> set ss \<subseteq> set (all_segments a)"
    and res: "find_path so a points mt = Some (Inr (Some p))"
    and sid: "sid \<in> set (segments p)"
  shows "\<exists>s \<in> set (all_segments a). segment_id s = sid"
proof -
  have named: "set (segs_named a w) \<subseteq> set (all_segments a)" for w
  proof (cases "segments_by_name a w")
    case None
    then show ?thesis by (simp add: segs_named_def)
  next
    case (Some ss)
    with sound [OF Some] show ?thesis by (simp add: segs_named_def)
  qed
  from res obtain path used last_node where
    legs: "route_legs so a points mt = Some (Inr (Some (path, used, last_node)))"
    and closing: "add_closing a mt points path last_node = Inr p"
    by (auto simp: find_path_def split: option.splits sum.splits)
  from legs obtain seg0 rest fs fn gn u0 where
    first: "segs_named a (hd points) = seg0 # rest"
      "first_leg a mt points seg0 rest = (fs, fn, gn)"
    and loop: "route_loop so a mt points 0
                 (add_segment TaxiPath_init (segment_id fs) (length' fs), u0, fn)
               = Some (Inr (Some (path, used, last_node)))"
    by (auto simp: route_legs_def simp del: route_loop.simps
        split: sum.splits bool.splits list.splits prod.splits)
  have fs: "fs \<in> set (all_segments a)"
    using first_leg_member [OF first(2)] first(1) named [of "hd points"] by auto
  have path: "\<exists>s \<in> set (all_segments a). segment_id s = x" if "x \<in> set (segments path)" for x
    using route_loop_known [OF loop that] fs
    by (auto simp: add_segment_def TaxiPath_init_def)
  from closing have "segments p = segments path \<or>
      (\<exists>seg \<in> set (segs_named a (last points)). segments p = segments path @ [segment_id seg])"
    by (auto simp: add_closing_def closing_segment_def add_segment_def find_Some_iff
        split: sum.splits option.splits if_splits)
  then show ?thesis
  proof
    assume "segments p = segments path"
    with sid path show ?thesis by simp
  next
    assume "\<exists>seg \<in> set (segs_named a (last points)). segments p = segments path @ [segment_id seg]"
    then obtain seg where "seg \<in> set (segs_named a (last points))"
      "segments p = segments path @ [segment_id seg]" by blast
    with sid path named [of "last points"] show ?thesis by auto
  qed
qed

lemma index_by_name_sound:
  "index_by_name segs n = Some ss \<Longrightarrow> set ss \<subseteq> set segs"
  by (auto simp: index_by_name_def split: if_splits)

subsection \<open>C10: segments without a name are not loaded\<close>

text \<open>
  C10.  The airport built by \<open>_load_data\<close> holds exactly the segments of the
  \<open>LineString\<close> features with a non-empty name: \<open>all_segments\<close> lists them, the name
  index and the adjacency are built from them alone, no segment has the empty name and the
  index has no entry for it.  A feature without a name (or with the empty name) puts no
  segment into \<open>all_segments\<close>; and when no named feature carries its id, no adjacency
  entry carries it and no successful route contains it.
\<close>

theorem unnamed_segments_absent:
  fixes cfg :: Config and fs :: "Feature list" and active :: string
  defines "a \<equiv> load_data cfg fs active"
  shows "all_segments a = named_segments fs \<and>
    segments_by_name a = index_by_name (all_segments a) \<and>
    graph a = adjacency_of (all_segments a) \<and>
    (\<forall>s \<in> set (all_segments a). name s \<noteq> []) \<and>
    segments_by_name a [] = None \<and>
    (\<forall>props. LineString props \<in> set fs \<longrightarrow> \<not> named props \<longrightarrow>
       make_segment props \<notin> set (all_segments a) \<and>
       (p_segment_id props \<notin> segment_id ` set (all_segments a) \<longrightarrow>
          (\<forall>n es e. graph a n = Some es \<longrightarrow> e \<in> set es \<longrightarrow> fst (snd e) \<noteq> p_segment_id props) \<and>
          (\<forall>set_order points movement_type p.
             find_path set_order a points movement_type = Some (Inr (Some p)) \<longrightarrow>
             p_segment_id props \<notin> set (segments p))))"
proof -
  have 1: "all_segments a = named_segments fs"
    and 2: "segments_by_name a = index_by_name (all_segments a)"
    and 3: "graph a = adjacency_of (all_segments a)"
    by (simp_all add: a_def load_data_spec)
  have 4: "\<forall>s \<in> set (all_segments a). name s \<noteq> []"
    using 1 named_segments_name by auto
  have 5: "segments_by_name a [] = None"
    using 2 4 by (auto simp: index_by_name_def filter_empty_conv)
  have 6: "make_segment props \<notin> set (all_segments a)" if "\<not> named props" for props
  proof
    assume "make_segment props \<in> set (all_segments a)"
    with 4 have "name (make_segment props) \<noteq> []" by blast
    with that show False by (auto simp: make_segment_def split: option.splits)
  qed
  have 7: "fst (snd e) \<noteq> sid"
    if "sid \<notin> segment_id ` set (all_segments a)" "graph a n = Some es" "e \<in> set es"
    for sid n es e
    using that unfolding 3 by (auto simp: adjacency_of_def edges_at_def split: if_splits)
  have 8: "sid \<notin> set (segments p)"
    if "sid \<notin> segment_id ` set (all_segments a)"
      "find_path so a points mt = Some (Inr (Some p))" for sid so points mt p
  proof
    assume "sid \<in> set (segments p)"
    from find_path_known [OF _ that(2) this] 2 index_by_name_sound
    have "\<exists>s \<in> set (all_segments a). segment_id s = sid" by auto
    with that(1) show False by auto
  qed
  from 1 2 3 4 5 6 7 8 show ?thesis by blast
qed

lemma load_data_eq:
  "load_data cfg fs active =
     \<lparr>config = cfg, segments_by_name = index_by_name (named_segments fs),
      all_segments = named_segments fs, graph = adjacency_of (named_segments fs),
      airport_config = active\<rparr>"
proof -
  have e: "index_by_name [] = Map.empty"
    by (rule ext) (simp add: index_by_name_def)
  have "process_features fs (Map.empty, [])
          = (index_by_name (named_segments fs), named_segments fs)"
    using process_features_spec [of fs "[]"] by (simp add: e)
  then show ?thesis by (simp add: load_data_def build_graph_spec)
qed

lemma export_unnamed: "export_segment unnamed_link = LineString unnamed_props"
  by (simp add: export_segment_def unnamed_link_def unnamed_props_def segment_name_of_def
      segment_type_of_def)

lemma unnamed_same_airport:
  "load_data stub_config stub_features_unnamed ''EAST'' = stub_airport"
proof -
  have "named_segments stub_features_unnamed = named_segments stub_features"
    by (simp add: named_segments_def stub_features_unnamed_def export_unnamed unnamed_props_def)
  then show ?thesis by (simp add: stub_airport_def load_data_eq)
qed

theorem unnamed_segments_absent_witness:
  "LineString unnamed_props \<in> set stub_features_unnamed \<and> \<not> named unnamed_props \<and>
   all_segments (load_data stub_config stub_features_unnamed ''EAST'') =
     [seg ''S0'' ''K24'' ''G0'' ''A0'' 10 ''parking_position'',
      seg ''S1'' ''W2'' ''A0'' ''B0'' 100 ''taxiway'',
      seg ''S2'' ''W37'' ''B0'' ''E0'' 50 ''taxiway''] \<and>
   make_segment unnamed_props
     \<notin> set (all_segments (load_data stub_config stub_features_unnamed ''EAST'')) \<and>
   graph (load_data stub_config stub_features_unnamed ''EAST'') ''B0''
     = Some [(''A0'', ''S1'', 100), (''E0'', ''S2'', 50)] \<and>
   ''S1'' \<noteq> p_segment_id unnamed_props \<and> ''S2'' \<noteq> p_segment_id unnamed_props \<and>
   find_path id (load_data stub_config stub_features_unnamed ''EAST'')
       [''K24'', ''W2'', ''W37''] DEPARTURE
     = Some (Inr (Some \<lparr>segments = [''S0'', ''S0'', ''S1'', ''S2'', ''S2''],
                      total_distance = 220, waypoints = []\<rparr>)) \<and>
   p_segment_id unnamed_props \<notin> set [''S0'', ''S0'', ''S1'', ''S2'', ''S2'']"
proof -
  let ?a = "load_data stub_config stub_features_unnamed ''EAST''"
  note inst = unnamed_segments_absent [of stub_config stub_features_unnamed "''EAST''"]
  have mem: "LineString unnamed_props \<in> set stub_features_unnamed"
    by (simp add: stub_features_unnamed_def export_unnamed)
  have unnamed: "\<not> named unnamed_props" by (simp add: unnamed_props_def)
  have segs: "all_segments ?a =
     [seg ''S0'' ''K24'' ''G0'' ''A0'' 10 ''parking_position'',
      seg ''S1'' ''W2'' ''A0'' ''B0'' 100 ''taxiway'',
      seg ''S2'' ''W37'' ''B0'' ''E0'' 50 ''taxiway'']"
    by (simp add: unnamed_same_airport stub_segs)
  have fresh: "p_segment_id unnamed_props \<notin> segment_id ` set (all_segments ?a)"
    by (simp add: segs seg_def unnamed_props_def)
  have g: "graph ?a ''B0'' = Some [(''A0'', ''S1'', 100), (''E0'', ''S2'', 50)]"
    by (simp add: unnamed_same_airport stub_graph)
  have path: "find_path id ?a [''K24'', ''W2'', ''W37''] DEPARTURE
     = Some (Inr (Some \<lparr>segments = [''S0'', ''S0'', ''S1'', ''S2'', ''S2''],
                      total_distance = 220, waypoints = []\<rparr>))"
    by (simp add: unnamed_same_airport stub_W37_path)
  from inst have "\<forall>props. LineString props \<in> set stub_features_unnamed \<longrightarrow> \<not> named props \<longrightarrow>
       make_segment props \<notin> set (all_segments ?a) \<and>
       (p_segment_id props \<notin> segment_id ` set (all_segments ?a) \<longrightarrow>
          (\<forall>n es e. graph ?a n = Some es \<longrightarrow> e \<in> set es \<longrightarrow> fst (snd e) \<noteq> p_segment_id props) \<and>
          (\<forall>set_order points movement_type p.
             find_path set_order ?a points movement_type = Some (Inr (Some p)) \<longrightarrow>
             p_segment_id props \<notin> set (segments p)))"
    by (elim conjE)
  note B = this [rule_format, OF mem unnamed]
  note 1 = B [THEN conjunct1]
  note C = B [THEN conjunct2, rule_format, OF fresh]
  note D = C [THEN conjunct1, rule_format, OF g]
  have 2: "''S1'' \<noteq> p_segment_id unnamed_props \<and> ''S2'' \<noteq> p_segment_id unnamed_props"
    using D [of "(''A0'', ''S1'', 100)"] D [of "(''E0'', ''S2'', 50)"] by simp
  have 3: "p_segment_id unnamed_props \<notin> set [''S0'', ''S0'', ''S1'', ''S2'', ''S2'']"
    using C [THEN conjunct2, rule_format, OF path] by simp
  show ?thesis
    using mem unnamed segs 1 g 2 path 3 by (intro conjI) (assumption | erule conjunct1 | erule conjunct2)+
qed

subsection \<open>Node creation: lemmas\<close>

lemma digit_val_char: "d < 10 \<Longrightarrow> digit_val (digit_char d) = d"
proof -
  assume "d < 10"
  then consider "d = 0" | "d = 1" | "d = 2" | "d = 3" | "d = 4" | "d = 5" | "d = 6"
    | "d = 7" | "d = 8" | "d = 9"
    by atomize_elim arith
  then show ?thesis
    by cases (simp_all add: digit_val_def digit_char_def eval_nat_numeral)
qed

lemma decimal_value_snoc: "decimal_value (ds @ [c]) = 10 * decimal_value ds + digit_val c"
  by (simp add: decimal_value_def)

lemma decimal_value_decimal: "decimal_value (decimal n) = n"
proof (induction n rule: decimal.induct)
  case (1 n)
  show ?case
  proof (cases "n < 10")
    case True
    then show ?thesis
      by (subst decimal.simps) (simp add: decimal_value_def digit_val_char)
  next
    case False
    then have "decimal_value (decimal n) = 10 * decimal_value (decimal (n div 10)) + digit_val (digit_char (n mod 10))"
      by (subst decimal.simps) (simp add: decimal_value_snoc)
    also have "\<dots> = 10 * (n div 10) + n mod 10"
      using "1.IH" [OF False] by (simp add: digit_val_char)
    finally show ?thesis by simp
  qed
qed

lemma decimal_value_zeros: "decimal_value (replicate k CHR ''0'' @ ds) = decimal_value ds"
proof -
  have "foldl (\<lambda>acc c. 10 * acc + digit_val c) 0 (replicate k CHR ''0'') = 0"
    by (induction k) (simp_all add: digit_val_def)
  then show ?thesis by (simp add: decimal_value_def)
qed

lemma fmt05_value: "decimal_value (fmt05 k) = k"
  by (simp add: fmt05_def decimal_value_zeros decimal_value_decimal)

lemma fmt05_inj: "fmt05 i = fmt05 j \<Longrightarrow> i = j"
  by (metis fmt05_value)

lemma dict_get_None_iff: "dict_get d k = None \<longleftrightarrow> k \<notin> fst ` set d"
  by (induction d) (auto simp: image_iff split: if_splits)

lemma dict_set_fresh: "k \<notin> fst ` set d \<Longrightarrow> dict_set d k v = d @ [(k, v)]"
  by (induction d) auto

lemma dict_get_set: "dict_get (dict_set d k v) k' = (if k' = k then Some v else dict_get d k')"
  by (induction d) auto

lemma numbered_Nil: "numbered [] = []"
  by (simp add: numbered_def)

lemma numbered_snoc: "numbered (keys @ [k]) = numbered keys @ [(k, new_node (length keys) k)]"
  by (simp add: numbered_def nth_append)

lemma fst_numbered: "map fst (numbered keys) = keys"
  by (simp add: numbered_def map_nth comp_def)

lemma fst_by_id_numbered: "map fst (by_id (numbered keys)) = node_ids (length keys)"
  by (simp add: by_id_def numbered_def node_ids_def new_node_def comp_def)

lemma node_id_fresh: "''N'' @ fmt05 n \<notin> set (node_ids n)"
  by (auto simp: node_ids_def dest: fmt05_inj)

lemma create_nodes_spec:
  "create_nodes pts (numbered keys, by_id (numbered keys)) =
     (numbered (first_occurrences keys (map round_point pts)),
      by_id (numbered (first_occurrences keys (map round_point pts))))"
proof (induction pts arbitrary: keys)
  case Nil
  then show ?case by (simp add: first_occurrences_def)
next
  case (Cons pt pts)
  show ?case
  proof (cases "round_point pt \<in> set keys")
    case True
    then have "round_point pt \<in> fst ` set (numbered keys)"
      using fst_numbered [of keys] by (metis set_map)
    then have "dict_get (numbered keys) (round_point pt) \<noteq> None"
      by (simp add: dict_get_None_iff)
    then show ?thesis using Cons.IH [of keys] True by (auto simp: first_occurrences_def)
  next
    case False
    then have fresh: "round_point pt \<notin> fst ` set (numbered keys)"
      using fst_numbered [of keys] by (metis set_map)
    have fresh_id: "''N'' @ fmt05 (length keys) \<notin> fst ` set (by_id (numbered keys))"
      using node_id_fresh [of "length keys"] fst_by_id_numbered [of keys] by (metis set_map)
    have len: "length (numbered keys) = length keys" by (simp add: numbered_def)
    have "create_nodes (pt # pts) (numbered keys, by_id (numbered keys)) =
          create_nodes pts (numbered (keys @ [round_point pt]), by_id (numbered (keys @ [round_point pt])))"
      using fresh fresh_id
      by (simp add: dict_get_None_iff [THEN iffD2] dict_set_fresh len numbered_snoc by_id_def new_node_def)
    also have "\<dots> = (numbered (first_occurrences (keys @ [round_point pt]) (map round_point pts)),
      by_id (numbered (first_occurrences (keys @ [round_point pt]) (map round_point pts))))"
      by (rule Cons.IH)
    finally show ?thesis using False by (simp add: first_occurrences_def)
  qed
qed

lemma first_occurrences_distinct:
  "distinct seen \<Longrightarrow> distinct (first_occurrences seen xs)"
  unfolding first_occurrences_def by (induction xs arbitrary: seen) auto

lemma first_occurrences_set:
  "set (first_occurrences seen xs) = set seen \<union> set xs"
  unfolding first_occurrences_def by (induction xs arbitrary: seen) auto


lemma filter_key_count:
  "length (filter (\<lambda>kn. n_coordinates (snd kn) = k) (numbered keys))
     = length (filter (\<lambda>c. c = k) keys)"
  by (induction keys rule: rev_induct) (simp_all add: numbered_snoc new_node_def numbered_Nil)

lemma filter_key_one:
  assumes "distinct keys" and "k \<in> set keys"
  shows "length (filter (\<lambda>n. n_coordinates n = k) (map snd (numbered keys))) = 1"
proof -
  have "length (filter (\<lambda>c. c = k) keys) = 1"
    using assms by (induction keys) (auto simp: filter_empty_conv)
  moreover have "length (filter (\<lambda>n. n_coordinates n = k) (map snd (numbered keys)))
      = length (filter (\<lambda>kn. n_coordinates (snd kn) = k) (numbered keys))"
    by (simp add: filter_map comp_def)
  ultimately show ?thesis by (simp only: filter_key_count)
qed

lemma round_half_even_nearest: "nearest_even x (round_half_even x)"
proof -
  have lo: "of_int \<lfloor>x\<rfloor> \<le> x" and hi: "x < of_int \<lfloor>x\<rfloor> + 1" by linarith+
  show ?thesis
    unfolding nearest_even_def round_half_even_def using lo hi by auto
qed

lemma nearest_even_unique:
  assumes "nearest_even x k" and "nearest_even x k'"
  shows "k = k'"
proof (rule ccontr)
  assume ne: "k \<noteq> k'"
  from assms have b: "\<bar>of_int k - x\<bar> \<le> 1 / 2" "\<bar>of_int k' - x\<bar> \<le> 1 / 2"
    by (simp_all add: nearest_even_def)
  then have "\<bar>(of_int k :: real) - of_int k'\<bar> \<le> 1" by linarith
  then have "\<bar>of_int (k - k') :: real\<bar> \<le> 1" by simp
  then have "\<bar>k - k'\<bar> \<le> 1" by linarith
  with ne have d: "k = k' + 1 \<or> k' = k + 1" by linarith
  then have "\<bar>(of_int k :: real) - of_int k'\<bar> = 1" by auto
  with b have "\<bar>of_int k - x\<bar> = 1 / 2" "\<bar>of_int k' - x\<bar> = 1 / 2" by linarith+
  with assms have "even k" "even k'" by (simp_all add: nearest_even_def)
  with d show False by auto
qed

lemma rounded_to_7_digits_unique:
  "rounded_to_7_digits x r \<Longrightarrow> rounded_to_7_digits x r' \<Longrightarrow> r = r'"
  by (auto simp add: rounded_to_7_digits_def dest: nearest_even_unique)

lemma py_round_7: "rounded_to_7_digits x (py_round x 7)"
  unfolding rounded_to_7_digits_def py_round_def
  by (rule exI [of _ "round_half_even (x * 10 ^ 7)"]) (simp add: round_half_even_nearest)

lemma filter_keys_count:
  "length (filter (\<lambda>kn. P (n_coordinates (snd kn))) (numbered keys)) = length (filter P keys)"
  by (induction keys rule: rev_induct) (simp_all add: numbered_snoc new_node_def numbered_Nil)

lemma filter_two_keys:
  assumes "distinct keys" and "k1 \<in> set keys" and "k2 \<in> set keys"
  shows "length (filter (\<lambda>n. n_coordinates n = k1 \<or> n_coordinates n = k2)
                   (map snd (numbered keys))) = (if k1 = k2 then 1 else 2)"
proof -
  have one: "length (filter (\<lambda>c. c = k) keys) = (if k \<in> set keys then 1 else 0)" for k
    using assms(1) by (induction keys) auto
  have two: "length (filter (\<lambda>c. c = k1 \<or> c = k2) keys) =
      length (filter (\<lambda>c. c = k1) keys) + length (filter (\<lambda>c. c = k2) keys)" if "k1 \<noteq> k2"
    using that by (induction keys) auto
  have "length (filter (\<lambda>c. c = k1 \<or> c = k2) keys) = (if k1 = k2 then 1 else 2)"
    using assms(2,3) one two by (cases "k1 = k2") simp_all
  moreover have "length (filter (\<lambda>n. n_coordinates n = k1 \<or> n_coordinates n = k2)
                           (map snd (numbered keys)))
      = length (filter (\<lambda>kn. n_coordinates (snd kn) = k1 \<or> n_coordinates (snd kn) = k2)
                  (numbered keys))"
    by (simp add: filter_map comp_def)
  ultimately show ?thesis
    using filter_keys_count [of "\<lambda>c. c = k1 \<or> c = k2" keys] by simp
qed


subsection \<open>C6: one node per rounded coordinate\<close>

text \<open>
  C6.  \<open>_create_network\<close> keys the candidate points by their coordinates rounded to seven
  decimal digits and by nothing else.  The key of a point is its coordinates rounded to seven
  digits (the nearest multiple of \<open>10\<^sup>-\<^sup>7\<close>, the even one at a tie).  The keys of
  \<open>unique_points\<close> are the distinct keys of the candidate points in the order of their first
  occurrence; the \<open>i\<close>-th of them gets the node with id \<open>N\<close> followed by \<open>i\<close> in five
  digits; \<open>self.nodes\<close> holds the same nodes under their ids, which are distinct.  So every
  candidate point, in particular each endpoint of each line, has exactly one node at its
  key; and for two endpoints of any two lines there is one node at their keys when the keys
  are equal, and there are two when they differ.
\<close>

theorem node_deduplication:
  fixes lines :: "point list list" and crossings :: "point list"
  defines "pts \<equiv> candidate_points lines crossings"
  defines "unique_points \<equiv> fst (create_network_nodes lines crossings)"
  defines "ns \<equiv> snd (create_network_nodes lines crossings)"
  shows "map fst unique_points = first_occurrences [] (map round_point pts) \<and>
    distinct (map fst unique_points) \<and>
    set (map fst unique_points) = round_point ` set pts \<and>
    (\<forall>i < length unique_points.
       snd (unique_points ! i) = new_node i (fst (unique_points ! i))) \<and>
    ns = map (\<lambda>kn. (n_node_id (snd kn), snd kn)) unique_points \<and>
    distinct (map fst ns) \<and>
    (\<forall>pt \<in> set pts.
       length (filter (\<lambda>n. n_coordinates n = round_point pt) (map snd ns)) = 1) \<and>
    (\<forall>l \<in> set lines. hd l \<in> set pts \<and> last l \<in> set pts) \<and>
    (\<forall>pt. rounded_to_7_digits (fst pt) (fst (round_point pt)) \<and>
          rounded_to_7_digits (snd pt) (snd (round_point pt))) \<and>
    (\<forall>l1 \<in> set lines. \<forall>l2 \<in> set lines. \<forall>e1 \<in> {hd l1, last l1}. \<forall>e2 \<in> {hd l2, last l2}.
       length (filter (\<lambda>n. n_coordinates n = round_point e1 \<or> n_coordinates n = round_point e2)
                 (map snd ns)) = (if round_point e1 = round_point e2 then 1 else 2))"
proof -
  define keys where "keys = first_occurrences [] (map round_point pts)"
  have "create_nodes pts (numbered [], by_id (numbered [])) = (numbered keys, by_id (numbered keys))"
    unfolding keys_def by (rule create_nodes_spec)
  then have cn: "create_network_nodes lines crossings = (numbered keys, by_id (numbered keys))"
    by (simp add: create_network_nodes_def pts_def numbered_def by_id_def)
  have up: "unique_points = numbered keys" and ns: "ns = by_id (numbered keys)"
    by (simp_all add: unique_points_def ns_def cn)
  have dk: "distinct keys" and sk: "set keys = round_point ` set pts"
    by (simp_all add: keys_def first_occurrences_distinct first_occurrences_set)
  have 1: "map fst unique_points = first_occurrences [] (map round_point pts)"
    by (simp add: up fst_numbered keys_def)
  have 2: "distinct (map fst unique_points)" by (simp add: up fst_numbered dk)
  have 3: "set (map fst unique_points) = round_point ` set pts"
    using sk by (simp add: up fst_numbered)
  have 4: "\<forall>i < length unique_points. snd (unique_points ! i) = new_node i (fst (unique_points ! i))"
    by (simp add: up numbered_def)
  have 5: "ns = map (\<lambda>kn. (n_node_id (snd kn), snd kn)) unique_points"
    by (simp add: ns up by_id_def)
  have "distinct (node_ids n)" for n
    by (auto simp: node_ids_def distinct_map inj_on_def dest: fmt05_inj)
  then have 6: "distinct (map fst ns)" by (simp add: ns fst_by_id_numbered)
  have msn: "map snd ns = map snd (numbered keys)"
    by (simp add: ns by_id_def comp_def)
  have 7: "\<forall>pt \<in> set pts. length (filter (\<lambda>n. n_coordinates n = round_point pt) (map snd ns)) = 1"
  proof
    fix pt assume "pt \<in> set pts"
    then have "round_point pt \<in> set keys" using sk by simp
    with filter_key_one [OF dk \<open>round_point pt \<in> set keys\<close>] msn
    show "length (filter (\<lambda>n. n_coordinates n = round_point pt) (map snd ns)) = 1"
      by simp
  qed
  have 8: "\<forall>l \<in> set lines. hd l \<in> set pts \<and> last l \<in> set pts"
    by (auto simp: pts_def candidate_points_def)
  have 9: "\<forall>pt. rounded_to_7_digits (fst pt) (fst (round_point pt)) \<and>
          rounded_to_7_digits (snd pt) (snd (round_point pt))"
    by (simp add: round_point_def py_round_7)
  have 10: "\<forall>l1 \<in> set lines. \<forall>l2 \<in> set lines. \<forall>e1 \<in> {hd l1, last l1}. \<forall>e2 \<in> {hd l2, last l2}.
       length (filter (\<lambda>n. n_coordinates n = round_point e1 \<or> n_coordinates n = round_point e2)
                 (map snd ns)) = (if round_point e1 = round_point e2 then 1 else 2)"
  proof (intro ballI)
    fix l1 l2 e1 e2
    assume l: "l1 \<in> set lines" "l2 \<in> set lines" and e: "e1 \<in> {hd l1, last l1}" "e2 \<in> {hd l2, last l2}"
    from 8 l e have "e1 \<in> set pts" "e2 \<in> set pts" by auto
    then have "round_point e1 \<in> set keys" "round_point e2 \<in> set keys" using sk by simp_all
    from filter_two_keys [OF dk this] msn
    show "length (filter (\<lambda>n. n_coordinates n = round_point e1 \<or> n_coordinates n = round_point e2)
                 (map snd ns)) = (if round_point e1 = round_point e2 then 1 else 2)"
      by simp
  qed
  show ?thesis
    using 1 2 3 4 5 6 7 8 9 10 by (intro conjI) assumption+
qed

lemma near_round:
  "round_point (0, 0) = (0, 0)" "round_point (1, 0) = (1, 0)" "round_point (2, 0) = (2, 0)"
  "round_point near_one = (1, 0)"
  "round_point next_to_one = (10000001 / 10 ^ 7, 39062 / 10 ^ 7)"
  "round_point far_end = (3, 117188 / 10 ^ 7)"
  by (simp_all add: round_point_def py_round_def round_half_even_def near_one_def
      next_to_one_def far_end_def)

lemma near_nodes:
  "snd (create_network_nodes near_lines []) =
     [(''N00000'', new_node 0 (0, 0)),
      (''N00001'', new_node 1 (1, 0)),
      (''N00002'', new_node 2 (2, 0)),
      (''N00003'', new_node 3 (10000001 / 10 ^ 7, 39062 / 10 ^ 7)),
      (''N00004'', new_node 4 (3, 117188 / 10 ^ 7))]"
  by (simp add: create_network_nodes_def candidate_points_def near_lines_def near_round
      fmt05_small numeral_eq_Suc)

theorem node_deduplication_witness:
  "[(0, 0), (1, 0)] \<in> set near_lines \<and>
   [near_one, (2, 0)] \<in> set near_lines \<and>
   last [(0, 0), (1, 0)] \<noteq> hd [near_one, (2, 0)] \<and>
   round_point (last [(0, 0), (1, 0)]) = (1, 0) \<and>
   round_point (hd [near_one, (2, 0)]) = (1, 0) \<and>
   length (filter (\<lambda>n. n_coordinates n = round_point (last [(0, 0), (1, 0)]) \<or>
                       n_coordinates n = round_point (hd [near_one, (2, 0)]))
             (map snd (snd (create_network_nodes near_lines [])))) = 1 \<and>
   round_point (hd [next_to_one, far_end]) \<noteq> round_point (last [(0, 0), (1, 0)]) \<and>
   length (filter (\<lambda>n. n_coordinates n = round_point (last [(0, 0), (1, 0)]) \<or>
                       n_coordinates n = round_point (hd [next_to_one, far_end]))
             (map snd (snd (create_network_nodes near_lines [])))) = 2 \<and>
   rounded_to_7_digits (fst near_one) 1 \<and>
   snd (create_network_nodes near_lines []) =
     [(''N00000'', new_node 0 (0, 0)),
      (''N00001'', new_node 1 (1, 0)),
      (''N00002'', new_node 2 (2, 0)),
      (''N00003'', new_node 3 (10000001 / 10 ^ 7, 39062 / 10 ^ 7)),
      (''N00004'', new_node 4 (3, 117188 / 10 ^ 7))]"
proof -
  note inst = node_deduplication [of near_lines "[]"]
  have m1: "[(0, 0), (1, 0)] \<in> set near_lines"
    and m2: "[near_one, (2, 0)] \<in> set near_lines"
    and m3: "[next_to_one, far_end] \<in> set near_lines"
    by (simp_all add: near_lines_def)
  have ne: "last [(0, 0), (1, 0)] \<noteq> hd [near_one, (2, 0)]"
    by (simp add: near_one_def)
  have r1: "round_point (last [(0, 0), (1, 0)]) = (1, 0)"
    and r2: "round_point (hd [near_one, (2, 0)]) = (1, 0)"
    by (simp_all add: near_round)
  have r3: "round_point (hd [next_to_one, far_end]) \<noteq> round_point (last [(0, 0), (1, 0)])"
    by (simp add: near_round)
  from inst have pairs: "\<forall>l1 \<in> set near_lines. \<forall>l2 \<in> set near_lines.
       \<forall>e1 \<in> {hd l1, last l1}. \<forall>e2 \<in> {hd l2, last l2}.
       length (filter (\<lambda>n. n_coordinates n = round_point e1 \<or> n_coordinates n = round_point e2)
                 (map snd (snd (create_network_nodes near_lines [])))) =
         (if round_point e1 = round_point e2 then 1 else 2)"
    by (elim conjE)
  from pairs [rule_format, OF m1 m2, of "last [(0, 0), (1, 0)]" "hd [near_one, (2, 0)]"]
  have one: "length (filter (\<lambda>n. n_coordinates n = round_point (last [(0, 0), (1, 0)]) \<or>
                       n_coordinates n = round_point (hd [near_one, (2, 0)]))
             (map snd (snd (create_network_nodes near_lines [])))) = 1"
    unfolding r1 r2 by simp
  from pairs [rule_format, OF m1 m3, of "last [(0, 0), (1, 0)]" "hd [next_to_one, far_end]"] r3
  have two: "length (filter (\<lambda>n. n_coordinates n = round_point (last [(0, 0), (1, 0)]) \<or>
                       n_coordinates n = round_point (hd [next_to_one, far_end]))
             (map snd (snd (create_network_nodes near_lines [])))) = 2"
    by (simp del: last.simps list.sel)
  from inst have "\<forall>pt. rounded_to_7_digits (fst pt) (fst (round_point pt)) \<and>
          rounded_to_7_digits (snd pt) (snd (round_point pt))"
    by (elim conjE)
  from this [rule_format, of near_one]
  have rd: "rounded_to_7_digits (fst near_one) 1"
    by (simp add: near_round)
  show ?thesis
    using m1 m2 ne r1 r2 one r3 two rd near_nodes by (intro conjI) assumption+
qed

subsection \<open>Classification: lemmas\<close>

lemma retyped_refl: "retyped kn kn"
  by (auto simp: retyped_def intro: exI [of _ "n_node_type (snd kn)"])

lemma retyped_trans: "retyped a b \<Longrightarrow> retyped b c \<Longrightarrow> retyped a c"
  by (auto simp: retyped_def)

lemma list_all2_retyped_refl: "list_all2 retyped ns ns"
  by (simp add: list_all2_refl retyped_refl)

lemma list_all2_retyped_trans:
  "list_all2 retyped xs ys \<Longrightarrow> list_all2 retyped ys zs \<Longrightarrow> list_all2 retyped xs zs"
  by (rule list_all2_trans [of retyped retyped retyped]) (auto intro: retyped_trans)

lemma dict_set_retyped:
  "dict_get ns nid = Some n \<Longrightarrow> list_all2 retyped ns (dict_set ns nid (n\<lparr>n_node_type := t\<rparr>))"
proof (induction ns)
  case Nil
  then show ?case by simp
next
  case (Cons kn ns)
  obtain k v where kn: "kn = (k, v)" by (cases kn)
  show ?case
  proof (cases "k = nid")
    case True
    with Cons.prems kn have "v = n" by simp
    with True have "retyped (k, v) (nid, n\<lparr>n_node_type := t\<rparr>)"
      by (auto simp: retyped_def)
    with True kn show ?thesis
      by (simp add: list_all2_retyped_refl)
  next
    case False
    with Cons kn show ?thesis by (simp add: retyped_refl)
  qed
qed

lemma set_node_type_retyped:
  "set_node_type ns nid ok t = Inr ns' \<Longrightarrow> list_all2 retyped ns ns'"
  by (auto simp: set_node_type_def dict_set_retyped list_all2_retyped_refl
      split: option.splits if_splits)

lemma mark_nodes_retyped:
  "mark_nodes sel ok t segs ns = Inr ns' \<Longrightarrow> list_all2 retyped ns ns'"
proof (induction segs arbitrary: ns)
  case Nil
  then show ?case by (simp add: list_all2_retyped_refl)
next
  case (Cons segment segs)
  show ?case
  proof (cases "sel (s_name segment)")
    case False
    with Cons show ?thesis by simp
  next
    case True
    with Cons.prems obtain ns1 ns2 where
      1: "set_node_type ns (s_start_node segment) ok t = Inr ns1"
      and 2: "set_node_type ns1 (s_end_node segment) ok t = Inr ns2"
      and 3: "mark_nodes sel ok t segs ns2 = Inr ns'"
      by (auto split: sum.splits)
    from set_node_type_retyped [OF 1] set_node_type_retyped [OF 2] Cons.IH [OF 3]
    show ?thesis by (blast intro: list_all2_retyped_trans)
  qed
qed

lemma find_gates_spec:
  "find_gates segs rest (done, gs) = Inr (ns3, gs') \<Longrightarrow>
   ns3 = done @ map (as_gate segs) rest \<and> gs' = fold (register segs) rest gs"
proof (induction rest arbitrary: "done" gs)
  case Nil
  then show ?case by simp
next
  case (Cons kn rest)
  obtain k node where kn: "kn = (k, node)" by (cases kn)
  show ?case
  proof (cases "gate_segment segs node")
    case None
    with Cons.prems kn have "find_gates segs rest (done @ [(k, node)], gs) = Inr (ns3, gs')"
      by (auto simp: gate_segment_def split: list.splits option.splits if_splits)
    from Cons.IH [OF this] None kn show ?thesis
      by (simp add: as_gate_def register_def)
  next
    case (Some segment)
    with Cons.prems kn have
      "find_gates segs rest
         (done @ [(k, node\<lparr>n_node_type := ''gate'', n_gate_info := Some (gate_info_of segment)\<rparr>)],
          dict_set gs (s_name segment) (gate_entry_of node segment)) = Inr (ns3, gs')"
      by (auto simp: gate_segment_def split: list.splits option.splits if_splits)
    from Cons.IH [OF this] Some kn show ?thesis
      by (simp add: as_gate_def register_def)
  qed
qed

lemma register_keeps:
  "dict_get gs nm = Some e \<Longrightarrow> \<exists>e'. dict_get (register segs kn gs) nm = Some e'"
  by (auto simp: register_def dict_get_set split: option.splits)

lemma fold_register_keeps:
  "dict_get gs nm = Some e \<Longrightarrow> \<exists>e'. dict_get (fold (register segs) rest gs) nm = Some e'"
proof (induction rest arbitrary: gs e)
  case Nil
  then show ?case by simp
next
  case (Cons kn rest)
  from register_keeps [OF Cons.prems] obtain e' where
    "dict_get (register segs kn gs) nm = Some e'" by blast
  from Cons.IH [OF this] show ?case by simp
qed

lemma fold_register_other:
  "(\<And>kn seg'. kn \<in> set rest \<Longrightarrow> gate_segment segs (snd kn) = Some seg' \<Longrightarrow> s_name seg' \<noteq> nm)
   \<Longrightarrow> dict_get (fold (register segs) rest gs) nm = dict_get gs nm"
proof (induction rest arbitrary: gs)
  case Nil
  then show ?case by simp
next
  case (Cons kn rest)
  have "dict_get (register segs kn gs) nm = dict_get gs nm"
    using Cons.prems [of kn] by (auto simp: register_def dict_get_set split: option.splits)
  moreover have "dict_get (fold (register segs) rest (register segs kn gs)) nm
      = dict_get (register segs kn gs) nm"
    by (rule Cons.IH) (use Cons.prems in auto)
  ultimately show ?case by simp
qed


lemma gate_segment_retyped:
  "gate_segment segs (node\<lparr>n_node_type := ty\<rparr>) = gate_segment segs node"
  by (simp add: gate_segment_def)

lemma gate_segment_iff:
  "gate_segment segs node = Some segment \<longleftrightarrow>
   (\<exists>sid. n_connected_segments node = [sid] \<and> dict_get segs sid = Some segment \<and>
          s_segment_type segment = ''parking_position'')"
  by (auto simp: gate_segment_def split: list.splits option.splits)

lemma lone_stand_run: "identify_special_nodes lone_stand = Inr lone_stand_classified"
  by (simp add: identify_special_nodes_def lone_stand_def lone_stand_classified_def
      stand_segment_def stand_node_def runway_points_def parking_exits_def)

subsection \<open>C7: the gate rule of the classifier\<close>

text \<open>
  C7, as stated, fails in its last part.  The gate index is keyed by the segment's name, and
  a later gate node whose segment has the same name replaces the entry.  On the lone stand
  both end nodes have the segment \<open>S00000\<close> as their only segment; both become gates, and
  the index holds one entry \<open>K24\<close>, that of \<open>N00001\<close>: the node \<open>N00000\<close> is a gate
  that the index does not hold.
\<close>

theorem gate_index_counterexample:
  "identify_special_nodes lone_stand = Inr lone_stand_classified \<and>
   n_connected_segments (snd (nodes lone_stand ! 0)) = [''S00000''] \<and>
   dict_get (segments_d lone_stand) ''S00000'' = Some stand_segment \<and>
   s_segment_type stand_segment = ''parking_position'' \<and>
   n_node_type (snd (nodes lone_stand_classified ! 0)) = ''gate'' \<and>
   n_node_id (snd (nodes lone_stand_classified ! 0)) = ''N00000'' \<and>
   gates lone_stand_classified
     = [(s_name stand_segment, gate_entry_of (snd (nodes lone_stand ! 1)) stand_segment)] \<and>
   ge_node_id (gate_entry_of (snd (nodes lone_stand ! 1)) stand_segment) = ''N00001'' \<and>
   dict_get (gates lone_stand_classified) (s_name stand_segment)
     \<noteq> Some (gate_entry_of (snd (nodes lone_stand ! 0)) stand_segment)"
  by (simp add: lone_stand_run)
    (simp add: lone_stand_def lone_stand_classified_def stand_segment_def stand_node_def
      gate_entry_of_def new_node_def fmt05_small)

text \<open>
  C7, amended.  After \<open>_identify_special_nodes\<close> has run, every node with exactly one
  incident segment whose type is \<open>parking_position\<close> has the role \<open>gate\<close> and the gate
  metadata of that segment (name, heading, id), whatever role the first two passes gave it;
  the gate index has an entry under the segment's name; and that entry is the node's own
  (its id, its coordinates, the segment's heading and id) unless a later node, in the order
  of \<open>self.nodes\<close>, is a gate node whose segment has the same name.
\<close>

theorem gate_rule:
  assumes run: "identify_special_nodes st = Inr st'"
    and i: "i < length (nodes st)"
    and deg: "n_connected_segments (snd (nodes st ! i)) = [sid]"
    and seg: "dict_get (segments_d st) sid = Some segment"
    and pp: "s_segment_type segment = ''parking_position''"
  shows "length (nodes st') = length (nodes st) \<and>
    fst (nodes st' ! i) = fst (nodes st ! i) \<and>
    n_node_type (snd (nodes st' ! i)) = ''gate'' \<and>
    n_gate_info (snd (nodes st' ! i)) =
      Some \<lparr>gi_gate_id = s_name segment, gi_heading = s_heading segment,
            gi_segment_id = s_segment_id segment\<rparr> \<and>
    (\<exists>e. dict_get (gates st') (s_name segment) = Some e) \<and>
    ((\<forall>j segment'. i < j \<and> j < length (nodes st) \<and>
         gate_segment (segments_d st) (snd (nodes st ! j)) = Some segment'
         \<longrightarrow> s_name segment' \<noteq> s_name segment) \<longrightarrow>
     dict_get (gates st') (s_name segment) =
       Some \<lparr>ge_node_id = n_node_id (snd (nodes st ! i)),
            ge_coordinates = n_coordinates (snd (nodes st ! i)),
            ge_heading = s_heading segment, ge_segment_id = s_segment_id segment\<rparr>)"
proof -
  let ?segs = "segments_d st"
  from run obtain ns1 ns2 ns3 gs where
    p1: "mark_nodes (\<lambda>n. n \<in> runway_points) (\<lambda>_. True) ''runway_exit'' (map snd ?segs) (nodes st)
           = Inr ns1"
    and p2: "mark_nodes (\<lambda>n. n \<in> parking_exits (parking_exit_names st))
               (\<lambda>t. t = ''intersection'') ''parking_exit'' (map snd ?segs) ns1 = Inr ns2"
    and p3: "find_gates ?segs ns2 ([], gates st) = Inr (ns3, gs)"
    and st': "st' = st\<lparr>nodes := ns3, gates := gs\<rparr>"
    by (auto simp: identify_special_nodes_def split: sum.splits prod.splits)
  have shape: "list_all2 retyped (nodes st) ns2"
    using mark_nodes_retyped [OF p1] mark_nodes_retyped [OF p2]
    by (rule list_all2_retyped_trans)
  have len: "length ns2 = length (nodes st)"
    using shape by (simp add: list_all2_lengthD)
  from find_gates_spec [OF p3] have ns3: "ns3 = map (as_gate ?segs) ns2"
    and gs: "gs = fold (register ?segs) ns2 (gates st)" by simp_all
  obtain k node where kn: "nodes st ! i = (k, node)" by (cases "nodes st ! i")
  from shape i have "retyped (nodes st ! i) (ns2 ! i)" by (simp add: list_all2_nthD)
  with kn obtain ty where i2: "ns2 ! i = (k, node\<lparr>n_node_type := ty\<rparr>)"
    by (cases "ns2 ! i") (auto simp: retyped_def)
  have gseg: "gate_segment ?segs node = Some segment"
    using deg seg pp kn by (simp add: gate_segment_iff)
  have at_i: "ns3 ! i = (k, node\<lparr>n_node_type := ''gate'',
                                 n_gate_info := Some (gate_info_of segment)\<rparr>)"
    using i len i2 gseg by (simp add: ns3 as_gate_def gate_segment_retyped)
  have A: "length (nodes st') = length (nodes st)" by (simp add: st' ns3 len)
  have B: "fst (nodes st' ! i) = fst (nodes st ! i)" by (simp add: st' at_i kn)
  have C: "n_node_type (snd (nodes st' ! i)) = ''gate''" by (simp add: st' at_i)
  have D: "n_gate_info (snd (nodes st' ! i)) =
      Some \<lparr>gi_gate_id = s_name segment, gi_heading = s_heading segment,
            gi_segment_id = s_segment_id segment\<rparr>"
    by (simp add: st' at_i gate_info_of_def)
  let ?entry = "gate_entry_of node segment"
  have split: "ns2 = take i ns2 @ ns2 ! i # drop (Suc i) ns2"
    using i len by (simp add: id_take_nth_drop)
  define g1 where "g1 = fold (register ?segs) (take i ns2) (gates st)"
  have gs': "gs = fold (register ?segs) (drop (Suc i) ns2)
                    (dict_set g1 (s_name segment) ?entry)"
  proof -
    have "gs = fold (register ?segs) (take i ns2 @ ns2 ! i # drop (Suc i) ns2) (gates st)"
      using gs split by simp
    then show ?thesis
      by (simp add: g1_def i2 register_def gate_segment_retyped gseg gate_entry_of_def)
  qed
  have here: "dict_get (dict_set g1 (s_name segment) ?entry) (s_name segment) = Some ?entry"
    by (simp add: dict_get_set)
  have E: "\<exists>e. dict_get (gates st') (s_name segment) = Some e"
    using fold_register_keeps [OF here] by (simp add: st' gs')
  have F: "dict_get (gates st') (s_name segment) =
       Some \<lparr>ge_node_id = n_node_id (snd (nodes st ! i)),
            ge_coordinates = n_coordinates (snd (nodes st ! i)),
            ge_heading = s_heading segment, ge_segment_id = s_segment_id segment\<rparr>"
    if later: "\<forall>j segment'. i < j \<and> j < length (nodes st) \<and>
         gate_segment ?segs (snd (nodes st ! j)) = Some segment'
         \<longrightarrow> s_name segment' \<noteq> s_name segment"
  proof -
    have other: "s_name seg' \<noteq> s_name segment"
      if "kn' \<in> set (drop (Suc i) ns2)" "gate_segment ?segs (snd kn') = Some seg'" for kn' seg'
    proof -
      from that(1) obtain m where m: "m < length (drop (Suc i) ns2)" "kn' = drop (Suc i) ns2 ! m"
        by (auto simp: in_set_conv_nth)
      then have j: "Suc i + m < length (nodes st)" and kn': "kn' = ns2 ! (Suc i + m)"
        using len by simp_all
      from shape j have "retyped (nodes st ! (Suc i + m)) (ns2 ! (Suc i + m))"
        by (simp add: list_all2_nthD)
      then have "gate_segment ?segs (snd (nodes st ! (Suc i + m))) = gate_segment ?segs (snd kn')"
        by (auto simp: retyped_def kn' gate_segment_retyped)
      with that(2) have "gate_segment ?segs (snd (nodes st ! (Suc i + m))) = Some seg'" by simp
      moreover have "i < Suc i + m" by simp
      ultimately show ?thesis using later j by blast
    qed
    have "dict_get gs (s_name segment) = Some ?entry"
      unfolding gs' using fold_register_other [of "drop (Suc i) ns2" ?segs "s_name segment"] other here
      by simp
    then show ?thesis by (simp add: st' kn gate_entry_of_def)
  qed
  show ?thesis
    using A B C D E F by (intro conjI impI) assumption+
qed

theorem gate_rule_witness:
  "identify_special_nodes lone_stand = Inr lone_stand_classified \<and>
   1 < length (nodes lone_stand) \<and>
   n_connected_segments (snd (nodes lone_stand ! 1)) = [''S00000''] \<and>
   dict_get (segments_d lone_stand) ''S00000'' = Some stand_segment \<and>
   s_segment_type stand_segment = ''parking_position'' \<and>
   n_node_type (snd (nodes lone_stand_classified ! 1)) = ''gate'' \<and>
   n_gate_info (snd (nodes lone_stand_classified ! 1)) =
     Some \<lparr>gi_gate_id = s_name stand_segment, gi_heading = s_heading stand_segment,
           gi_segment_id = s_segment_id stand_segment\<rparr> \<and>
   dict_get (gates lone_stand_classified) (s_name stand_segment) =
     Some \<lparr>ge_node_id = n_node_id (snd (nodes lone_stand ! 1)),
           ge_coordinates = n_coordinates (snd (nodes lone_stand ! 1)),
           ge_heading = s_heading stand_segment,
           ge_segment_id = s_segment_id stand_segment\<rparr>"
proof -
  have h1: "1 < length (nodes lone_stand)" by (simp add: lone_stand_def)
  have h2: "n_connected_segments (snd (nodes lone_stand ! 1)) = [''S00000'']"
    by (simp add: lone_stand_def stand_node_def)
  have h3: "dict_get (segments_d lone_stand) ''S00000'' = Some stand_segment"
    by (simp add: lone_stand_def)
  have h4: "s_segment_type stand_segment = ''parking_position''"
    by (simp add: stand_segment_def)
  note r = gate_rule [OF lone_stand_run h1 h2 h3 h4]
  from r have ty: "n_node_type (snd (nodes lone_stand_classified ! 1)) = ''gate''"
    by (elim conjE)
  from r have info: "n_gate_info (snd (nodes lone_stand_classified ! 1)) =
     Some \<lparr>gi_gate_id = s_name stand_segment, gi_heading = s_heading stand_segment,
           gi_segment_id = s_segment_id stand_segment\<rparr>"
    by (elim conjE)
  have last: "\<forall>j segment'. 1 < j \<and> j < length (nodes lone_stand) \<and>
         gate_segment (segments_d lone_stand) (snd (nodes lone_stand ! j)) = Some segment'
         \<longrightarrow> s_name segment' \<noteq> s_name stand_segment"
    by (auto simp: lone_stand_def)
  from r have "(\<forall>j segment'. 1 < j \<and> j < length (nodes lone_stand) \<and>
         gate_segment (segments_d lone_stand) (snd (nodes lone_stand ! j)) = Some segment'
         \<longrightarrow> s_name segment' \<noteq> s_name stand_segment) \<longrightarrow>
     dict_get (gates lone_stand_classified) (s_name stand_segment) =
     Some \<lparr>ge_node_id = n_node_id (snd (nodes lone_stand ! 1)),
           ge_coordinates = n_coordinates (snd (nodes lone_stand ! 1)),
           ge_heading = s_heading stand_segment,
           ge_segment_id = s_segment_id stand_segment\<rparr>"
    by (elim conjE)
  from this last have entry: "dict_get (gates lone_stand_classified) (s_name stand_segment) =
     Some \<lparr>ge_node_id = n_node_id (snd (nodes lone_stand ! 1)),
           ge_coordinates = n_coordinates (snd (nodes lone_stand ! 1)),
           ge_heading = s_heading stand_segment,
           ge_segment_id = s_segment_id stand_segment\<rparr>"
    by (rule mp)
  show ?thesis
    using lone_stand_run h1 h2 h3 h4 ty info entry by (intro conjI) assumption+
qed

end
